theory Spec2Isabelle
  imports Complex_Main "HOL-Library.Char_ord" "HOL-Library.List_Lexorder"
begin

section \<open>Numbers, failures and the interface to glm\<close>

text \<open>
  The program computes in C++ \<^verbatim>\<open>float\<close>, the binary32 format of IEEE 754. A finite
  \<^verbatim>\<open>float\<close> is the real number it stands for; infinities and NaN are no values of the
  embedding. The sums and products of the animator's clocks are rounded as the program
  rounds them (below); elsewhere a \<^verbatim>\<open>float\<close> is stored, compared or handed to glm, and
  the interpolation factor of a bone is computed exactly. C++ \<^verbatim>\<open>int\<close> is \<^typ>\<open>int\<close>; no
  count of this program comes near the 32-bit limits.
\<close>

type_synonym cfloat = real

text \<open>
  A read of a \<^verbatim>\<open>std::vector\<close> outside its range and a call through a null pointer are
  undefined behaviour in C++. The embedding makes each of them a value.
\<close>

datatype error = OutOfBounds | NullPointer

text \<open>\<^verbatim>\<open>v[i]\<close> on a \<^verbatim>\<open>std::vector\<close>, with \<^verbatim>\<open>i\<close> a C++ \<^verbatim>\<open>int\<close>.\<close>

definition vec_at :: "'a list \<Rightarrow> int \<Rightarrow> error + 'a" where
  "vec_at xs i = (if 0 \<le> i \<and> i < int (length xs) then Inr (xs ! nat i) else Inl OutOfBounds)"

text \<open>
  Rounding to binary32, to nearest with ties to even (the default mode): a number whose
  magnitude lies between \<open>2 powi e\<close> and \<open>2 powi (e + 1)\<close> is rounded to a multiple of
  \<open>2 powi (e - 23)\<close>. The exponent \<open>e\<close> is not below \<open>- 126\<close>: smaller numbers are subnormal,
  multiples of \<open>2 powi (- 149)\<close>. \<open>find_exp\<close> looks for \<open>e\<close> from 127 downwards.
\<close>

definition round_even :: "real \<Rightarrow> int" where
  "round_even q =
     (let f = \<lfloor>q\<rfloor>; r = q - of_int f
      in if r < 1 / 2 then f else if 1 / 2 < r then f + 1 else if even f then f else f + 1)"

primrec find_exp :: "nat \<Rightarrow> real \<Rightarrow> int" where
  "find_exp 0 a = - 126"
| "find_exp (Suc k) a = (if 2 powi (int k - 125) \<le> a then int k - 125 else find_exp k a)"

definition exponent32 :: "real \<Rightarrow> int" where
  "exponent32 x = find_exp 253 \<bar>x\<bar>"

definition round32 :: "real \<Rightarrow> cfloat" where
  "round32 x =
     of_int (round_even (x / 2 powi (exponent32 x - 23))) * 2 powi (exponent32 x - 23)"

text \<open>
  The largest finite \<^verbatim>\<open>float\<close>. An operation overflows, and gives an infinity in the
  program, exactly when its result rounded as above is larger in magnitude; the embedding
  then keeps the rounded real. \<open>isfinite r\<close> says of the result \<open>r\<close> of an operation of the
  embedding that the program's result is this finite number.
\<close>

definition FLT_MAX :: cfloat where
  "FLT_MAX = (2 ^ 24 - 1) * 2 ^ 104"

definition isfinite :: "cfloat \<Rightarrow> bool" where
  "isfinite r \<longleftrightarrow> \<bar>r\<bar> \<le> FLT_MAX"

text \<open>
  \<^verbatim>\<open>x + y\<close> and \<^verbatim>\<open>x * y\<close> on \<^verbatim>\<open>float\<close> and the conversion of an \<^verbatim>\<open>int\<close> to \<^verbatim>\<open>float\<close>. Each
  operation is rounded once, to \<^verbatim>\<open>float\<close>: the operands are not widened, and a product
  and a sum are not fused.
\<close>

definition fadd :: "cfloat \<Rightarrow> cfloat \<Rightarrow> cfloat" where
  "fadd x y = round32 (x + y)"

definition fmul :: "cfloat \<Rightarrow> cfloat \<Rightarrow> cfloat" where
  "fmul x y = round32 (x * y)"

definition float_of_int :: "int \<Rightarrow> cfloat" where
  "float_of_int n = round32 (of_int n)"

text \<open>
  \<^verbatim>\<open>fmod(x, y)\<close> of the C library: \<open>x - n * y\<close> with \<open>n\<close> the quotient \<open>x / y\<close> rounded
  towards zero; the result is a \<^verbatim>\<open>float\<close> when \<open>x\<close> and \<open>y\<close> are, so nothing is rounded.
  For \<open>y = 0\<close> C returns NaN, which is no value of the embedding (the definition gives
  \<open>x\<close> there): what is proved about a value of \<open>c_fmod\<close> is proved for \<open>y \<noteq> 0\<close>.
\<close>

definition trunc :: "cfloat \<Rightarrow> int" where
  "trunc z = (if 0 \<le> z then \<lfloor>z\<rfloor> else \<lceil>z\<rceil>)"

definition c_fmod :: "cfloat \<Rightarrow> cfloat \<Rightarrow> cfloat" where
  "c_fmod x y = x - of_int (trunc (x / y)) * y"

text \<open>
  glm is a library outside this repository. Its types \<^verbatim>\<open>mat4\<close>, \<^verbatim>\<open>vec3\<close> and \<^verbatim>\<open>quat\<close> are
  the type parameters \<open>'m\<close>, \<open>'v\<close> and \<open>'q\<close>, and the glm functions the program calls are
  the fields of one record that every operation of the embedding takes as its first
  argument. Nothing is assumed about them.
\<close>

record ('m, 'v, 'q) glm =
  mat4_1 :: 'm                                \<comment> \<open>\<^verbatim>\<open>glm::mat4(1.0f)\<close>\<close>
  mat_mul :: "'m \<Rightarrow> 'm \<Rightarrow> 'm"                 \<comment> \<open>\<^verbatim>\<open>operator*\<close> on \<^verbatim>\<open>mat4\<close>\<close>
  translate :: "'m \<Rightarrow> 'v \<Rightarrow> 'm"
  scale :: "'m \<Rightarrow> 'v \<Rightarrow> 'm"
  mat4_cast :: "'q \<Rightarrow> 'm"
  normalize :: "'q \<Rightarrow> 'q"
  slerp :: "'q \<Rightarrow> 'q \<Rightarrow> cfloat \<Rightarrow> 'q"
  mix :: "'v \<Rightarrow> 'v \<Rightarrow> cfloat \<Rightarrow> 'v"


section \<open>Bone (bone.hpp, bone.cpp)\<close>

record 'v KeyPosition =
  position :: 'v
  timeStamp :: cfloat

record 'q KeyRotation =
  orientation :: 'q
  timeStamp :: cfloat

record 'v KeyScale =
  scale :: 'v
  timeStamp :: cfloat

text \<open>
  The importer's \<^verbatim>\<open>aiNodeAnim\<close>: one channel, the keys of one node. The three counts
  \<^verbatim>\<open>mNumPositionKeys\<close>, \<^verbatim>\<open>mNumRotationKeys\<close> and \<^verbatim>\<open>mNumScalingKeys\<close> are the lengths of
  the three arrays. \<^verbatim>\<open>GetGLMVec\<close> and \<^verbatim>\<open>GetGLMQuat\<close> copy components, so a key's value
  is already of the glm type.
\<close>

record 'a aiKey =
  mTime :: cfloat
  mValue :: 'a

record ('v, 'q) aiNodeAnim =
  mNodeName :: string
  mPositionKeys :: "'v aiKey list"
  mRotationKeys :: "'q aiKey list"
  mScalingKeys :: "'v aiKey list"

record ('m, 'v, 'q) Bone =
  name :: string
  ID :: int
  localTransform :: 'm
  positions :: "'v KeyPosition list"
  rotations :: "'q KeyRotation list"
  scales :: "'v KeyScale list"
  numPositions :: int
  numRotations :: int
  numScalings :: int

text \<open>The constructor \<^verbatim>\<open>Bone::Bone(name, ID, channel)\<close>.\<close>

definition new_Bone ::
  "('m, 'v, 'q) glm \<Rightarrow> string \<Rightarrow> int \<Rightarrow> ('v, 'q) aiNodeAnim \<Rightarrow> ('m, 'v, 'q) Bone" where
  "new_Bone g nm i channel =
     \<lparr> Bone.name = nm, ID = i, localTransform = mat4_1 g,
       positions = map (\<lambda>k. \<lparr> position = mValue k, timeStamp = mTime k \<rparr>) (mPositionKeys channel),
       rotations = map (\<lambda>k. \<lparr> orientation = mValue k, timeStamp = mTime k \<rparr>) (mRotationKeys channel),
       scales = map (\<lambda>k. \<lparr> KeyScale.scale = mValue k, timeStamp = mTime k \<rparr>) (mScalingKeys channel),
       numPositions = int (length (mPositionKeys channel)),
       numRotations = int (length (mRotationKeys channel)),
       numScalings = int (length (mScalingKeys channel)) \<rparr>"

text \<open>
  The loop shared by \<^verbatim>\<open>GetPositionIndex\<close>, \<^verbatim>\<open>GetRotationIndex\<close> and \<^verbatim>\<open>GetScaleIndex\<close>:
  \<^verbatim>\<open>for (int i = 0; i < n - 1; ++i) if (t < keys[i + 1].timeStamp) return i; return n - 1;\<close>
  over the time stamps \<open>ts\<close> of the keys, entered at \<open>i\<close>.
\<close>

function GetIndex_loop :: "cfloat list \<Rightarrow> int \<Rightarrow> cfloat \<Rightarrow> int \<Rightarrow> error + int" where
  "GetIndex_loop ts n t i =
     (if i < n - 1
      then (case vec_at ts (i + 1) of
              Inl e \<Rightarrow> Inl e
            | Inr s \<Rightarrow> if t < s then Inr i else GetIndex_loop ts n t (i + 1))
      else Inr (n - 1))"
  by pat_completeness auto
termination
  by (relation "measure (\<lambda>(ts, n, t, i). nat (n - 1 - i))") auto

declare GetIndex_loop.simps [simp del]

definition GetPositionIndex :: "('m, 'v, 'q) Bone \<Rightarrow> cfloat \<Rightarrow> error + int" where
  "GetPositionIndex b animationTime =
     GetIndex_loop (map KeyPosition.timeStamp (positions b)) (numPositions b) animationTime 0"

definition GetRotationIndex :: "('m, 'v, 'q) Bone \<Rightarrow> cfloat \<Rightarrow> error + int" where
  "GetRotationIndex b animationTime =
     GetIndex_loop (map KeyRotation.timeStamp (rotations b)) (numRotations b) animationTime 0"

definition GetScaleIndex :: "('m, 'v, 'q) Bone \<Rightarrow> cfloat \<Rightarrow> error + int" where
  "GetScaleIndex b animationTime =
     GetIndex_loop (map KeyScale.timeStamp (scales b)) (numScalings b) animationTime 0"

definition GetScaleFactor :: "cfloat \<Rightarrow> cfloat \<Rightarrow> cfloat \<Rightarrow> cfloat" where
  "GetScaleFactor lastTimeStamp nextTimeStamp animationTime =
     (animationTime - lastTimeStamp) / (nextTimeStamp - lastTimeStamp)"

definition InterpolatePosition ::
  "('m, 'v, 'q) glm \<Rightarrow> ('m, 'v, 'q) Bone \<Rightarrow> cfloat \<Rightarrow> error + 'm" where
  "InterpolatePosition g b t =
     (if numPositions b = 1
      then (case vec_at (positions b) 0 of
              Inl e \<Rightarrow> Inl e
            | Inr k \<Rightarrow> Inr (translate g (mat4_1 g) (position k)))
      else (case GetPositionIndex b t of
              Inl e \<Rightarrow> Inl e
            | Inr i \<Rightarrow>
               (case vec_at (positions b) i of
                  Inl e \<Rightarrow> Inl e
                | Inr ki \<Rightarrow>
                   (case vec_at (positions b) (i + 1) of
                      Inl e \<Rightarrow> Inl e
                    | Inr kj \<Rightarrow>
                       (let f = GetScaleFactor (KeyPosition.timeStamp ki) (KeyPosition.timeStamp kj) t;
                            pos = mix g (position ki) (position kj) f
                        in Inr (translate g (mat4_1 g) pos))))))"

definition InterpolateRotation ::
  "('m, 'v, 'q) glm \<Rightarrow> ('m, 'v, 'q) Bone \<Rightarrow> cfloat \<Rightarrow> error + 'm" where
  "InterpolateRotation g b t =
     (if numRotations b = 1
      then (case vec_at (rotations b) 0 of
              Inl e \<Rightarrow> Inl e
            | Inr k \<Rightarrow> Inr (mat4_cast g (normalize g (orientation k))))
      else (case GetRotationIndex b t of
              Inl e \<Rightarrow> Inl e
            | Inr i \<Rightarrow>
               (case vec_at (rotations b) i of
                  Inl e \<Rightarrow> Inl e
                | Inr ki \<Rightarrow>
                   (case vec_at (rotations b) (i + 1) of
                      Inl e \<Rightarrow> Inl e
                    | Inr kj \<Rightarrow>
                       (let f = GetScaleFactor (KeyRotation.timeStamp ki) (KeyRotation.timeStamp kj) t;
                            rot = slerp g (orientation ki) (orientation kj) f
                        in Inr (mat4_cast g (normalize g rot)))))))"

definition InterpolateScaling ::
  "('m, 'v, 'q) glm \<Rightarrow> ('m, 'v, 'q) Bone \<Rightarrow> cfloat \<Rightarrow> error + 'm" where
  "InterpolateScaling g b t =
     (if numScalings b = 1
      then (case vec_at (scales b) 0 of
              Inl e \<Rightarrow> Inl e
            | Inr k \<Rightarrow> Inr (glm.scale g (mat4_1 g) (KeyScale.scale k)))
      else (case GetScaleIndex b t of
              Inl e \<Rightarrow> Inl e
            | Inr i \<Rightarrow>
               (case vec_at (scales b) i of
                  Inl e \<Rightarrow> Inl e
                | Inr ki \<Rightarrow>
                   (case vec_at (scales b) (i + 1) of
                      Inl e \<Rightarrow> Inl e
                    | Inr kj \<Rightarrow>
                       (let f = GetScaleFactor (KeyScale.timeStamp ki) (KeyScale.timeStamp kj) t;
                            s = mix g (KeyScale.scale ki) (KeyScale.scale kj) f
                        in Inr (glm.scale g (mat4_1 g) s))))))"

text \<open>
  \<^verbatim>\<open>Bone::Update\<close> stores \<open>T * R * S\<close> in the bone; \<^verbatim>\<open>GetLocalTransform\<close> reads it back.
\<close>

definition Update ::
  "('m, 'v, 'q) glm \<Rightarrow> ('m, 'v, 'q) Bone \<Rightarrow> cfloat \<Rightarrow> error + ('m, 'v, 'q) Bone" where
  "Update g b animationTime =
     (case InterpolatePosition g b animationTime of
        Inl e \<Rightarrow> Inl e
      | Inr T \<Rightarrow>
         (case InterpolateRotation g b animationTime of
            Inl e \<Rightarrow> Inl e
          | Inr R \<Rightarrow>
             (case InterpolateScaling g b animationTime of
                Inl e \<Rightarrow> Inl e
              | Inr S \<Rightarrow> Inr (b\<lparr> localTransform := mat_mul g (mat_mul g T R) S \<rparr>))))"

definition GetLocalTransform :: "('m, 'v, 'q) Bone \<Rightarrow> 'm" where
  "GetLocalTransform b = localTransform b"

definition GetBoneName :: "('m, 'v, 'q) Bone \<Rightarrow> string" where
  "GetBoneName b = Bone.name b"

definition GetBoneID :: "('m, 'v, 'q) Bone \<Rightarrow> int" where
  "GetBoneID b = ID b"


section \<open>The bone table of the skeletal model (animated\_model.hpp, animated\_model.cpp)\<close>

text \<open>
  A \<^verbatim>\<open>std::map\<close> is the list of its entries in the order in which C++ iterates over them,
  the order of the keys. \<^verbatim>\<open>find\<close> is \<^const>\<open>map_of\<close>; an assignment through
  \<^verbatim>\<open>operator[]\<close> is \<open>map_put\<close>.
\<close>

type_synonym ('k, 'a) std_map = "('k \<times> 'a) list"

fun map_put :: "'k::linorder \<Rightarrow> 'a \<Rightarrow> ('k, 'a) std_map \<Rightarrow> ('k, 'a) std_map" where
  "map_put k v [] = [(k, v)]"
| "map_put k v ((k', v') # m) =
     (if k < k' then (k, v) # (k', v') # m
      else if k = k' then (k, v) # m
      else (k', v') # map_put k v m)"

record 'm BoneInfo =
  id :: int
  offset :: 'm

text \<open>
  Of \<^verbatim>\<open>AnimatedModel\<close> the animation code uses the two public members behind
  \<^verbatim>\<open>GetBoneCount()\<close> and \<^verbatim>\<open>GetBoneInfoMap()\<close>, both returned by reference.
\<close>

record 'm AnimatedModel =
  boneCounter :: int
  boneInfoMap :: "(string, 'm BoneInfo) std_map"

text \<open>The member initialisers of \<^verbatim>\<open>AnimatedModel\<close>: no bone yet.\<close>

definition new_AnimatedModel :: "'m AnimatedModel" where
  "new_AnimatedModel = \<lparr> boneCounter = 0, boneInfoMap = [] \<rparr>"

definition ALLOWED_BONES :: "string list" where
  "ALLOWED_BONES = [''DEF-'', ''head'', ''tail.001'']"

text \<open>
  The filter of \<^verbatim>\<open>ExtractBoneWeightForVertices\<close>:
  \<^verbatim>\<open>(filter[0] == 'D' && boneName.rfind(filter, 0) == 0) || boneName == filter\<close>.
\<close>

definition bone_allowed :: "string \<Rightarrow> bool" where
  "bone_allowed boneName =
     list_ex (\<lambda>f. (f \<noteq> [] \<and> hd f = CHR ''D'' \<and> take (length f) boneName = f) \<or> boneName = f)
       ALLOWED_BONES"

text \<open>
  What \<^verbatim>\<open>ExtractBoneWeightForVertices\<close> does to the table for the bones of one mesh, each
  given by its name and its offset matrix (the vertex weights it also sets are not part
  of the table).
\<close>

fun ExtractBoneWeightForVertices ::
  "(string \<times> 'm) list \<Rightarrow> 'm AnimatedModel \<Rightarrow> 'm AnimatedModel" where
  "ExtractBoneWeightForVertices [] M = M"
| "ExtractBoneWeightForVertices ((boneName, mOffsetMatrix) # rest) M =
     (if \<not> bone_allowed boneName then ExtractBoneWeightForVertices rest M
      else if map_of (boneInfoMap M) boneName = None
      then ExtractBoneWeightForVertices rest
             \<lparr> boneCounter = boneCounter M + 1,
               boneInfoMap = map_put boneName \<lparr> id = boneCounter M, offset = mOffsetMatrix \<rparr>
                               (boneInfoMap M) \<rparr>
      else ExtractBoneWeightForVertices rest M)"


section \<open>Animation (animation.hpp, animation.cpp)\<close>

datatype 'm AssimpNodeData =
  AssimpNodeData (transformation: 'm) (name: string) (childrenCount: int)
    (children: "'m AssimpNodeData list")

text \<open>
  What the importer hands over. An array and its count are one list;
  \<^verbatim>\<open>ConvertMatrixToGLMFormat\<close> copies the sixteen entries into glm's layout, so a node's
  matrix is already of the glm type.
\<close>

datatype 'm aiNode =
  aiNode (mName: string) (mTransformation: 'm) (mChildren: "'m aiNode list")

record ('v, 'q) aiAnimation =
  mName :: string
  mDuration :: real
  mTicksPerSecond :: real
  mChannels :: "('v, 'q) aiNodeAnim list"

record ('m, 'v, 'q) aiScene =
  mAnimations :: "('v, 'q) aiAnimation list"
  mRootNode :: "'m aiNode"

definition HasAnimations :: "('m, 'v, 'q) aiScene \<Rightarrow> bool" where
  "HasAnimations scene = (mAnimations scene \<noteq> [])"

definition DEFAULT_TICKS_PER_SECOND :: cfloat where
  "DEFAULT_TICKS_PER_SECOND = 25"

record ('m, 'v, 'q) Animation =
  duration :: cfloat
  ticksPerSecond :: int
  boneCount :: int
  name :: string
  bones :: "('m, 'v, 'q) Bone list"
  rootNode :: "'m AssimpNodeData"
  boneInfoMap :: "(string, 'm BoneInfo) std_map"

text \<open>
  \<^verbatim>\<open>ReadHierarchyData(dest, src)\<close> overwrites every member of \<open>dest\<close> except the vector of
  children, onto which it pushes; so \<open>dest\<close> enters as the children it already has. The
  local \<^verbatim>\<open>childData\<close> of the loop starts with none.
\<close>

fun ReadHierarchyData :: "'m AssimpNodeData list \<Rightarrow> 'm aiNode \<Rightarrow> 'm AssimpNodeData" where
  "ReadHierarchyData dest_children (aiNode nm tr cs) =
     AssimpNodeData tr nm (int (length cs)) (dest_children @ map (ReadHierarchyData []) cs)"

text \<open>
  \<^verbatim>\<open>boneInfoMap[name].id\<close>, read where the key is present (on an absent key
  \<^verbatim>\<open>operator[]\<close> makes a value-initialised entry, whose id is 0).
\<close>

definition map_id :: "(string, 'm BoneInfo) std_map \<Rightarrow> string \<Rightarrow> int" where
  "map_id m k = (case map_of m k of Some info \<Rightarrow> id info | None \<Rightarrow> 0)"

text \<open>
  The loop of \<^verbatim>\<open>ReadMissingBones\<close> over the channels: \<open>bs\<close> is \<^verbatim>\<open>this->bones\<close>, \<open>M\<close> the
  model, whose table and counter the loop updates through references.
\<close>

fun ReadMissingBones_loop ::
  "('m, 'v, 'q) glm \<Rightarrow> ('v, 'q) aiNodeAnim list \<Rightarrow> ('m, 'v, 'q) Bone list \<Rightarrow> 'm AnimatedModel \<Rightarrow>
   ('m, 'v, 'q) Bone list \<times> 'm AnimatedModel" where
  "ReadMissingBones_loop g [] bs M = (bs, M)"
| "ReadMissingBones_loop g (channel # rest) bs M =
     (let boneName = mNodeName channel;
          M1 = (if map_of (AnimatedModel.boneInfoMap M) boneName = None
                then \<lparr> boneCounter = boneCounter M + 1,
                       boneInfoMap = map_put boneName \<lparr> id = boneCounter M, offset = mat4_1 g \<rparr>
                                       (AnimatedModel.boneInfoMap M) \<rparr>
                else M)
      in ReadMissingBones_loop g rest
           (bs @ [new_Bone g (mNodeName channel)
                    (map_id (AnimatedModel.boneInfoMap M1) (mNodeName channel)) channel])
           M1)"

definition ReadMissingBones ::
  "('m, 'v, 'q) glm \<Rightarrow> ('v, 'q) aiAnimation \<Rightarrow> ('m, 'v, 'q) Animation \<Rightarrow> 'm AnimatedModel \<Rightarrow>
   ('m, 'v, 'q) Animation \<times> 'm AnimatedModel" where
  "ReadMissingBones g animation this M =
     (case ReadMissingBones_loop g (mChannels animation) (bones this) M of
        (bs, M1) \<Rightarrow>
          (this\<lparr> bones := bs,
                 boneInfoMap := AnimatedModel.boneInfoMap M1,
                 boneCount := boneCounter M1 \<rparr>, M1))"

text \<open>
  The constructor \<^verbatim>\<open>Animation::Animation(animationPath, model, animationIndex)\<close>.
  \<open>ReadFile\<close> is the importer on the files as they are at the call: \<open>None\<close> is the null
  scene of a file that cannot be read. \<open>this\<close> is the object as the constructor's body
  finds it: the class has no member initialisers, so the string, the vectors and the map
  are empty and the numbers hold whatever the storage held. The body returns early on a
  failed validation, and the object stays as it was found.
  The comparison \<^verbatim>\<open>animationIndex >= scene->mNumAnimations\<close> is made in \<^verbatim>\<open>unsigned int\<close>,
  where a negative index is above every count.
\<close>

definition new_Animation ::
  "('m, 'v, 'q) glm \<Rightarrow> (string \<Rightarrow> ('m, 'v, 'q) aiScene option) \<Rightarrow> ('m, 'v, 'q) Animation \<Rightarrow>
   string \<Rightarrow> 'm AnimatedModel \<Rightarrow> int \<Rightarrow> ('m, 'v, 'q) Animation \<times> 'm AnimatedModel" where
  "new_Animation g ReadFile this animationPath M animationIndex =
     (case ReadFile animationPath of
        None \<Rightarrow> (this, M)
      | Some scene \<Rightarrow>
          if \<not> HasAnimations scene \<or> animationIndex < 0
             \<or> animationIndex \<ge> int (length (mAnimations scene))
          then (this, M)
          else
            (let animation = mAnimations scene ! nat animationIndex;
                 this1 = this\<lparr> name := aiAnimation.mName animation,
                               duration := mDuration animation,
                               ticksPerSecond :=
                                 (if mTicksPerSecond animation \<noteq> 0
                                  then trunc (mTicksPerSecond animation)
                                  else trunc DEFAULT_TICKS_PER_SECOND),
                               boneCount := 0 \<rparr>;
                 this2 = this1\<lparr> rootNode :=
                                  ReadHierarchyData (children (rootNode this1)) (mRootNode scene) \<rparr>
             in ReadMissingBones g animation this2 M))"

text \<open>The object a \<^verbatim>\<open>new Animation\<close> starts from: nothing in the containers.\<close>

definition default_initialised :: "('m, 'v, 'q) Animation \<Rightarrow> bool" where
  "default_initialised this \<longleftrightarrow>
     Animation.name this = [] \<and> bones this = [] \<and> Animation.boneInfoMap this = [] \<and>
     AssimpNodeData.name (rootNode this) = [] \<and> children (rootNode this) = []"

text \<open>
  \<^verbatim>\<open>FindBone\<close> returns a pointer into \<^verbatim>\<open>bones\<close>: the place of the first bone of that
  name together with the bone there; \<open>None\<close> is the null pointer.
\<close>

fun find_if_name ::
  "('m, 'v, 'q) Bone list \<Rightarrow> string \<Rightarrow> nat \<Rightarrow> (nat \<times> ('m, 'v, 'q) Bone) option" where
  "find_if_name [] nm i = None"
| "find_if_name (b # bs) nm i =
     (if GetBoneName b = nm then Some (i, b) else find_if_name bs nm (Suc i))"

definition FindBone ::
  "('m, 'v, 'q) Animation \<Rightarrow> string \<Rightarrow> (nat \<times> ('m, 'v, 'q) Bone) option" where
  "FindBone a nm = find_if_name (bones a) nm 0"

definition GetTicksPerSecond :: "('m, 'v, 'q) Animation \<Rightarrow> cfloat" where
  "GetTicksPerSecond a = float_of_int (ticksPerSecond a)"

definition GetDuration :: "('m, 'v, 'q) Animation \<Rightarrow> cfloat" where
  "GetDuration a = duration a"

definition GetRootNode :: "('m, 'v, 'q) Animation \<Rightarrow> 'm AssimpNodeData" where
  "GetRootNode a = rootNode a"

definition GetBoneIDMap :: "('m, 'v, 'q) Animation \<Rightarrow> (string, 'm BoneInfo) std_map" where
  "GetBoneIDMap a = Animation.boneInfoMap a"

definition GetBoneCount :: "('m, 'v, 'q) Animation \<Rightarrow> int" where
  "GetBoneCount a = boneCount a"


section \<open>AnimationLoader (animation\_loader.hpp, animation\_loader.cpp)\<close>

record AnimationInfo =
  name :: string
  index :: int
  duration :: cfloat
  ticksPerSecond :: cfloat

text \<open>
  The loader keeps the path, a pointer to the model and the catalogue. The model it
  points to is passed to the operations that reach through the pointer.
\<close>

record AnimationLoader =
  modelPath :: string
  animations :: "AnimationInfo list"

fun catalogue :: "('v, 'q) aiAnimation list \<Rightarrow> int \<Rightarrow> AnimationInfo list" where
  "catalogue [] i = []"
| "catalogue (anim # rest) i =
     \<lparr> AnimationInfo.name = aiAnimation.mName anim, index = i,
       duration = mDuration anim,
       ticksPerSecond = (if mTicksPerSecond anim \<noteq> 0 then mTicksPerSecond anim
                         else DEFAULT_TICKS_PER_SECOND) \<rparr> # catalogue rest (i + 1)"

definition LoadAnimationList ::
  "(string \<Rightarrow> ('m, 'v, 'q) aiScene option) \<Rightarrow> AnimationLoader \<Rightarrow> AnimationLoader" where
  "LoadAnimationList ReadFile this =
     (case ReadFile (modelPath this) of
        None \<Rightarrow> this
      | Some scene \<Rightarrow>
          if \<not> HasAnimations scene then this
          else this\<lparr> animations := catalogue (mAnimations scene) 0 \<rparr>)"

definition new_AnimationLoader ::
  "(string \<Rightarrow> ('m, 'v, 'q) aiScene option) \<Rightarrow> string \<Rightarrow> AnimationLoader" where
  "new_AnimationLoader ReadFile path =
     LoadAnimationList ReadFile \<lparr> modelPath = path, animations = [] \<rparr>"

definition FindAnimationIndex :: "AnimationLoader \<Rightarrow> string \<Rightarrow> int" where
  "FindAnimationIndex this nm =
     (case find (\<lambda>info. AnimationInfo.name info = nm) (animations this) of
        Some info \<Rightarrow> index info
      | None \<Rightarrow> - 1)"

text \<open>
  \<^verbatim>\<open>LoadAnimation\<close> returns a \<^verbatim>\<open>unique_ptr\<close>: \<open>None\<close> is the null pointer, \<open>Some a\<close> owns the
  object \<open>a\<close>. \<open>fresh\<close> is the storage \<^verbatim>\<open>make_unique\<close> hands to the constructor. The
  \<^verbatim>\<open>catch\<close> clause is for exceptions; the constructor throws none of its own.
\<close>

definition LoadAnimation ::
  "('m, 'v, 'q) glm \<Rightarrow> (string \<Rightarrow> ('m, 'v, 'q) aiScene option) \<Rightarrow> ('m, 'v, 'q) Animation \<Rightarrow>
   AnimationLoader \<Rightarrow> 'm AnimatedModel \<Rightarrow> string \<Rightarrow>
   ('m, 'v, 'q) Animation option \<times> 'm AnimatedModel" where
  "LoadAnimation g ReadFile fresh this M nm =
     (let index = FindAnimationIndex this nm
      in if index = - 1 then (None, M)
         else (case new_Animation g ReadFile fresh (modelPath this) M index of
                 (a, M1) \<Rightarrow> (Some a, M1)))"


section \<open>Animator (animator.hpp, animator.cpp)\<close>

datatype AnimationLayer = LOCOMOTION | HEAD | TAIL

text \<open>
  The animator holds raw pointers to clips it does not own. A pointer is \<open>None\<close> (null)
  or \<open>Some p\<close> with \<open>p\<close> an address; two pointers are equal when their addresses are. The
  clips live in a store from addresses to objects, which the caller keeps alive.
\<close>

type_synonym addr = nat

type_synonym ('m, 'v, 'q) store = "addr \<Rightarrow> ('m, 'v, 'q) Animation"

record LayerInfo =
  animation :: "addr option"
  currentTime :: cfloat
  active :: bool
  looping :: bool

text \<open>The member initialisers of \<^verbatim>\<open>LayerInfo\<close>, the entry \<^verbatim>\<open>layers[layer]\<close> makes for a new key.\<close>

definition new_LayerInfo :: LayerInfo where
  "new_LayerInfo = \<lparr> animation = None, currentTime = 0, active = False, looping = True \<rparr>"

text \<open>
  \<^verbatim>\<open>boneOverrides\<close> and \<^verbatim>\<open>layers\<close> are \<^verbatim>\<open>std::map\<close>s. The first is only searched, assigned
  and erased, so it is a partial function. The second is also iterated; its keys are the
  three layers, visited in the order of the enumeration.
\<close>

record 'm Animator =
  finalBoneMatrices :: "'m list"
  boneOverrides :: "int \<Rightarrow> 'm option"
  layers :: "AnimationLayer \<Rightarrow> LayerInfo option"
  currentAnimation :: "addr option"
  currentTime :: cfloat
  deltaTime :: cfloat

type_synonym ('m, 'v, 'q) world = "'m Animator \<times> ('m, 'v, 'q) store"

definition layer_keys :: "AnimationLayer list" where
  "layer_keys = [LOCOMOTION, HEAD, TAIL]"

definition MAX_BONES :: int where
  "MAX_BONES = 100"

definition HEAD_BONE_FILTERS :: "string list" where
  "HEAD_BONE_FILTERS =
     [''DEF-head'', ''DEF-skull'', ''DEF-jaw'', ''DEF-nose'',
      ''DEF-ear'', ''DEF-neck'', ''DEF-Bone.001'', ''DEF-Bone.002'']"

definition TAIL_BONE_FILTERS :: "string list" where
  "TAIL_BONE_FILTERS = [''DEF-tail'']"

text \<open>
  \<^verbatim>\<open>v.resize(n, x)\<close> with \<open>n\<close> a C++ \<^verbatim>\<open>int\<close> that is not negative. (A negative \<open>n\<close>
  converts to a size no vector can have, and \<^verbatim>\<open>resize\<close> throws; no loaded clip has a
  negative bone count.)
\<close>

definition resize :: "'a list \<Rightarrow> int \<Rightarrow> 'a \<Rightarrow> 'a list" where
  "resize xs n x = take (nat n) xs @ replicate (nat n - length xs) x"

text \<open>\<^verbatim>\<open>s.find(f) != std::string::npos\<close>: \<open>f\<close> occurs in \<open>s\<close>.\<close>

fun str_find :: "string \<Rightarrow> string \<Rightarrow> bool" where
  "str_find [] f = (f = [])"
| "str_find (c # s) f = (take (length f) (c # s) = f \<or> str_find s f)"

text \<open>The constructor \<^verbatim>\<open>Animator::Animator(animation)\<close>; \<open>anim\<close> is its argument.\<close>

definition new_Animator ::
  "('m, 'v, 'q) glm \<Rightarrow> ('m, 'v, 'q) store \<Rightarrow> addr option \<Rightarrow> 'm Animator" where
  "new_Animator g h anim =
     (let boneCount = (case anim of Some p \<Rightarrow> GetBoneCount (h p) | None \<Rightarrow> MAX_BONES)
      in \<lparr> finalBoneMatrices = resize [] boneCount (mat4_1 g),
           boneOverrides = (\<lambda>i. None),
           layers = (\<lambda>l. None),
           currentAnimation = anim,
           currentTime = 0,
           deltaTime = 0 \<rparr>)"

definition IsHeadBone :: "string \<Rightarrow> bool" where
  "IsHeadBone boneName = list_ex (\<lambda>f. str_find boneName f) HEAD_BONE_FILTERS"

definition IsTailBone :: "string \<Rightarrow> bool" where
  "IsTailBone boneName = list_ex (\<lambda>f. str_find boneName f) TAIL_BONE_FILTERS"

definition GetBoneLayer :: "string \<Rightarrow> AnimationLayer" where
  "GetBoneLayer boneName =
     (if IsHeadBone boneName then HEAD
      else if IsTailBone boneName then TAIL
      else LOCOMOTION)"

definition PlayAnimation ::
  "('m, 'v, 'q) glm \<Rightarrow> ('m, 'v, 'q) store \<Rightarrow> 'm Animator \<Rightarrow> addr option \<Rightarrow> 'm Animator" where
  "PlayAnimation g h this anim =
     (if currentAnimation this \<noteq> anim
      then (let this1 = this\<lparr> currentAnimation := anim, currentTime := 0 \<rparr>
            in case anim of
                 None \<Rightarrow> this1
               | Some p \<Rightarrow>
                   this1\<lparr> finalBoneMatrices :=
                            resize (finalBoneMatrices this1) (GetBoneCount (h p)) (mat4_1 g) \<rparr>)
      else this)"

text \<open>\<^verbatim>\<open>layers[layer]\<close>: the entry of the key, made with the member initialisers when the
  key is new.\<close>

definition layer_entry :: "'m Animator \<Rightarrow> AnimationLayer \<Rightarrow> LayerInfo" where
  "layer_entry this layer = (case layers this layer of Some info \<Rightarrow> info | None \<Rightarrow> new_LayerInfo)"

text \<open>The overload \<^verbatim>\<open>PlayAnimationOnLayer(animation, layer)\<close>.\<close>

definition PlayAnimationOnLayer2 ::
  "'m Animator \<Rightarrow> addr option \<Rightarrow> AnimationLayer \<Rightarrow> 'm Animator" where
  "PlayAnimationOnLayer2 this anim layer =
     this\<lparr> layers := (layers this)
             (layer \<mapsto> (layer_entry this layer)
                \<lparr> animation := anim, LayerInfo.currentTime := 0, active := (anim \<noteq> None) \<rparr>) \<rparr>"

text \<open>The overload \<^verbatim>\<open>PlayAnimationOnLayer(animation, layer, looping)\<close>.\<close>

definition PlayAnimationOnLayer ::
  "'m Animator \<Rightarrow> addr option \<Rightarrow> AnimationLayer \<Rightarrow> bool \<Rightarrow> 'm Animator" where
  "PlayAnimationOnLayer this anim layer loop =
     this\<lparr> layers := (layers this)
             (layer \<mapsto> (layer_entry this layer)
                \<lparr> animation := anim, LayerInfo.currentTime := 0, active := (anim \<noteq> None),
                  looping := loop \<rparr>) \<rparr>"

definition StopLayer :: "'m Animator \<Rightarrow> AnimationLayer \<Rightarrow> 'm Animator" where
  "StopLayer this layer = PlayAnimationOnLayer2 this None layer"

definition GetFinalBoneMatrices :: "'m Animator \<Rightarrow> 'm list" where
  "GetFinalBoneMatrices this = finalBoneMatrices this"

definition SetBoneOverride :: "'m Animator \<Rightarrow> int \<Rightarrow> 'm \<Rightarrow> 'm Animator" where
  "SetBoneOverride this boneID overrideTransform =
     this\<lparr> boneOverrides := (boneOverrides this)(boneID \<mapsto> overrideTransform) \<rparr>"

definition ClearBoneOverride :: "'m Animator \<Rightarrow> int \<Rightarrow> 'm Animator" where
  "ClearBoneOverride this boneID = this\<lparr> boneOverrides := (boneOverrides this)(boneID := None) \<rparr>"

text \<open>
  The first lines of both hierarchy walks: the node's own matrix, replaced by the
  updated local transform of the clip's bone of that name when there is one.
  \<^verbatim>\<open>bone->Update\<close> writes into the clip, at address \<open>p\<close> of the store.
\<close>

definition node_local ::
  "('m, 'v, 'q) glm \<Rightarrow> ('m, 'v, 'q) store \<Rightarrow> addr \<Rightarrow> 'm AssimpNodeData \<Rightarrow> cfloat \<Rightarrow>
   error + ('m \<times> ('m, 'v, 'q) store)" where
  "node_local g h p node t =
     (case FindBone (h p) (AssimpNodeData.name node) of
        None \<Rightarrow> Inr (transformation node, h)
      | Some (k, bone) \<Rightarrow>
          (case Update g bone t of
             Inl e \<Rightarrow> Inl e
           | Inr bone1 \<Rightarrow>
               Inr (GetLocalTransform bone1,
                    h(p := (h p)\<lparr> bones := (bones (h p))[k := bone1] \<rparr>))))"

text \<open>
  \<^verbatim>\<open>CalculateBoneTransform\<close>, the walk of the primary clip. It writes into
  \<^verbatim>\<open>finalBoneMatrices\<close> and, through \<^verbatim>\<open>bone->Update\<close>, into the clip.
  \<open>CalculateBoneTransform_children\<close> is its loop
  \<^verbatim>\<open>for (int i = 0; i < node->childrenCount; i++)\<close>, entered at \<open>i\<close>.
\<close>

function CalculateBoneTransform ::
    "('m, 'v, 'q) glm \<Rightarrow> ('m, 'v, 'q) world \<Rightarrow> 'm AssimpNodeData \<Rightarrow> 'm \<Rightarrow>
     error + ('m, 'v, 'q) world"
  and CalculateBoneTransform_children ::
    "('m, 'v, 'q) glm \<Rightarrow> ('m, 'v, 'q) world \<Rightarrow> 'm AssimpNodeData \<Rightarrow> 'm \<Rightarrow> int \<Rightarrow>
     error + ('m, 'v, 'q) world"
where
  "CalculateBoneTransform g (this, h) node parentTransform =
     (case currentAnimation this of
        None \<Rightarrow> Inl NullPointer
      | Some p \<Rightarrow>
          (case node_local g h p node (Animator.currentTime this) of
             Inl e \<Rightarrow> Inl e
           | Inr (nodeTransform, h1) \<Rightarrow>
               (let it = map_of (GetBoneIDMap (h1 p)) (AssimpNodeData.name node);
                    nodeTransform1 =
                      (case it of
                         None \<Rightarrow> nodeTransform
                       | Some info \<Rightarrow>
                           if 0 \<le> id info \<and> id info < int (length (finalBoneMatrices this))
                           then (case boneOverrides this (id info) of
                                   None \<Rightarrow> nodeTransform
                                 | Some overrideTransform \<Rightarrow>
                                     mat_mul g overrideTransform nodeTransform)
                           else nodeTransform);
                    globalTransformation = mat_mul g parentTransform nodeTransform1;
                    this1 =
                      (case it of
                         None \<Rightarrow> this
                       | Some info \<Rightarrow>
                           if 0 \<le> id info \<and> id info < int (length (finalBoneMatrices this))
                           then this\<lparr> finalBoneMatrices :=
                                        (finalBoneMatrices this)
                                          [nat (id info) :=
                                             mat_mul g globalTransformation (offset info)] \<rparr>
                           else this)
                in CalculateBoneTransform_children g (this1, h1) node globalTransformation 0)))"
| "CalculateBoneTransform_children g w node globalTransformation i =
     (if i < childrenCount node
      then (case vec_at (children node) i of
              Inl e \<Rightarrow> Inl e
            | Inr child \<Rightarrow>
                (case CalculateBoneTransform g w child globalTransformation of
                   Inl e \<Rightarrow> Inl e
                 | Inr w1 \<Rightarrow>
                     CalculateBoneTransform_children g w1 node globalTransformation (i + 1)))
      else Inr w)"
  by pat_completeness auto
termination
proof (relation "measures
    [\<lambda>x. case x of Inl (g, w, node, P) \<Rightarrow> size node | Inr (g, w, node, P, i) \<Rightarrow> size node,
     \<lambda>x. case x of Inl _ \<Rightarrow> 1 | Inr _ \<Rightarrow> 0,
     \<lambda>x. case x of Inl _ \<Rightarrow> 0 | Inr (g, w, node, P, i) \<Rightarrow> nat (childrenCount node - i)]",
    goal_cases)
  case 1
  show ?case by simp
next
  case 2
  show ?case by simp
next
  case (3 g w node globalTransformation i child)
  then have "child \<in> set (children node)"
    by (auto simp: vec_at_def split: if_splits)
  then have "size child < size node"
    by (cases node) (auto simp: less_Suc_eq_le intro: size_list_estimation')
  then show ?case by simp
next
  case 4
  then show ?case by simp
qed

text \<open>
  \<^verbatim>\<open>CalculateLayerBoneTransform\<close>, the walk of a secondary layer's clip. It writes into
  \<open>layerMatrices\<close>, passed by reference, and into the clip.
\<close>

function CalculateLayerBoneTransform ::
    "('m, 'v, 'q) glm \<Rightarrow> 'm Animator \<Rightarrow> ('m, 'v, 'q) store \<Rightarrow> 'm AssimpNodeData \<Rightarrow> 'm \<Rightarrow>
     AnimationLayer \<Rightarrow> 'm list \<Rightarrow> error + ('m list \<times> ('m, 'v, 'q) store)"
  and CalculateLayerBoneTransform_children ::
    "('m, 'v, 'q) glm \<Rightarrow> 'm Animator \<Rightarrow> ('m, 'v, 'q) store \<Rightarrow> 'm AssimpNodeData \<Rightarrow> 'm \<Rightarrow>
     AnimationLayer \<Rightarrow> 'm list \<Rightarrow> int \<Rightarrow> error + ('m list \<times> ('m, 'v, 'q) store)"
where
  "CalculateLayerBoneTransform g this h node parentTransform layer layerMatrices =
     (let info = layer_entry this layer
      in case animation info of
           None \<Rightarrow> Inl NullPointer
         | Some p \<Rightarrow>
             (case node_local g h p node (LayerInfo.currentTime info) of
                Inl e \<Rightarrow> Inl e
              | Inr (nodeTransform, h1) \<Rightarrow>
                  (let globalTransformation = mat_mul g parentTransform nodeTransform;
                       it = map_of (GetBoneIDMap (h1 p)) (AssimpNodeData.name node);
                       layerMatrices1 =
                         (case it of
                            None \<Rightarrow> layerMatrices
                          | Some boneInfo \<Rightarrow>
                              if GetBoneLayer (AssimpNodeData.name node) = layer
                                 \<and> 0 \<le> id boneInfo \<and> id boneInfo < int (length layerMatrices)
                              then layerMatrices
                                     [nat (id boneInfo) :=
                                        mat_mul g globalTransformation (offset boneInfo)]
                              else layerMatrices)
                   in CalculateLayerBoneTransform_children g this h1 node globalTransformation
                        layer layerMatrices1 0)))"
| "CalculateLayerBoneTransform_children g this h node globalTransformation layer layerMatrices i =
     (if i < childrenCount node
      then (case vec_at (children node) i of
              Inl e \<Rightarrow> Inl e
            | Inr child \<Rightarrow>
                (case CalculateLayerBoneTransform g this h child globalTransformation layer
                        layerMatrices of
                   Inl e \<Rightarrow> Inl e
                 | Inr (layerMatrices1, h1) \<Rightarrow>
                     CalculateLayerBoneTransform_children g this h1 node globalTransformation
                       layer layerMatrices1 (i + 1)))
      else Inr (layerMatrices, h))"
  by pat_completeness auto
termination
proof (relation "measures
    [\<lambda>x. case x of Inl (g, this, h, node, r) \<Rightarrow> size node
                  | Inr (g, this, h, node, r) \<Rightarrow> size node,
     \<lambda>x. case x of Inl _ \<Rightarrow> 1 | Inr _ \<Rightarrow> 0,
     \<lambda>x. case x of Inl _ \<Rightarrow> 0
                  | Inr (g, this, h, node, P, layer, lm, i) \<Rightarrow> nat (childrenCount node - i)]",
    goal_cases)
  case 1
  show ?case by simp
next
  case 2
  show ?case by simp
next
  case (3 g this h node globalTransformation layer layerMatrices i child)
  then have "child \<in> set (children node)"
    by (auto simp: vec_at_def split: if_splits)
  then have "size child < size node"
    by (cases node) (auto simp: less_Suc_eq_le intro: size_list_estimation')
  then show ?case by simp
next
  case 4
  then show ?case by simp
qed

declare CalculateBoneTransform.simps [simp del]
declare CalculateBoneTransform_children.simps [simp del]
declare CalculateLayerBoneTransform.simps [simp del]
declare CalculateLayerBoneTransform_children.simps [simp del]

text \<open>
  \<^verbatim>\<open>UpdateAnimation\<close>, first loop over the layers (the body, then the loop): the clock of
  one layer advances; a layer that does not loop and has reached the clip's duration is
  switched off, a looping one wraps.
\<close>

definition tick_layer :: "('m, 'v, 'q) store \<Rightarrow> cfloat \<Rightarrow> LayerInfo \<Rightarrow> LayerInfo" where
  "tick_layer h dt info =
     (if active info
      then (case animation info of
              None \<Rightarrow> info
            | Some p \<Rightarrow>
                (let info1 = info\<lparr> LayerInfo.currentTime :=
                                      fadd (LayerInfo.currentTime info)
                                        (fmul (GetTicksPerSecond (h p)) dt) \<rparr>
                 in if \<not> looping info1 \<and> LayerInfo.currentTime info1 \<ge> GetDuration (h p)
                    then info1\<lparr> active := False, animation := None, LayerInfo.currentTime := 0 \<rparr>
                    else if looping info1
                    then info1\<lparr> LayerInfo.currentTime :=
                                   c_fmod (LayerInfo.currentTime info1) (GetDuration (h p)) \<rparr>
                    else info1))
      else info)"

fun tick_layers ::
  "('m, 'v, 'q) store \<Rightarrow> cfloat \<Rightarrow> AnimationLayer list \<Rightarrow>
   (AnimationLayer \<Rightarrow> LayerInfo option) \<Rightarrow> (AnimationLayer \<Rightarrow> LayerInfo option)" where
  "tick_layers h dt [] ls = ls"
| "tick_layers h dt (layer # rest) ls =
     tick_layers h dt rest
       (case ls layer of
          None \<Rightarrow> ls
        | Some info \<Rightarrow> ls(layer \<mapsto> tick_layer h dt info))"

text \<open>
  \<^verbatim>\<open>UpdateAnimation\<close> up to and including the walk of the primary clip (the counter
  \<^verbatim>\<open>frameCount\<close> is written and never read).
\<close>

definition UpdateAnimation_primary ::
  "('m, 'v, 'q) glm \<Rightarrow> ('m, 'v, 'q) world \<Rightarrow> cfloat \<Rightarrow> error + ('m, 'v, 'q) world" where
  "UpdateAnimation_primary g w dt =
     (case w of (this, h) \<Rightarrow>
        (let this1 = this\<lparr> deltaTime := dt \<rparr>;
             this2 =
               (case currentAnimation this1 of
                  None \<Rightarrow> this1
                | Some p \<Rightarrow>
                    this1\<lparr> currentTime :=
                             c_fmod
                               (fadd (currentTime this1) (fmul (GetTicksPerSecond (h p)) dt))
                               (GetDuration (h p)) \<rparr>);
             this3 = this2\<lparr> layers := tick_layers h dt layer_keys (layers this2) \<rparr>;
             this4 = this3\<lparr> finalBoneMatrices :=
                              replicate (length (finalBoneMatrices this3)) (mat4_1 g) \<rparr>
         in case currentAnimation this4 of
              None \<Rightarrow> Inr (this4, h)
            | Some p \<Rightarrow> CalculateBoneTransform g (this4, h) (GetRootNode (h p)) (mat4_1 g)))"

text \<open>
  The innermost loop of \<^verbatim>\<open>UpdateAnimation\<close>, over the entries of the layer clip's bone
  map: a bone of the layer takes its matrix from \<open>layerMatrices\<close>.
\<close>

fun apply_layer_bones ::
  "AnimationLayer \<Rightarrow> 'm list \<Rightarrow> (string, 'm BoneInfo) std_map \<Rightarrow> 'm list \<Rightarrow> error + 'm list" where
  "apply_layer_bones layer layerMatrices [] fbm = Inr fbm"
| "apply_layer_bones layer layerMatrices ((boneName, boneInfo) # rest) fbm =
     (if GetBoneLayer boneName = layer \<and> 0 \<le> id boneInfo \<and> id boneInfo < int (length fbm)
      then (case vec_at layerMatrices (id boneInfo) of
              Inl e \<Rightarrow> Inl e
            | Inr m \<Rightarrow> apply_layer_bones layer layerMatrices rest (fbm[nat (id boneInfo) := m]))
      else apply_layer_bones layer layerMatrices rest fbm)"

text \<open>The second loop over the layers, from the layers \<open>ks\<close> still to visit.\<close>

fun apply_layers ::
  "('m, 'v, 'q) glm \<Rightarrow> AnimationLayer list \<Rightarrow> ('m, 'v, 'q) world \<Rightarrow> error + ('m, 'v, 'q) world" where
  "apply_layers g [] w = Inr w"
| "apply_layers g (layer # rest) (this, h) =
     (case layers this layer of
        None \<Rightarrow> apply_layers g rest (this, h)
      | Some info \<Rightarrow>
          if active info
          then (case animation info of
                  None \<Rightarrow> apply_layers g rest (this, h)
                | Some p \<Rightarrow>
                    (let layerMatrices = replicate (length (finalBoneMatrices this)) (mat4_1 g)
                     in case CalculateLayerBoneTransform g this h (GetRootNode (h p)) (mat4_1 g)
                               layer layerMatrices of
                          Inl e \<Rightarrow> Inl e
                        | Inr (layerMatrices1, h1) \<Rightarrow>
                            (case apply_layer_bones layer layerMatrices1 (GetBoneIDMap (h1 p))
                                    (finalBoneMatrices this) of
                               Inl e \<Rightarrow> Inl e
                             | Inr fbm \<Rightarrow>
                                 apply_layers g rest (this\<lparr> finalBoneMatrices := fbm \<rparr>, h1))))
          else apply_layers g rest (this, h))"

definition UpdateAnimation ::
  "('m, 'v, 'q) glm \<Rightarrow> ('m, 'v, 'q) world \<Rightarrow> cfloat \<Rightarrow> error + ('m, 'v, 'q) world" where
  "UpdateAnimation g w dt =
     (case UpdateAnimation_primary g w dt of
        Inl e \<Rightarrow> Inl e
      | Inr w1 \<Rightarrow> apply_layers g layer_keys w1)"


section \<open>Vocabulary of the properties\<close>

text \<open>
  The ids of a bone table, in the order of its entries. The table is dense when its
  counter is not negative, its keys are in strictly increasing order (the invariant of
  a \<^verbatim>\<open>std::map\<close>), no id occurs twice, and the ids are exactly \<open>0, \<dots>, boneCounter - 1\<close>.
\<close>

definition ids :: "(string, 'm BoneInfo) std_map \<Rightarrow> int list" where
  "ids m = map (\<lambda>e. id (snd e)) m"

definition dense_ids :: "'m AnimatedModel \<Rightarrow> bool" where
  "dense_ids M \<longleftrightarrow>
     0 \<le> boneCounter M \<and> sorted_wrt (<) (map fst (AnimatedModel.boneInfoMap M)) \<and>
     distinct (ids (AnimatedModel.boneInfoMap M)) \<and>
     set (ids (AnimatedModel.boneInfoMap M)) = {0..<boneCounter M}"

text \<open>
  \<open>grows g M M'\<close>: from \<open>M\<close> to \<open>M'\<close> the counter does not fall, every entry of \<open>M\<close> is
  still there with the same id and offset, and every entry that is new has the identity
  offset and an id from the old counter up to, and below, the new one.
\<close>

definition grows :: "('m, 'v, 'q) glm \<Rightarrow> 'm AnimatedModel \<Rightarrow> 'm AnimatedModel \<Rightarrow> bool" where
  "grows g M M' \<longleftrightarrow>
     boneCounter M \<le> boneCounter M' \<and>
     (\<forall>nm info. map_of (AnimatedModel.boneInfoMap M) nm = Some info \<longrightarrow>
                map_of (AnimatedModel.boneInfoMap M') nm = Some info) \<and>
     (\<forall>nm info. map_of (AnimatedModel.boneInfoMap M) nm = None \<and>
                map_of (AnimatedModel.boneInfoMap M') nm = Some info \<longrightarrow>
                offset info = mat4_1 g \<and> boneCounter M \<le> id info \<and> id info < boneCounter M')"

text \<open>
  A sequence of clip loads against one model: each request is one call of the
  constructor, with the files as they are at that call, the storage it constructs in,
  the path and the index. The result is the clips in the order of loading and the model
  after the last load.
\<close>

type_synonym ('m, 'v, 'q) request =
  "(string \<Rightarrow> ('m, 'v, 'q) aiScene option) \<times> ('m, 'v, 'q) Animation \<times> string \<times> int"

fun load_clips ::
  "('m, 'v, 'q) glm \<Rightarrow> ('m, 'v, 'q) request list \<Rightarrow> 'm AnimatedModel \<Rightarrow>
   ('m, 'v, 'q) Animation list \<times> 'm AnimatedModel" where
  "load_clips g [] M = ([], M)"
| "load_clips g ((ReadFile, this, path, idx) # rest) M =
     (case new_Animation g ReadFile this path M idx of
        (a, M1) \<Rightarrow> (case load_clips g rest M1 of (clips, M2) \<Rightarrow> (a # clips, M2)))"

text \<open>
  What a tick may change in the store of clips: \<open>frame h h'\<close> holds when every clip of
  \<open>h'\<close> is the clip of \<open>h\<close> at the same address up to the \<open>localTransform\<close> of its bones,
  the only field that \<^verbatim>\<open>Bone::Update\<close> writes. \<open>frame_w\<close> is the same for an animator with
  its store: of the animator only the entries of \<open>finalBoneMatrices\<close> differ, not their
  number.
\<close>

definition same_keys :: "('m, 'v, 'q) Bone \<Rightarrow> ('m, 'v, 'q) Bone \<Rightarrow> bool" where
  "same_keys b b' \<longleftrightarrow> b'\<lparr> localTransform := localTransform b \<rparr> = b"

definition frame :: "('m, 'v, 'q) store \<Rightarrow> ('m, 'v, 'q) store \<Rightarrow> bool" where
  "frame h h' \<longleftrightarrow>
     (\<forall>p. (h' p)\<lparr> bones := bones (h p) \<rparr> = h p \<and>
          list_all2 same_keys (bones (h p)) (bones (h' p)))"

definition frame_w :: "('m, 'v, 'q) world \<Rightarrow> ('m, 'v, 'q) world \<Rightarrow> bool" where
  "frame_w w w' \<longleftrightarrow>
     frame (snd w) (snd w') \<and>
     fst w' = (fst w)\<lparr> finalBoneMatrices := finalBoneMatrices (fst w') \<rparr> \<and>
     length (finalBoneMatrices (fst w')) = length (finalBoneMatrices (fst w))"

text \<open>
  \<open>layer_claims layer m i\<close>: some entry of the bone table \<open>m\<close> has the id \<open>i\<close> and a name
  that \<^verbatim>\<open>GetBoneLayer\<close> puts into \<open>layer\<close>.
\<close>

definition layer_claims :: "AnimationLayer \<Rightarrow> (string, 'm BoneInfo) std_map \<Rightarrow> nat \<Rightarrow> bool" where
  "layer_claims layer m i \<longleftrightarrow> list_ex (\<lambda>e. id (snd e) = int i \<and> GetBoneLayer (fst e) = layer) m"

text \<open>
  The conditions under which a tick reads no array out of range. A channel with the
  key times \<open>ts\<close> and the stored count \<open>n\<close> can be sampled at the time \<open>t\<close> when the count
  is the number of keys and either there is one key or some key after the first is later
  than \<open>t\<close>; a bone when its three channels can; a node tree is well formed when every
  \<open>childrenCount\<close> is the number of children; a clip can be sampled at \<open>t\<close> when its tree is
  well formed and all its bones can be sampled. \<open>update_ok w dt\<close> asks this of the primary
  clip and of the clip of every active layer, at the times the tick \<open>dt\<close> gives them.
\<close>

definition channel_ok :: "cfloat list \<Rightarrow> int \<Rightarrow> cfloat \<Rightarrow> bool" where
  "channel_ok ts n t \<longleftrightarrow> n = int (length ts) \<and> ts \<noteq> [] \<and> (n = 1 \<or> (\<exists>s \<in> set (tl ts). t < s))"

definition bone_ok :: "('m, 'v, 'q) Bone \<Rightarrow> cfloat \<Rightarrow> bool" where
  "bone_ok b t \<longleftrightarrow>
     channel_ok (map KeyPosition.timeStamp (positions b)) (numPositions b) t \<and>
     channel_ok (map KeyRotation.timeStamp (rotations b)) (numRotations b) t \<and>
     channel_ok (map KeyScale.timeStamp (scales b)) (numScalings b) t"

fun tree_ok :: "'m AssimpNodeData \<Rightarrow> bool" where
  "tree_ok (AssimpNodeData tr nm cc cs) \<longleftrightarrow> cc = int (length cs) \<and> (\<forall>c \<in> set cs. tree_ok c)"

definition clip_ok :: "('m, 'v, 'q) Animation \<Rightarrow> cfloat \<Rightarrow> bool" where
  "clip_ok a t \<longleftrightarrow> tree_ok (rootNode a) \<and> (\<forall>b \<in> set (bones a). bone_ok b t)"

definition layer_ok :: "('m, 'v, 'q) store \<Rightarrow> LayerInfo \<Rightarrow> bool" where
  "layer_ok h info \<longleftrightarrow>
     (case animation info of
        None \<Rightarrow> True
      | Some p \<Rightarrow> active info \<longrightarrow> clip_ok (h p) (LayerInfo.currentTime info))"

definition update_ok :: "('m, 'v, 'q) world \<Rightarrow> cfloat \<Rightarrow> bool" where
  "update_ok w dt \<longleftrightarrow>
     (case w of (this, h) \<Rightarrow>
        (case currentAnimation this of
           None \<Rightarrow> True
         | Some p \<Rightarrow>
             clip_ok (h p)
               (c_fmod (fadd (Animator.currentTime this) (fmul (GetTicksPerSecond (h p)) dt))
                  (GetDuration (h p)))) \<and>
        (\<forall>l \<in> set layer_keys.
           case layers this l of
             None \<Rightarrow> True
           | Some info \<Rightarrow> layer_ok h (tick_layer h dt info)))"

text \<open>
  A sequence of ticks, one call of \<^verbatim>\<open>UpdateAnimation\<close> for each time step of the list.
\<close>

fun UpdateAnimation_seq ::
  "('m, 'v, 'q) glm \<Rightarrow> ('m, 'v, 'q) world \<Rightarrow> cfloat list \<Rightarrow> error + ('m, 'v, 'q) world" where
  "UpdateAnimation_seq g w [] = Inr w"
| "UpdateAnimation_seq g w (dt # dts) =
     (case UpdateAnimation g w dt of
        Inl e \<Rightarrow> Inl e
      | Inr w1 \<Rightarrow> UpdateAnimation_seq g w1 dts)"

text \<open>
  The clocks after one tick, as \<^verbatim>\<open>UpdateAnimation\<close> sets them before the walks, and the
  condition \<open>update_ok\<close> along a sequence of ticks.
\<close>

definition clocks_after ::
  "('m, 'v, 'q) store \<Rightarrow> cfloat \<Rightarrow> 'm Animator \<Rightarrow> 'm Animator" where
  "clocks_after h dt this =
     this\<lparr> currentTime :=
             (case currentAnimation this of
                None \<Rightarrow> Animator.currentTime this
              | Some p \<Rightarrow>
                  c_fmod (fadd (Animator.currentTime this) (fmul (GetTicksPerSecond (h p)) dt))
                    (GetDuration (h p))),
           layers := tick_layers h dt layer_keys (layers this) \<rparr>"

fun runs_ok :: "('m, 'v, 'q) store \<Rightarrow> 'm Animator \<Rightarrow> cfloat list \<Rightarrow> bool" where
  "runs_ok h this [] \<longleftrightarrow> True"
| "runs_ok h this (dt # dts) \<longleftrightarrow> update_ok (this, h) dt \<and> runs_ok h (clocks_after h dt this) dts"

text \<open>
  The time that a clock without wrap accumulates from \<open>t\<close> over the ticks \<open>dts\<close> at the
  rate \<open>tps\<close>, in the program's arithmetic: one rounded product and one rounded sum for
  each tick. \<open>ticks_finite\<close>: none of these products and sums overflows.
\<close>

fun accumulate :: "cfloat \<Rightarrow> cfloat \<Rightarrow> cfloat list \<Rightarrow> cfloat" where
  "accumulate tps t [] = t"
| "accumulate tps t (dt # dts) = accumulate tps (fadd t (fmul tps dt)) dts"

fun ticks_finite :: "cfloat \<Rightarrow> cfloat \<Rightarrow> cfloat list \<Rightarrow> bool" where
  "ticks_finite tps t [] \<longleftrightarrow> True"
| "ticks_finite tps t (dt # dts) \<longleftrightarrow>
     isfinite (fmul tps dt) \<and> isfinite (fadd t (fmul tps dt)) \<and>
     ticks_finite tps (fadd t (fmul tps dt)) dts"

text \<open>
  The names of the nodes of a tree. A bone id is resolved by a tree, for a bone table \<open>m\<close>
  and \<open>n\<close> final matrices, when some node's name is in the table with this id and the id
  is in the range of the matrices. \<open>with_overrides ov r\<close> is the result \<open>r\<close> of a walk or
  tick with the override map of its animator replaced by \<open>ov\<close>, and \<open>agree ov w node\<close>
  says that \<open>ov\<close> and the override map of \<open>w\<close> are the same at every id that the tree
  \<open>node\<close> resolves.
\<close>

fun names_of :: "'m AssimpNodeData \<Rightarrow> string list" where
  "names_of (AssimpNodeData tr nm cc cs) = nm # concat (map names_of cs)"

definition resolved ::
  "(string, 'm BoneInfo) std_map \<Rightarrow> nat \<Rightarrow> 'm AssimpNodeData \<Rightarrow> int \<Rightarrow> bool" where
  "resolved m n node boneID \<longleftrightarrow>
     list_ex (\<lambda>nm. case map_of m nm of
                     None \<Rightarrow> False
                   | Some info \<Rightarrow> id info = boneID \<and> 0 \<le> boneID \<and> boneID < int n)
       (names_of node)"

definition with_overrides ::
  "(int \<Rightarrow> 'm option) \<Rightarrow> error + ('m, 'v, 'q) world \<Rightarrow> error + ('m, 'v, 'q) world" where
  "with_overrides ov r =
     (case r of Inl e \<Rightarrow> Inl e | Inr (this, h) \<Rightarrow> Inr (this\<lparr> boneOverrides := ov \<rparr>, h))"

definition agree :: "(int \<Rightarrow> 'm option) \<Rightarrow> ('m, 'v, 'q) world \<Rightarrow> 'm AssimpNodeData \<Rightarrow> bool" where
  "agree ov w node \<longleftrightarrow>
     (\<forall>p. currentAnimation (fst w) = Some p \<longrightarrow>
        (\<forall>i. resolved (GetBoneIDMap (snd w p)) (length (finalBoneMatrices (fst w))) node i \<longrightarrow>
             ov i = boneOverrides (fst w) i))"


section \<open>Concrete inputs\<close>

text \<open>
  To run the embedding on concrete clips, glm in one dimension: a matrix \<open>(a, b)\<close> is the
  affine map \<open>x \<mapsto> a * x + b\<close> of the line, a vector is a number, and a rotation of the line
  is a sign.
\<close>

definition glm1 :: "(real \<times> real, real, real) glm" where
  "glm1 =
     \<lparr> mat4_1 = (1, 0),
       mat_mul = (\<lambda>(a, b) (c, d). (a * c, a * d + b)),
       translate = (\<lambda>(a, b) v. (a, a * v + b)),
       scale = (\<lambda>(a, b) v. (a * v, b)),
       mat4_cast = (\<lambda>q. (q, 0)),
       normalize = (\<lambda>q. if q < 0 then - 1 else 1),
       slerp = (\<lambda>x y f. x * (1 - f) + y * f),
       mix = (\<lambda>x y f. x * (1 - f) + y * f) \<rparr>"

text \<open>A channel with position keys at the times 0 and 10 and one rotation and one scaling key.\<close>

definition spine_channel :: "(real, real) aiNodeAnim" where
  "spine_channel =
     \<lparr> mNodeName = ''DEF-spine'',
       mPositionKeys = [\<lparr> mTime = 0, mValue = 0 \<rparr>, \<lparr> mTime = 10, mValue = 4 \<rparr>],
       mRotationKeys = [\<lparr> mTime = 0, mValue = 1 \<rparr>],
       mScalingKeys = [\<lparr> mTime = 0, mValue = 1 \<rparr>] \<rparr>"

text \<open>A channel with one key of each kind.\<close>

definition head_channel :: "(real, real) aiNodeAnim" where
  "head_channel =
     \<lparr> mNodeName = ''DEF-head'',
       mPositionKeys = [\<lparr> mTime = 0, mValue = 3 \<rparr>],
       mRotationKeys = [\<lparr> mTime = 0, mValue = 2 \<rparr>],
       mScalingKeys = [\<lparr> mTime = 0, mValue = 5 \<rparr>] \<rparr>"

text \<open>
  A scene of one skeleton (Armature, spine, head and tail) with two animations, and the
  model whose meshes carry the spine, head and tail bones (the mesh bone \<open>Armature\<close> is
  not among the allowed bones). The channel \<open>IK-target\<close> of the first animation has no
  mesh bone.
\<close>

definition key1 :: "real \<Rightarrow> real aiKey list" where
  "key1 v = [\<lparr> mTime = 0, mValue = v \<rparr>]"

definition walk_anim :: "(real, real) aiAnimation" where
  "walk_anim =
     \<lparr> mName = ''Walk'', mDuration = 40, mTicksPerSecond = 25,
       mChannels =
         [\<lparr> mNodeName = ''DEF-spine'',
            mPositionKeys = [\<lparr> mTime = 0, mValue = 0 \<rparr>, \<lparr> mTime = 40, mValue = 8 \<rparr>],
            mRotationKeys = key1 1, mScalingKeys = key1 1 \<rparr>,
          \<lparr> mNodeName = ''DEF-head'',
            mPositionKeys = key1 1, mRotationKeys = key1 1, mScalingKeys = key1 1 \<rparr>,
          \<lparr> mNodeName = ''IK-target'',
            mPositionKeys = key1 0, mRotationKeys = key1 1, mScalingKeys = key1 1 \<rparr>] \<rparr>"

definition look_anim :: "(real, real) aiAnimation" where
  "look_anim =
     \<lparr> mName = ''LookUp'', mDuration = 10, mTicksPerSecond = 0,
       mChannels =
         [\<lparr> mNodeName = ''DEF-head'',
            mPositionKeys = key1 5, mRotationKeys = key1 1, mScalingKeys = key1 2 \<rparr>] \<rparr>"

definition cow_scene :: "(real \<times> real, real, real) aiScene" where
  "cow_scene =
     \<lparr> mAnimations = [walk_anim, look_anim],
       mRootNode =
         aiNode ''Armature'' (1, 0)
           [aiNode ''DEF-spine'' (1, 2)
              [aiNode ''DEF-head'' (1, 1) [], aiNode ''DEF-tail'' (1, - 1) []]] \<rparr>"

definition cow_model :: "(real \<times> real) AnimatedModel" where
  "cow_model =
     ExtractBoneWeightForVertices
       [(''DEF-spine'', (1, - 2)), (''Armature'', (1, 0)), (''DEF-head'', (1, - 3)),
        (''DEF-tail'', (1, - 1))] new_AnimatedModel"

text \<open>Storage for a new clip: empty containers, arbitrary numbers.\<close>

definition fresh :: "(real \<times> real, real, real) Animation" where
  "fresh =
     \<lparr> Animation.duration = - 1, ticksPerSecond = 12345, boneCount = - 7, name = [], bones = [],
       rootNode = AssimpNodeData (0, 0) [] 99 [], boneInfoMap = [] \<rparr>"

text \<open>The two clips as the constructor builds them, first \<open>Walk\<close>, then \<open>LookUp\<close>.\<close>

definition walk_clip :: "(real \<times> real, real, real) Animation" where
  "walk_clip =
     \<lparr> Animation.duration = 40, ticksPerSecond = 25, boneCount = 4, name = ''Walk'',
       bones =
         [\<lparr> Bone.name = ''DEF-spine'', ID = 0, localTransform = (1, 0),
            positions = [\<lparr> position = 0, timeStamp = 0 \<rparr>, \<lparr> position = 8, timeStamp = 40 \<rparr>],
            rotations = [\<lparr> orientation = 1, timeStamp = 0 \<rparr>],
            scales = [\<lparr> KeyScale.scale = 1, timeStamp = 0 \<rparr>],
            numPositions = 2, numRotations = 1, numScalings = 1 \<rparr>,
          \<lparr> Bone.name = ''DEF-head'', ID = 1, localTransform = (1, 0),
            positions = [\<lparr> position = 1, timeStamp = 0 \<rparr>],
            rotations = [\<lparr> orientation = 1, timeStamp = 0 \<rparr>],
            scales = [\<lparr> KeyScale.scale = 1, timeStamp = 0 \<rparr>],
            numPositions = 1, numRotations = 1, numScalings = 1 \<rparr>,
          \<lparr> Bone.name = ''IK-target'', ID = 3, localTransform = (1, 0),
            positions = [\<lparr> position = 0, timeStamp = 0 \<rparr>],
            rotations = [\<lparr> orientation = 1, timeStamp = 0 \<rparr>],
            scales = [\<lparr> KeyScale.scale = 1, timeStamp = 0 \<rparr>],
            numPositions = 1, numRotations = 1, numScalings = 1 \<rparr>],
       rootNode =
         AssimpNodeData (1, 0) ''Armature'' 1
           [AssimpNodeData (1, 2) ''DEF-spine'' 2
              [AssimpNodeData (1, 1) ''DEF-head'' 0 [],
               AssimpNodeData (1, - 1) ''DEF-tail'' 0 []]],
       boneInfoMap =
         [(''DEF-head'', \<lparr> id = 1, offset = (1, - 3) \<rparr>),
          (''DEF-spine'', \<lparr> id = 0, offset = (1, - 2) \<rparr>),
          (''DEF-tail'', \<lparr> id = 2, offset = (1, - 1) \<rparr>),
          (''IK-target'', \<lparr> id = 3, offset = (1, 0) \<rparr>)] \<rparr>"

definition cow_model1 :: "(real \<times> real) AnimatedModel" where
  "cow_model1 = \<lparr> boneCounter = 4, boneInfoMap = Animation.boneInfoMap walk_clip \<rparr>"

definition look_clip :: "(real \<times> real, real, real) Animation" where
  "look_clip =
     \<lparr> Animation.duration = 10, ticksPerSecond = 25, boneCount = 4, name = ''LookUp'',
       bones =
         [\<lparr> Bone.name = ''DEF-head'', ID = 1, localTransform = (1, 0),
            positions = [\<lparr> position = 5, timeStamp = 0 \<rparr>],
            rotations = [\<lparr> orientation = 1, timeStamp = 0 \<rparr>],
            scales = [\<lparr> KeyScale.scale = 2, timeStamp = 0 \<rparr>],
            numPositions = 1, numRotations = 1, numScalings = 1 \<rparr>],
       rootNode = rootNode walk_clip,
       boneInfoMap = Animation.boneInfoMap walk_clip \<rparr>"

definition cow_requests :: "(real \<times> real, real, real) request list" where
  "cow_requests =
     [(\<lambda>path. Some cow_scene, fresh, ''cow.gltf'', 0),
      (\<lambda>path. Some cow_scene, fresh, ''cow.gltf'', 1)]"

definition cow_loader :: AnimationLoader where
  "cow_loader = new_AnimationLoader (\<lambda>path. Some cow_scene) ''cow.gltf''"

text \<open>
  A store with the clip \<open>Walk\<close> at address 1 and the clip \<open>LookUp\<close> elsewhere, and an
  animator that has played \<open>Walk\<close> up to the time 20.
\<close>

definition cow_clips :: "(real \<times> real, real, real) store" where
  "cow_clips = (\<lambda>p. if p = 1 then walk_clip else look_clip)"

definition cow_animator :: "(real \<times> real) Animator" where
  "cow_animator = (new_Animator glm1 cow_clips (Some 1))\<lparr> currentTime := 20 \<rparr>"

text \<open>An animator made without a clip.\<close>

definition bare_animator :: "(real \<times> real) Animator" where
  "bare_animator = new_Animator glm1 cow_clips None"

text \<open>
  An animator as constructed for the clip \<open>Walk\<close>, the same animator after \<open>LookUp\<close> was
  started on the head layer, once and looping, and the node of the tail alone.
\<close>

definition start_animator :: "(real \<times> real) Animator" where
  "start_animator = new_Animator glm1 cow_clips (Some 1)"

definition head_animator :: "(real \<times> real) Animator" where
  "head_animator = PlayAnimationOnLayer start_animator (Some 2) HEAD False"

definition loop_animator :: "(real \<times> real) Animator" where
  "loop_animator = PlayAnimationOnLayer start_animator (Some 2) HEAD True"

definition tail_node :: "(real \<times> real) AssimpNodeData" where
  "tail_node = AssimpNodeData (1, - 1) ''DEF-tail'' 0 []"

text \<open>
  The \<^verbatim>\<open>float\<close> literals \<^verbatim>\<open>0.8f\<close>, \<^verbatim>\<open>0.08f\<close> and \<^verbatim>\<open>0.3f\<close>: the numbers 0.8, 0.08 and 0.3
  are no floats.
\<close>

definition f08 :: cfloat where
  "f08 = round32 (4 / 5)"

definition f008 :: cfloat where
  "f008 = round32 (2 / 25)"

definition f03 :: cfloat where
  "f03 = round32 (3 / 10)"


section \<open>Keyframe interpolation\<close>

text \<open>When the loop finds no key after \<open>t\<close> it returns the last index, \<open>n - 1\<close>.\<close>

lemma GetIndex_loop_past_end:
  assumes "n = int (length ts)" "0 \<le> i"
    and "\<forall>j. i < j \<and> j < n \<longrightarrow> \<not> t < ts ! nat j"
  shows "GetIndex_loop ts n t i = Inr (n - 1)"
  using assms
proof (induction ts n t i rule: GetIndex_loop.induct)
  case (1 ts n t i)
  show ?case
  proof (cases "i < n - 1")
    case True
    then have rd: "vec_at ts (i + 1) = Inr (ts ! nat (i + 1))"
      using "1.prems" by (simp add: vec_at_def)
    have nlt: "\<not> t < ts ! nat (i + 1)"
      using "1.prems" True by simp
    have "GetIndex_loop ts n t (i + 1) = Inr (n - 1)"
      using "1.IH"[OF True rd nlt] "1.prems" by simp
    then show ?thesis
      using True rd nlt by (subst GetIndex_loop.simps) simp
  next
    case False
    then show ?thesis by (subst GetIndex_loop.simps) simp
  qed
qed

text \<open>When some later key lies after \<open>t\<close>, the loop returns an index below \<open>n - 1\<close>.\<close>

lemma GetIndex_loop_found:
  assumes "n = int (length ts)" "0 \<le> i"
    and "\<exists>j. i < j \<and> j < n \<and> t < ts ! nat j"
  shows "\<exists>k. GetIndex_loop ts n t i = Inr k \<and> i \<le> k \<and> k < n - 1"
  using assms
proof (induction ts n t i rule: GetIndex_loop.induct)
  case (1 ts n t i)
  from "1.prems" obtain j where j: "i < j" "j < n" "t < ts ! nat j" by blast
  then have lt: "i < n - 1" by simp
  then have rd: "vec_at ts (i + 1) = Inr (ts ! nat (i + 1))"
    using "1.prems" by (simp add: vec_at_def)
  show ?case
  proof (cases "t < ts ! nat (i + 1)")
    case True
    then show ?thesis using lt rd by (subst GetIndex_loop.simps) simp
  next
    case False
    then have "j \<noteq> i + 1" using j by auto
    then have "\<exists>j. i + 1 < j \<and> j < n \<and> t < ts ! nat j"
      using j by (intro exI[of _ j]) simp
    from "1.IH"[OF lt rd False "1.prems"(1) _ this] "1.prems"(2)
    obtain k where "GetIndex_loop ts n t (i + 1) = Inr k" "i + 1 \<le> k" "k < n - 1" by auto
    then show ?thesis using lt rd False by (subst GetIndex_loop.simps) simp
  qed
qed

text \<open>
  The general form of the failure behind claim C1: a position channel of two or more
  keys, queried at a time that no key after the first exceeds, is read at the index
  \<open>n\<close>, one past its last key.
\<close>

lemma InterpolatePosition_past_end:
  assumes "numPositions b = int (length (positions b))" "2 \<le> length (positions b)"
    and "\<forall>k \<in> set (positions b). KeyPosition.timeStamp k \<le> t"
  shows "GetPositionIndex b t = Inr (numPositions b - 1)"
    and "InterpolatePosition g b t = Inl OutOfBounds"
proof -
  have "\<forall>j. 0 < j \<and> j < numPositions b \<longrightarrow>
          \<not> t < map KeyPosition.timeStamp (positions b) ! nat j"
    using assms(1,3) by (auto simp: not_less)
  then show idx: "GetPositionIndex b t = Inr (numPositions b - 1)"
    unfolding GetPositionIndex_def using assms(1)
    by (intro GetIndex_loop_past_end) auto
  show "InterpolatePosition g b t = Inl OutOfBounds"
    using assms(1,2) by (simp add: InterpolatePosition_def idx vec_at_def)
qed

text \<open>
  Claim C1. The claim says that for a query time at or after the last time stamp the
  pair \<open>(n - 2, n - 1)\<close> brackets the query and that every index read is below \<open>n\<close>. On
  the bone loaded from a channel with position keys at the times 0 and 10, queried at
  \<open>t = 10\<close>, \<^verbatim>\<open>GetPositionIndex\<close> returns \<open>1 = n - 1\<close>, and \<^verbatim>\<open>InterpolatePosition\<close> reads
  \<^verbatim>\<open>positions[2]\<close>, outside the vector.
\<close>

theorem C1_last_pair_read_out_of_range:
  "GetPositionIndex (new_Bone glm1 ''DEF-spine'' 0 spine_channel) 10 = Inr 1 \<and>
   numPositions (new_Bone glm1 ''DEF-spine'' 0 spine_channel) = 2 \<and>
   vec_at (positions (new_Bone glm1 ''DEF-spine'' 0 spine_channel)) (1 + 1) = Inl OutOfBounds \<and>
   InterpolatePosition glm1 (new_Bone glm1 ''DEF-spine'' 0 spine_channel) 10 = Inl OutOfBounds \<and>
   Update glm1 (new_Bone glm1 ''DEF-spine'' 0 spine_channel) 10 = Inl OutOfBounds"
  by (simp add: Update_def InterpolatePosition_def GetPositionIndex_def new_Bone_def
      spine_channel_def GetIndex_loop.simps vec_at_def)

text \<open>
  Claim C9. A channel whose vector holds exactly one key yields the transform of that
  key at every query time \<open>t\<close>: the translation by its position, the rotation matrix of
  its (normalised) orientation, the scaling by its scale.
\<close>

theorem C9_single_sample:
  "(numPositions b = 1 \<and> positions b = [kp] \<longrightarrow>
      InterpolatePosition g b t = Inr (translate g (mat4_1 g) (position kp))) \<and>
   (numRotations b = 1 \<and> rotations b = [kr] \<longrightarrow>
      InterpolateRotation g b t = Inr (mat4_cast g (normalize g (orientation kr)))) \<and>
   (numScalings b = 1 \<and> scales b = [ks] \<longrightarrow>
      InterpolateScaling g b t = Inr (glm.scale g (mat4_1 g) (KeyScale.scale ks)))"
  by (simp add: InterpolatePosition_def InterpolateRotation_def InterpolateScaling_def vec_at_def)

theorem C9_single_sample_witness:
  "(numPositions (new_Bone glm1 ''DEF-head'' 7 head_channel) = 1 \<and>
    positions (new_Bone glm1 ''DEF-head'' 7 head_channel) = [\<lparr> position = 3, timeStamp = 0 \<rparr>] \<and>
    InterpolatePosition glm1 (new_Bone glm1 ''DEF-head'' 7 head_channel) (- 1000000) = Inr (1, 3)) \<and>
   (numRotations (new_Bone glm1 ''DEF-head'' 7 head_channel) = 1 \<and>
    rotations (new_Bone glm1 ''DEF-head'' 7 head_channel) = [\<lparr> orientation = 2, timeStamp = 0 \<rparr>] \<and>
    InterpolateRotation glm1 (new_Bone glm1 ''DEF-head'' 7 head_channel) (- 1000000) = Inr (1, 0)) \<and>
   (numScalings (new_Bone glm1 ''DEF-head'' 7 head_channel) = 1 \<and>
    scales (new_Bone glm1 ''DEF-head'' 7 head_channel) = [\<lparr> KeyScale.scale = 5, timeStamp = 0 \<rparr>] \<and>
    InterpolateScaling glm1 (new_Bone glm1 ''DEF-head'' 7 head_channel) (- 1000000) = Inr (5, 0))"
  using C9_single_sample [of "new_Bone glm1 ''DEF-head'' 7 head_channel"
      "\<lparr> position = 3, timeStamp = 0 \<rparr>" glm1 "- 1000000"
      "\<lparr> orientation = 2, timeStamp = 0 \<rparr>" "\<lparr> KeyScale.scale = 5, timeStamp = 0 \<rparr>"]
  by (simp add: new_Bone_def head_channel_def glm1_def)


section \<open>The bone table across clip loads\<close>

text \<open>An assignment through \<^verbatim>\<open>operator[]\<close> is the update of the map.\<close>

lemma map_of_map_put: "map_of (map_put k v m) = (map_of m)(k \<mapsto> v)"
  by (induction m) (auto simp: fun_upd_twist)

lemma set_map_put_fresh:
  "k \<notin> fst ` set m \<Longrightarrow> set (map_put k v m) = insert (k, v) (set m)"
  by (induction m) (auto split: if_splits)

lemma set_map_put_absent:
  "map_of m k = None \<Longrightarrow> set (map_put k v m) = insert (k, v) (set m)"
  by (simp add: set_map_put_fresh map_of_eq_None_iff)

lemma keys_map_put: "fst ` set (map_put k v m) = insert k (fst ` set m)"
proof (induction m)
  case Nil
  show ?case by simp
next
  case (Cons e m)
  obtain k' v' where e: "e = (k', v')" by (cases e)
  show ?case using Cons
    by (cases "k < k'"; cases "k = k'") (simp_all add: e insert_commute)
qed

lemma sorted_map_put:
  "sorted_wrt (<) (map fst m) \<Longrightarrow> sorted_wrt (<) (map fst (map_put k v m))"
proof (induction m)
  case Nil
  then show ?case by simp
next
  case (Cons e m)
  obtain k' v' where e: "e = (k', v')" by (cases e)
  have "\<forall>x \<in> fst ` set (map_put k v m). k' < x" if "k' < k"
    using Cons.prems that unfolding keys_map_put e by auto
  then show ?case using Cons e by (cases "k < k'"; cases "k = k'") auto
qed

lemma ids_map_put_absent:
  "map_of m k = None \<Longrightarrow> set (ids (map_put k v m)) = insert (id v) (set (ids m))"
  by (simp add: ids_def set_map_put_absent)

lemma distinct_ids_map_put:
  "map_of m k = None \<Longrightarrow> id v \<notin> set (ids m) \<Longrightarrow> distinct (ids m) \<Longrightarrow> distinct (ids (map_put k v m))"
proof (induction m)
  case Nil
  then show ?case by (simp add: ids_def)
next
  case (Cons e m)
  obtain k' v' where e: "e = (k', v')" by (cases e)
  from Cons.prems e have abs: "map_of m k = None" and ne: "k \<noteq> k'" by (auto split: if_splits)
  have "set (ids (map_put k v m)) = insert (id v) (set (ids m))"
    using abs by (rule ids_map_put_absent)
  then show ?case using Cons e abs ne by (auto simp: ids_def)
qed

text \<open>Inserting an absent name under the counter keeps the table dense.\<close>

lemma dense_insert:
  assumes "dense_ids M" "map_of (AnimatedModel.boneInfoMap M) k = None"
  shows "dense_ids \<lparr> boneCounter = boneCounter M + 1,
            boneInfoMap = map_put k \<lparr> id = boneCounter M, offset = x \<rparr> (AnimatedModel.boneInfoMap M) \<rparr>"
proof -
  let ?v = "\<lparr> id = boneCounter M, offset = x \<rparr>"
  have c: "0 \<le> boneCounter M" and s: "set (ids (AnimatedModel.boneInfoMap M)) = {0..<boneCounter M}"
    using assms(1) by (auto simp: dense_ids_def)
  have "id ?v \<notin> set (ids (AnimatedModel.boneInfoMap M))" using s by simp
  then have d: "distinct (ids (map_put k ?v (AnimatedModel.boneInfoMap M)))"
    using assms by (intro distinct_ids_map_put) (auto simp: dense_ids_def)
  have "set (ids (map_put k ?v (AnimatedModel.boneInfoMap M))) = {0..<boneCounter M + 1}"
    using c s assms(2) by (auto simp: ids_map_put_absent)
  then show ?thesis using assms(1) c d by (simp add: dense_ids_def sorted_map_put)
qed

text \<open>
  The table of a new model is dense, and the mesh loader keeps it dense: every table a
  clip load can meet is.
\<close>

lemma dense_new: "dense_ids new_AnimatedModel"
  by (simp add: dense_ids_def new_AnimatedModel_def ids_def)

lemma dense_Extract: "dense_ids M \<Longrightarrow> dense_ids (ExtractBoneWeightForVertices bs M)"
proof (induction bs M rule: ExtractBoneWeightForVertices.induct)
  case (1 M)
  then show ?case by simp
next
  case (2 boneName mOffsetMatrix rest M)
  then show ?case by (auto simp: dense_insert)
qed

text \<open>The loop of \<^verbatim>\<open>ReadMissingBones\<close>.\<close>

lemma loop_props:
  "dense_ids M \<Longrightarrow> ReadMissingBones_loop g chs bs M = (bs', M') \<Longrightarrow>
     dense_ids M' \<and> boneCounter M \<le> boneCounter M' \<and>
     (\<forall>nm info. map_of (AnimatedModel.boneInfoMap M) nm = Some info \<longrightarrow>
                map_of (AnimatedModel.boneInfoMap M') nm = Some info) \<and>
     (\<forall>nm info. map_of (AnimatedModel.boneInfoMap M) nm = None \<longrightarrow>
                map_of (AnimatedModel.boneInfoMap M') nm = Some info \<longrightarrow>
                offset info = mat4_1 g \<and> boneCounter M \<le> id info \<and> id info < boneCounter M' \<and>
                nm \<in> mNodeName ` set chs) \<and>
     (\<forall>ch \<in> set chs. map_of (AnimatedModel.boneInfoMap M') (mNodeName ch) \<noteq> None)"
proof (induction chs arbitrary: bs M)
  case Nil
  then show ?case by simp
next
  case (Cons ch chs)
  define M1 where "M1 = (if map_of (AnimatedModel.boneInfoMap M) (mNodeName ch) = None
                then \<lparr> boneCounter = boneCounter M + 1,
                       boneInfoMap = map_put (mNodeName ch) \<lparr> id = boneCounter M, offset = mat4_1 g \<rparr>
                                       (AnimatedModel.boneInfoMap M) \<rparr>
                else M)"
  have d1: "dense_ids M1" using Cons.prems(1) by (simp add: M1_def dense_insert)
  from Cons.prems(2) obtain b where
    rec: "ReadMissingBones_loop g chs (bs @ [b]) M1 = (bs', M')"
    by (simp add: Let_def M1_def)
  note IH = Cons.IH[OF d1 rec]
  have le1: "boneCounter M \<le> boneCounter M1" by (simp add: M1_def)
  have mono1: "map_of (AnimatedModel.boneInfoMap M) nm = Some info \<Longrightarrow>
               map_of (AnimatedModel.boneInfoMap M1) nm = Some info" for nm info
    by (auto simp: map_of_map_put M1_def)
  have in1: "map_of (AnimatedModel.boneInfoMap M1) (mNodeName ch) \<noteq> None"
    by (auto simp: map_of_map_put M1_def)
  have new1: "map_of (AnimatedModel.boneInfoMap M) nm = None \<Longrightarrow>
              map_of (AnimatedModel.boneInfoMap M1) nm = Some info \<Longrightarrow>
              info = \<lparr> id = boneCounter M, offset = mat4_1 g \<rparr> \<and> nm = mNodeName ch \<and>
              boneCounter M < boneCounter M1" for nm info
    by (auto simp: map_of_map_put M1_def split: if_splits)
  show ?case
  proof (intro conjI allI impI ballI)
    show "dense_ids M'" using IH by blast
    show "boneCounter M \<le> boneCounter M'" using IH le1 by linarith
  next
    fix nm info assume "map_of (AnimatedModel.boneInfoMap M) nm = Some info"
    then show "map_of (AnimatedModel.boneInfoMap M') nm = Some info"
      using IH mono1 by blast
  next
    fix nm info
    assume a: "map_of (AnimatedModel.boneInfoMap M) nm = None"
      and b: "map_of (AnimatedModel.boneInfoMap M') nm = Some info"
    have "offset info = mat4_1 g \<and> boneCounter M \<le> id info \<and> id info < boneCounter M' \<and>
          nm \<in> mNodeName ` set (ch # chs)"
    proof (cases "map_of (AnimatedModel.boneInfoMap M1) nm")
      case None
      have "offset info = mat4_1 g \<and> boneCounter M1 \<le> id info \<and> id info < boneCounter M' \<and>
                nm \<in> mNodeName ` set chs" using IH None b by blast
      then show ?thesis using le1 by auto
    next
      case (Some info1)
      from new1[OF a Some] have i1: "info1 = \<lparr> id = boneCounter M, offset = mat4_1 g \<rparr>"
        "nm = mNodeName ch" "boneCounter M < boneCounter M1"
        by auto
      have "map_of (AnimatedModel.boneInfoMap M') nm = Some info1" using IH Some by blast
      with b have "info = info1" by simp
      moreover have "boneCounter M1 \<le> boneCounter M'" using IH by blast
      ultimately show ?thesis using i1 by auto
    qed
    then show "offset info = mat4_1 g" "boneCounter M \<le> id info" "id info < boneCounter M'"
      "nm \<in> mNodeName ` set (ch # chs)" by auto
  next
    fix c assume "c \<in> set (ch # chs)"
    then have "c = ch \<or> c \<in> set chs" by auto
    then show "map_of (AnimatedModel.boneInfoMap M') (mNodeName c) \<noteq> None"
    proof
      assume "c = ch"
      then obtain i where "map_of (AnimatedModel.boneInfoMap M1) (mNodeName c) = Some i"
        using in1 by auto
      then have "map_of (AnimatedModel.boneInfoMap M') (mNodeName c) = Some i" using IH by blast
      then show ?thesis by simp
    next
      assume "c \<in> set chs" then show ?thesis using IH by blast
    qed
  qed
qed

lemma ReadMissingBones_loop_bones:
  "ReadMissingBones_loop g chs bs M = (bs', M') \<Longrightarrow>
     \<exists>new. bs' = bs @ new \<and> map GetBoneName new = map mNodeName chs"
proof (induction chs arbitrary: bs M)
  case Nil
  then show ?case by simp
next
  case (Cons ch chs)
  from Cons.prems obtain b M1 where
    rec: "ReadMissingBones_loop g chs (bs @ [b]) M1 = (bs', M')" and nb: "GetBoneName b = mNodeName ch"
    by (simp add: Let_def GetBoneName_def new_Bone_def)
  from Cons.IH[OF rec] obtain new where "bs' = (bs @ [b]) @ new" "map GetBoneName new = map mNodeName chs"
    by blast
  then show ?case using nb by (intro exI[of _ "b # new"]) simp
qed

text \<open>One load either leaves everything as it was or runs the loop.\<close>

lemma new_Animation_cases:
  assumes "new_Animation g ReadFile this path M idx = (a, M')"
  shows "(a = this \<and> M' = M) \<or>
         (\<exists>chs bs. ReadMissingBones_loop g chs (bones this) M = (bs, M') \<and>
            bones a = bs \<and> Animation.boneInfoMap a = AnimatedModel.boneInfoMap M' \<and>
            boneCount a = boneCounter M')"
proof (cases "ReadFile path")
  case None
  then show ?thesis using assms by (simp add: new_Animation_def)
next
  case (Some scene)
  show ?thesis
  proof (cases "\<not> HasAnimations scene \<or> idx < 0 \<or> idx \<ge> int (length (mAnimations scene))")
    case True
    then show ?thesis using assms Some by (simp add: new_Animation_def)
  next
    case False
    then show ?thesis using assms Some
      by (auto simp: new_Animation_def Let_def ReadMissingBones_def split: prod.splits)
  qed
qed

lemma grows_refl: "grows g M M"
  by (auto simp: grows_def)

lemma grows_trans:
  assumes "grows g M M1" "grows g M1 M2"
  shows "grows g M M2"
proof -
  have c: "boneCounter M \<le> boneCounter M1" "boneCounter M1 \<le> boneCounter M2"
    using assms by (auto simp: grows_def)
  have keep1: "map_of (AnimatedModel.boneInfoMap M) nm = Some info \<Longrightarrow>
               map_of (AnimatedModel.boneInfoMap M1) nm = Some info" for nm info
    using assms(1) by (auto simp: grows_def)
  have keep2: "map_of (AnimatedModel.boneInfoMap M1) nm = Some info \<Longrightarrow>
               map_of (AnimatedModel.boneInfoMap M2) nm = Some info" for nm info
    using assms(2) by (auto simp: grows_def)
  have new1: "map_of (AnimatedModel.boneInfoMap M) nm = None \<Longrightarrow>
              map_of (AnimatedModel.boneInfoMap M1) nm = Some info \<Longrightarrow>
              offset info = mat4_1 g \<and> boneCounter M \<le> id info \<and> id info < boneCounter M1"
    for nm info using assms(1) by (auto simp: grows_def)
  have new2: "map_of (AnimatedModel.boneInfoMap M1) nm = None \<Longrightarrow>
              map_of (AnimatedModel.boneInfoMap M2) nm = Some info \<Longrightarrow>
              offset info = mat4_1 g \<and> boneCounter M1 \<le> id info \<and> id info < boneCounter M2"
    for nm info using assms(2) by (auto simp: grows_def)
  have new: "offset info = mat4_1 g \<and> boneCounter M \<le> id info \<and> id info < boneCounter M2"
    if a: "map_of (AnimatedModel.boneInfoMap M) nm = None"
      and b: "map_of (AnimatedModel.boneInfoMap M2) nm = Some info" for nm info
  proof (cases "map_of (AnimatedModel.boneInfoMap M1) nm")
    case None
    from new2[OF None b] c show ?thesis by auto
  next
    case (Some info1)
    from keep2[OF Some] b have "info1 = info" by simp
    with new1[OF a Some] c show ?thesis by auto
  qed
  show ?thesis unfolding grows_def using c keep1 keep2 new by (intro conjI allI impI) auto
qed

lemma new_Animation_grows:
  assumes "dense_ids M" "new_Animation g ReadFile this path M idx = (a, M')"
  shows "dense_ids M' \<and> grows g M M'"
  using new_Animation_cases[OF assms(2)]
proof
  assume "a = this \<and> M' = M"
  then show ?thesis using assms(1) by (simp add: grows_refl)
next
  assume "\<exists>chs bs. ReadMissingBones_loop g chs (bones this) M = (bs, M') \<and>
            bones a = bs \<and> Animation.boneInfoMap a = AnimatedModel.boneInfoMap M' \<and>
            boneCount a = boneCounter M'"
  then obtain chs bs where "ReadMissingBones_loop g chs (bones this) M = (bs, M')" by blast
  from loop_props[OF assms(1) this] show ?thesis unfolding grows_def by blast
qed

lemma new_Animation_snapshot:
  assumes "dense_ids M" "default_initialised this"
    and "new_Animation g ReadFile this path M idx = (a, M')"
  shows "(\<forall>nm info. map_of (Animation.boneInfoMap a) nm = Some info \<longrightarrow>
            map_of (AnimatedModel.boneInfoMap M') nm = Some info) \<and>
         (\<forall>b \<in> set (bones a). map_of (Animation.boneInfoMap a) (GetBoneName b) \<noteq> None)"
  using new_Animation_cases[OF assms(3)]
proof
  assume "a = this \<and> M' = M"
  then show ?thesis using assms(2) by (simp add: default_initialised_def)
next
  assume "\<exists>chs bs. ReadMissingBones_loop g chs (bones this) M = (bs, M') \<and>
            bones a = bs \<and> Animation.boneInfoMap a = AnimatedModel.boneInfoMap M' \<and>
            boneCount a = boneCounter M'"
  then obtain chs bs where l: "ReadMissingBones_loop g chs (bones this) M = (bs, M')"
    and a: "bones a = bs" "Animation.boneInfoMap a = AnimatedModel.boneInfoMap M'" by blast
  from ReadMissingBones_loop_bones[OF l] assms(2)
  have nm: "map GetBoneName bs = map mNodeName chs" by (auto simp: default_initialised_def)
  have "\<forall>ch \<in> set chs. map_of (AnimatedModel.boneInfoMap M') (mNodeName ch) \<noteq> None"
    using loop_props[OF assms(1) l] by blast
  then have "\<forall>n \<in> set (map mNodeName chs). map_of (AnimatedModel.boneInfoMap M') n \<noteq> None"
    by simp
  then have "\<forall>n \<in> set (map GetBoneName bs). map_of (AnimatedModel.boneInfoMap M') n \<noteq> None"
    using nm by simp
  then show ?thesis using a by simp
qed

lemma load_clips_props:
  assumes "dense_ids M" "\<forall>r \<in> set reqs. default_initialised (fst (snd r))"
    and "load_clips g reqs M = (clips, M')"
  shows "dense_ids M' \<and> grows g M M' \<and>
         (\<forall>a \<in> set clips.
            (\<forall>nm info. map_of (Animation.boneInfoMap a) nm = Some info \<longrightarrow>
               map_of (AnimatedModel.boneInfoMap M') nm = Some info) \<and>
            (\<forall>b \<in> set (bones a). map_of (Animation.boneInfoMap a) (GetBoneName b) \<noteq> None))"
  using assms
proof (induction reqs arbitrary: M clips M')
  case Nil
  then show ?case by (simp add: grows_refl)
next
  case (Cons r reqs)
  obtain ReadFile this path idx where r: "r = (ReadFile, this, path, idx)" by (cases r) auto
  obtain a M1 where l1: "new_Animation g ReadFile this path M idx = (a, M1)" by fastforce
  obtain rest M2 where l2: "load_clips g reqs M1 = (rest, M2)" by fastforce
  have res: "clips = a # rest" "M' = M2" using Cons.prems(3) r l1 l2 by auto
  have di: "default_initialised this" using Cons.prems(2) r by simp
  have g1: "dense_ids M1" "grows g M M1" using new_Animation_grows[OF Cons.prems(1) l1] by auto
  have IH: "dense_ids M2 \<and> grows g M1 M2 \<and>
         (\<forall>a \<in> set rest.
            (\<forall>nm info. map_of (Animation.boneInfoMap a) nm = Some info \<longrightarrow>
               map_of (AnimatedModel.boneInfoMap M2) nm = Some info) \<and>
            (\<forall>b \<in> set (bones a). map_of (Animation.boneInfoMap a) (GetBoneName b) \<noteq> None))"
    using Cons.IH[OF g1(1) _ l2] Cons.prems(2) by simp
  have s1: "(\<forall>nm info. map_of (Animation.boneInfoMap a) nm = Some info \<longrightarrow>
            map_of (AnimatedModel.boneInfoMap M1) nm = Some info) \<and>
         (\<forall>b \<in> set (bones a). map_of (Animation.boneInfoMap a) (GetBoneName b) \<noteq> None)"
    by (rule new_Animation_snapshot[OF Cons.prems(1) di l1])
  have keep: "map_of (AnimatedModel.boneInfoMap M1) nm = Some info \<Longrightarrow>
              map_of (AnimatedModel.boneInfoMap M2) nm = Some info" for nm info
    using IH by (auto simp: grows_def)
  have "grows g M M2" using g1(2) IH by (blast intro: grows_trans)
  then show ?case using IH s1 keep unfolding res by auto
qed

text \<open>
  Claim C6. Start from a dense table and load any sequence of clips, each into newly
  made storage. Then the table is dense again, so the ids are exactly
  \<open>0, \<dots>, boneCounter - 1\<close>; the counter has not fallen; every name that was present is
  still present with the same id and offset; every name that is new has the identity
  offset and an id from the old counter on; a channel whose name is absent is entered
  under the counter itself, which then goes up by one; and any two of the clips that both
  have a bone of some name hold the same entry for it in their snapshots.
\<close>

theorem C6_bone_table_grows:
  assumes "dense_ids M"
    and "\<forall>r \<in> set reqs. default_initialised (fst (snd r))"
    and "load_clips g reqs M = (clips, M')"
  shows "dense_ids M' \<and>
         boneCounter M \<le> boneCounter M' \<and>
         (\<forall>nm info. map_of (AnimatedModel.boneInfoMap M) nm = Some info \<longrightarrow>
                    map_of (AnimatedModel.boneInfoMap M') nm = Some info) \<and>
         (\<forall>nm info. map_of (AnimatedModel.boneInfoMap M) nm = None \<and>
                    map_of (AnimatedModel.boneInfoMap M') nm = Some info \<longrightarrow>
                    offset info = mat4_1 g \<and> boneCounter M \<le> id info \<and> id info < boneCounter M') \<and>
         (\<forall>ch bs. map_of (AnimatedModel.boneInfoMap M) (mNodeName ch) = None \<longrightarrow>
            snd (ReadMissingBones_loop g [ch] bs M) =
              \<lparr> boneCounter = boneCounter M + 1,
                boneInfoMap = map_put (mNodeName ch) \<lparr> id = boneCounter M, offset = mat4_1 g \<rparr>
                                (AnimatedModel.boneInfoMap M) \<rparr>) \<and>
         (\<forall>a \<in> set clips. \<forall>b \<in> set clips. \<forall>nm.
            nm \<in> GetBoneName ` set (bones a) \<and> nm \<in> GetBoneName ` set (bones b) \<longrightarrow>
            (\<exists>info. map_of (Animation.boneInfoMap a) nm = Some info \<and>
                    map_of (Animation.boneInfoMap b) nm = Some info))"
proof -
  note P = load_clips_props[OF assms]
  have snap: "map_of (Animation.boneInfoMap a) nm = Some info \<Longrightarrow>
              map_of (AnimatedModel.boneInfoMap M') nm = Some info"
    if "a \<in> set clips" for a nm info using P that by blast
  have has: "map_of (Animation.boneInfoMap a) nm \<noteq> None"
    if "a \<in> set clips" "nm \<in> GetBoneName ` set (bones a)" for a nm using P that by blast
  have p6: "\<exists>info. map_of (Animation.boneInfoMap a) nm = Some info \<and>
                    map_of (Animation.boneInfoMap b) nm = Some info"
    if a: "a \<in> set clips" and b: "b \<in> set clips"
      and na: "nm \<in> GetBoneName ` set (bones a)" and nb: "nm \<in> GetBoneName ` set (bones b)"
    for a b nm
  proof -
    from has[OF a na] obtain ia where ia: "map_of (Animation.boneInfoMap a) nm = Some ia" by auto
    from has[OF b nb] obtain ib where ib: "map_of (Animation.boneInfoMap b) nm = Some ib" by auto
    from snap[OF a ia] snap[OF b ib] have "ia = ib" by simp
    then show ?thesis using ia ib by simp
  qed
  have g: "grows g M M'" and d: "dense_ids M'" using P by auto
  show ?thesis
  proof (intro conjI)
    show "dense_ids M'" by (rule d)
    show "boneCounter M \<le> boneCounter M'" using g by (simp add: grows_def)
    show "\<forall>nm info. map_of (AnimatedModel.boneInfoMap M) nm = Some info \<longrightarrow>
                    map_of (AnimatedModel.boneInfoMap M') nm = Some info"
      using g by (simp add: grows_def)
    show "\<forall>nm info. map_of (AnimatedModel.boneInfoMap M) nm = None \<and>
                    map_of (AnimatedModel.boneInfoMap M') nm = Some info \<longrightarrow>
                    offset info = mat4_1 g \<and> boneCounter M \<le> id info \<and> id info < boneCounter M'"
      using g unfolding grows_def by blast
    show "\<forall>ch bs. map_of (AnimatedModel.boneInfoMap M) (mNodeName ch) = None \<longrightarrow>
            snd (ReadMissingBones_loop g [ch] bs M) =
              \<lparr> boneCounter = boneCounter M + 1,
                boneInfoMap = map_put (mNodeName ch) \<lparr> id = boneCounter M, offset = mat4_1 g \<rparr>
                                (AnimatedModel.boneInfoMap M) \<rparr>"
      by (simp add: Let_def)
    show "\<forall>a \<in> set clips. \<forall>b \<in> set clips. \<forall>nm.
            nm \<in> GetBoneName ` set (bones a) \<and> nm \<in> GetBoneName ` set (bones b) \<longrightarrow>
            (\<exists>info. map_of (Animation.boneInfoMap a) nm = Some info \<and>
                    map_of (Animation.boneInfoMap b) nm = Some info)"
      using p6 by blast
  qed
qed

text \<open>Running the two loads on the concrete model.\<close>

lemma cow_model_eq:
  "cow_model = \<lparr> boneCounter = 3,
      boneInfoMap = [(''DEF-head'', \<lparr> id = 1, offset = (1, - 3) \<rparr>),
                     (''DEF-spine'', \<lparr> id = 0, offset = (1, - 2) \<rparr>),
                     (''DEF-tail'', \<lparr> id = 2, offset = (1, - 1) \<rparr>)] \<rparr>"
  by (simp add: cow_model_def new_AnimatedModel_def bone_allowed_def ALLOWED_BONES_def)

lemma loop_absent:
  "map_of (AnimatedModel.boneInfoMap M) (mNodeName ch) = None \<Longrightarrow>
   ReadMissingBones_loop g (ch # rest) bs M =
     ReadMissingBones_loop g rest (bs @ [new_Bone g (mNodeName ch) (boneCounter M) ch])
       \<lparr> boneCounter = boneCounter M + 1,
         boneInfoMap = map_put (mNodeName ch) \<lparr> id = boneCounter M, offset = mat4_1 g \<rparr>
                         (AnimatedModel.boneInfoMap M) \<rparr>"
  by (simp add: Let_def map_id_def map_of_map_put)

lemma loop_present:
  "map_of (AnimatedModel.boneInfoMap M) (mNodeName ch) = Some info \<Longrightarrow>
   ReadMissingBones_loop g (ch # rest) bs M =
     ReadMissingBones_loop g rest (bs @ [new_Bone g (mNodeName ch) (id info) ch]) M"
  by (simp add: Let_def map_id_def)

lemma walk_bones:
  "ReadMissingBones_loop glm1 (mChannels walk_anim) [] cow_model = (bones walk_clip, cow_model1)"
  by (simp add: walk_anim_def cow_model_eq loop_absent loop_present new_Bone_def key1_def
      walk_clip_def cow_model1_def glm1_def del: ReadMissingBones_loop.simps(2))

lemma walk_load:
  "new_Animation glm1 (\<lambda>path. Some cow_scene) fresh ''cow.gltf'' cow_model 0 = (walk_clip, cow_model1)"
  unfolding new_Animation_def ReadMissingBones_def
  by (simp add: cow_scene_def HasAnimations_def Let_def walk_bones fresh_def)
     (simp add: walk_anim_def walk_clip_def trunc_def cow_model1_def)

lemma look_load:
  "new_Animation glm1 (\<lambda>path. Some cow_scene) fresh ''cow.gltf'' cow_model1 1 = (look_clip, cow_model1)"
  unfolding new_Animation_def ReadMissingBones_def
  by (simp add: cow_scene_def HasAnimations_def Let_def fresh_def look_anim_def cow_model1_def
      walk_clip_def loop_present new_Bone_def key1_def glm1_def look_clip_def trunc_def
      DEFAULT_TICKS_PER_SECOND_def del: ReadMissingBones_loop.simps(2))

lemma cow_loads: "load_clips glm1 cow_requests cow_model = ([walk_clip, look_clip], cow_model1)"
  by (simp add: cow_requests_def walk_load look_load)

lemma dense_cow_model: "dense_ids cow_model"
  unfolding cow_model_def by (intro dense_Extract dense_new)

theorem C6_bone_table_grows_witness:
  "dense_ids cow_model \<and> default_initialised fresh \<and>
   load_clips glm1 cow_requests cow_model = ([walk_clip, look_clip], cow_model1) \<and>
   dense_ids cow_model1 \<and> boneCounter cow_model = 3 \<and> boneCounter cow_model1 = 4 \<and>
   map_of (AnimatedModel.boneInfoMap cow_model) ''DEF-head'' = Some \<lparr> id = 1, offset = (1, - 3) \<rparr> \<and>
   map_of (AnimatedModel.boneInfoMap cow_model1) ''DEF-head'' = Some \<lparr> id = 1, offset = (1, - 3) \<rparr> \<and>
   map_of (AnimatedModel.boneInfoMap cow_model) ''IK-target'' = None \<and>
   map_of (AnimatedModel.boneInfoMap cow_model1) ''IK-target'' = Some \<lparr> id = 3, offset = (1, 0) \<rparr> \<and>
   ''DEF-head'' \<in> GetBoneName ` set (bones walk_clip) \<and>
   ''DEF-head'' \<in> GetBoneName ` set (bones look_clip) \<and>
   map_of (Animation.boneInfoMap walk_clip) ''DEF-head'' = Some \<lparr> id = 1, offset = (1, - 3) \<rparr> \<and>
   map_of (Animation.boneInfoMap look_clip) ''DEF-head'' = Some \<lparr> id = 1, offset = (1, - 3) \<rparr>"
proof -
  have d: "dense_ids cow_model" by (rule dense_cow_model)
  have f: "\<forall>r \<in> set cow_requests. default_initialised (fst (snd r))"
    by (simp add: cow_requests_def default_initialised_def fresh_def)
  have e: "map_of (AnimatedModel.boneInfoMap cow_model) ''DEF-head'' = Some \<lparr> id = 1, offset = (1, - 3) \<rparr>"
    "map_of (AnimatedModel.boneInfoMap cow_model) ''IK-target'' = None"
    "boneCounter cow_model = 3"
    by (simp_all add: cow_model_eq)
  have n: "''DEF-head'' \<in> GetBoneName ` set (bones walk_clip)"
    "''DEF-head'' \<in> GetBoneName ` set (bones look_clip)"
    "map_of (Animation.boneInfoMap walk_clip) ''DEF-head'' = Some \<lparr> id = 1, offset = (1, - 3) \<rparr>"
    "map_of (AnimatedModel.boneInfoMap cow_model1) ''IK-target'' = Some \<lparr> id = 3, offset = (1, 0) \<rparr>"
    "boneCounter cow_model1 = 4"
    by (simp_all add: walk_clip_def look_clip_def GetBoneName_def cow_model1_def)
  note T = C6_bone_table_grows[OF d f cow_loads]
  have "dense_ids cow_model1" using T by blast
  moreover have "map_of (AnimatedModel.boneInfoMap cow_model1) ''DEF-head'' = Some \<lparr> id = 1, offset = (1, - 3) \<rparr>"
    using T e(1) by blast
  moreover have "\<exists>info. map_of (Animation.boneInfoMap walk_clip) ''DEF-head'' = Some info \<and>
      map_of (Animation.boneInfoMap look_clip) ''DEF-head'' = Some info"
    using T n(1,2) by simp
  then have "map_of (Animation.boneInfoMap look_clip) ''DEF-head'' = Some \<lparr> id = 1, offset = (1, - 3) \<rparr>"
    using n(3) by auto
  ultimately show ?thesis
    using d f e n cow_loads by (simp add: cow_requests_def)
qed


section \<open>Failed loads\<close>

text \<open>A name that the catalogue does not hold gives the null pointer.\<close>

lemma LoadAnimation_not_found:
  "FindAnimationIndex ld nm = - 1 \<Longrightarrow> LoadAnimation g ReadFile this ld M nm = (None, M)"
  by (simp add: LoadAnimation_def)

text \<open>A name that the catalogue holds never gives the null pointer, whatever the load does.\<close>

lemma LoadAnimation_found:
  "FindAnimationIndex ld nm \<noteq> - 1 \<Longrightarrow> fst (LoadAnimation g ReadFile this ld M nm) \<noteq> None"
  by (simp add: LoadAnimation_def Let_def split: prod.splits)

text \<open>
  Claim C2. The claim says that a load which fails (the file cannot be parsed, has no
  animations, or the index is out of range) produces no clip, and that \<^verbatim>\<open>LoadAnimation\<close>
  then returns null. The catalogue was built while the file held the animations \<open>Walk\<close>
  and \<open>LookUp\<close>. Asked for \<open>LookUp\<close> (index 1) when the file can no longer be read, when it
  holds one animation only, or when it holds none, \<^verbatim>\<open>LoadAnimation\<close> returns a pointer that
  is not null, to the object the constructor left as it found it. Only the name that is
  not in the catalogue gives null.
\<close>

theorem C2_failed_load_returns_object:
  "FindAnimationIndex cow_loader ''LookUp'' = 1 \<and>
   LoadAnimation glm1 (\<lambda>path. None) fresh cow_loader cow_model ''LookUp'' = (Some fresh, cow_model) \<and>
   LoadAnimation glm1 (\<lambda>path. Some (cow_scene\<lparr> mAnimations := [walk_anim] \<rparr>)) fresh cow_loader
     cow_model ''LookUp'' = (Some fresh, cow_model) \<and>
   LoadAnimation glm1 (\<lambda>path. Some (cow_scene\<lparr> mAnimations := [] \<rparr>)) fresh cow_loader
     cow_model ''LookUp'' = (Some fresh, cow_model) \<and>
   LoadAnimation glm1 (\<lambda>path. Some cow_scene) fresh cow_loader cow_model ''Gallop'' = (None, cow_model)"
  by (simp add: LoadAnimation_def cow_loader_def new_AnimationLoader_def LoadAnimationList_def
      cow_scene_def HasAnimations_def FindAnimationIndex_def walk_anim_def look_anim_def
      new_Animation_def)


section \<open>Assigning clips\<close>

lemma cow_animator_eq:
  "cow_animator =
     \<lparr> finalBoneMatrices = [(1, 0), (1, 0), (1, 0), (1, 0)],
       boneOverrides = (\<lambda>i. None), layers = (\<lambda>l. None),
       currentAnimation = Some 1, currentTime = 20, deltaTime = 0 \<rparr>"
  by (simp add: cow_animator_def new_Animator_def cow_clips_def GetBoneCount_def walk_clip_def
      resize_def glm1_def eval_nat_numeral)

text \<open>
  Claim C4. \<^verbatim>\<open>PlayAnimation\<close> with the pointer that is already the primary clip changes
  nothing, so a second call in a row leaves the first call's state, \<open>currentTime\<close>
  included; with any other pointer it sets \<open>currentTime\<close> to 0. \<^verbatim>\<open>PlayAnimationOnLayer\<close>
  with a clip sets the layer's time to 0 and its flag \<open>active\<close>, whatever the layer held
  before.
\<close>

theorem C4_reassignment:
  "(currentAnimation this = anim \<longrightarrow> PlayAnimation g h this anim = this) \<and>
   PlayAnimation g h (PlayAnimation g h this anim) anim = PlayAnimation g h this anim \<and>
   (currentAnimation this \<noteq> anim \<longrightarrow>
      Animator.currentTime (PlayAnimation g h this anim) = 0 \<and>
      currentAnimation (PlayAnimation g h this anim) = anim) \<and>
   layers (PlayAnimationOnLayer this (Some p) layer loop) layer =
     Some \<lparr> animation = Some p, currentTime = 0, active = True, looping = loop \<rparr> \<and>
   layers (PlayAnimationOnLayer2 this (Some p) layer) layer =
     Some \<lparr> animation = Some p, currentTime = 0, active = True,
            looping = looping (layer_entry this layer) \<rparr>"
  by (cases anim) (simp_all add: PlayAnimation_def PlayAnimationOnLayer_def PlayAnimationOnLayer2_def Let_def)

theorem C4_reassignment_witness:
  "currentAnimation cow_animator = Some 1 \<and>
   Animator.currentTime cow_animator = 20 \<and>
   Animator.currentTime (PlayAnimation glm1 cow_clips cow_animator (Some 1)) = 20 \<and>
   currentAnimation cow_animator \<noteq> Some 2 \<and>
   Animator.currentTime (PlayAnimation glm1 cow_clips cow_animator (Some 2)) = 0 \<and>
   layers (PlayAnimationOnLayer (PlayAnimationOnLayer cow_animator (Some 2) HEAD False)
             (Some 2) HEAD False) HEAD =
     Some \<lparr> animation = Some 2, currentTime = 0, active = True, looping = False \<rparr>"
  using C4_reassignment [of cow_animator "Some 1" glm1 cow_clips 2 HEAD False]
    C4_reassignment [of cow_animator "Some 2" glm1 cow_clips 2 HEAD False]
    C4_reassignment [of "PlayAnimationOnLayer cow_animator (Some 2) HEAD False" "Some 2" glm1
      cow_clips 2 HEAD False]
  by (simp add: cow_animator_eq)

text \<open>
  Claim C10. \<^verbatim>\<open>PlayAnimation(nullptr)\<close> while a primary clip is set clears the pointer
  and the time and leaves \<open>finalBoneMatrices\<close> as it is. The matrices change only when
  the new pointer is not null and differs from the current one, and then their number is
  the bone count of the new clip.
\<close>

theorem C10_null_keeps_matrices:
  "(currentAnimation this \<noteq> None \<longrightarrow>
      currentAnimation (PlayAnimation g h this None) = None \<and>
      Animator.currentTime (PlayAnimation g h this None) = 0 \<and>
      finalBoneMatrices (PlayAnimation g h this None) = finalBoneMatrices this) \<and>
   (finalBoneMatrices (PlayAnimation g h this anim) \<noteq> finalBoneMatrices this \<longrightarrow>
      anim \<noteq> None \<and> anim \<noteq> currentAnimation this) \<and>
   (currentAnimation this \<noteq> Some p \<and> 0 \<le> GetBoneCount (h p) \<longrightarrow>
      int (length (finalBoneMatrices (PlayAnimation g h this (Some p)))) = GetBoneCount (h p))"
  by (cases anim) (auto simp: PlayAnimation_def resize_def Let_def)

theorem C10_null_keeps_matrices_witness:
  "currentAnimation cow_animator \<noteq> None \<and>
   currentAnimation (PlayAnimation glm1 cow_clips cow_animator None) = None \<and>
   Animator.currentTime (PlayAnimation glm1 cow_clips cow_animator None) = 0 \<and>
   finalBoneMatrices (PlayAnimation glm1 cow_clips cow_animator None) =
     [(1, 0), (1, 0), (1, 0), (1, 0)] \<and>
   finalBoneMatrices (PlayAnimation glm1 cow_clips bare_animator (Some 1)) \<noteq>
     finalBoneMatrices bare_animator \<and>
   length (finalBoneMatrices bare_animator) = 100 \<and>
   currentAnimation bare_animator \<noteq> Some 1 \<and> 0 \<le> GetBoneCount (cow_clips 1) \<and>
   length (finalBoneMatrices (PlayAnimation glm1 cow_clips bare_animator (Some 1))) = 4"
proof -
  have b: "currentAnimation bare_animator = None" "length (finalBoneMatrices bare_animator) = 100"
    by (simp_all add: bare_animator_def new_Animator_def MAX_BONES_def resize_def)
  have c: "GetBoneCount (cow_clips 1) = 4"
    by (simp add: cow_clips_def GetBoneCount_def walk_clip_def)
  have "int (length (finalBoneMatrices (PlayAnimation glm1 cow_clips bare_animator (Some 1)))) = 4"
    using C10_null_keeps_matrices [of bare_animator glm1 cow_clips "Some 1" 1] b c by simp
  then have l: "length (finalBoneMatrices (PlayAnimation glm1 cow_clips bare_animator (Some 1))) = 4"
    by simp
  then have "finalBoneMatrices (PlayAnimation glm1 cow_clips bare_animator (Some 1)) \<noteq>
     finalBoneMatrices bare_animator"
    using b(2) by auto
  then show ?thesis
    using C10_null_keeps_matrices [of cow_animator glm1 cow_clips None 1] b c l
    by (simp add: cow_animator_eq)
qed


section \<open>Binary32 arithmetic\<close>

lemma find_exp_eq:
  "k < n \<Longrightarrow> 2 powi (int k - 125) \<le> a \<Longrightarrow> a < 2 powi (int k - 124) \<Longrightarrow>
     find_exp n a = int k - 125"
proof (induction n)
  case 0
  then show ?case by simp
next
  case (Suc n)
  show ?case
  proof (cases "k = n")
    case True
    then show ?thesis using Suc.prems by simp
  next
    case False
    then have kn: "k < n" using Suc.prems(1) by simp
    have "(2::real) powi (int k - 124) \<le> 2 powi (int n - 125)"
      using kn by (intro power_int_increasing) auto
    then have "\<not> 2 powi (int n - 125) \<le> a" using Suc.prems(3) by linarith
    then show ?thesis using Suc.IH[OF kn Suc.prems(2,3)] by simp
  qed
qed

lemma exponent32_eq:
  assumes "2 powi e \<le> \<bar>x\<bar>" "\<bar>x\<bar> < 2 powi (e + 1)" "- 125 \<le> e" "e \<le> 127"
  shows "exponent32 x = e"
proof -
  define k where "k = nat (e + 125)"
  have k: "int k - 125 = e" "int k - 124 = e + 1" "k < 253" using assms(3,4) by (simp_all add: k_def)
  show ?thesis
    unfolding exponent32_def using find_exp_eq[of k 253 "\<bar>x\<bar>"] assms(1,2) k by simp
qed

text \<open>Rounding a number whose binade is known.\<close>

lemma round32_at:
  assumes "2 powi e \<le> \<bar>x\<bar>" "\<bar>x\<bar> < 2 powi (e + 1)" "- 125 \<le> e" "e \<le> 127"
  shows "round32 x = of_int (round_even (x / 2 powi (e - 23))) * 2 powi (e - 23)"
  unfolding round32_def exponent32_eq[OF assms] ..

lemma round32_0: "round32 0 = 0"
  by (simp add: round32_def round_even_def)

text \<open>
  The literals: \<^verbatim>\<open>0.8f\<close> is a little above 0.8 and \<^verbatim>\<open>0.08f\<close> a little below 0.08, and at
  25 ticks per second both products are rounded to whole numbers. The product with
  \<^verbatim>\<open>0.3f\<close> is rounded to the float next above 7.5.
\<close>

lemma f08_eq: "f08 = 13421773 / 16777216"
  unfolding f08_def
  by (subst round32_at[where e = "- 1"]) (simp_all add: round_even_def power_int_minus)

lemma f008_eq: "f008 = 5368709 / 67108864"
  unfolding f008_def
  by (subst round32_at[where e = "- 4"]) (simp_all add: round_even_def power_int_minus)

lemma float_25: "float_of_int 25 = 25"
  unfolding float_of_int_def
  by (subst round32_at[where e = 4]) (simp_all add: round_even_def power_int_minus)

lemma fmul_25_f08: "fmul 25 f08 = 20"
  unfolding fmul_def f08_eq
  by (subst round32_at[where e = 4]) (simp_all add: round_even_def power_int_minus)

lemma fmul_25_f008: "fmul 25 f008 = 2"
  unfolding fmul_def f008_eq
  by (subst round32_at[where e = 0]) (simp_all add: round_even_def power_int_minus)

lemma round32_2: "round32 2 = 2"
  by (subst round32_at[where e = 1]) (simp_all add: round_even_def power_int_minus)

lemma round32_4: "round32 4 = 4"
  by (subst round32_at[where e = 2]) (simp_all add: round_even_def power_int_minus)

lemma round32_6: "round32 6 = 6"
  by (subst round32_at[where e = 2]) (simp_all add: round_even_def power_int_minus)

lemma round32_8: "round32 8 = 8"
  by (subst round32_at[where e = 3]) (simp_all add: round_even_def power_int_minus)

lemma round32_10: "round32 10 = 10"
  by (subst round32_at[where e = 3]) (simp_all add: round_even_def power_int_minus)

lemma round32_20: "round32 20 = 20"
  by (subst round32_at[where e = 4]) (simp_all add: round_even_def power_int_minus)

lemma round32_40: "round32 40 = 40"
  by (subst round32_at[where e = 5]) (simp_all add: round_even_def power_int_minus)

lemmas round32_small =
  round32_2 round32_4 round32_6 round32_8 round32_10 round32_20 round32_40

lemma fadd_20: "fadd 0 20 = 20" "fadd 20 20 = 40"
  by (simp_all add: fadd_def round32_small)

lemma fadd_2: "fadd 0 2 = 2" "fadd 2 2 = 4" "fadd 4 2 = 6" "fadd 6 2 = 8" "fadd 8 2 = 10"
  by (simp_all add: fadd_def round32_small)

lemma fmod_small: "c_fmod 2 40 = 2" "c_fmod 4 40 = 4" "c_fmod 6 40 = 6" "c_fmod 8 40 = 8"
  "c_fmod 10 40 = 10" "c_fmod 20 40 = 20" "c_fmod 40 40 = 0" "c_fmod 10 10 = 0"
  by (simp_all add: c_fmod_def trunc_def)

lemma finite_small: "isfinite 2" "isfinite 4" "isfinite 6" "isfinite 8" "isfinite 10"
  "isfinite 20" "isfinite 40"
  by (simp_all add: isfinite_def FLT_MAX_def)

lemma f03_eq: "f03 = 5033165 / 16777216"
  unfolding f03_def
  by (subst round32_at[where e = "- 2"]) (simp_all add: round_even_def power_int_minus)

lemma fmul_25_f03: "fmul 25 f03 = 15728641 / 2097152"
  unfolding fmul_def f03_eq
  by (subst round32_at[where e = 2]) (simp_all add: round_even_def power_int_minus)

lemma fadd_f03: "fadd 0 (15728641 / 2097152) = 15728641 / 2097152"
  unfolding fadd_def
  by (subst round32_at[where e = 2]) (simp_all add: round_even_def power_int_minus)

lemma fmod_f03: "c_fmod (15728641 / 2097152) 40 = 15728641 / 2097152"
  by (simp add: c_fmod_def trunc_def)

lemma finite_f03: "isfinite (15728641 / 2097152)"
  by (simp add: isfinite_def FLT_MAX_def)

lemmas f03_eval = fmul_25_f03 fadd_f03 fmod_f03 finite_f03


section \<open>What a tick leaves unchanged\<close>

lemma same_keys_refl: "same_keys b b"
  by (simp add: same_keys_def)

lemma same_keys_trans:
  assumes "same_keys a b" "same_keys b c"
  shows "same_keys a c"
proof -
  have "c\<lparr> localTransform := localTransform a \<rparr> =
        (c\<lparr> localTransform := localTransform b \<rparr>)\<lparr> localTransform := localTransform a \<rparr>"
    by simp
  also have "\<dots> = b\<lparr> localTransform := localTransform a \<rparr>"
    using assms(2) by (simp add: same_keys_def)
  also have "\<dots> = a" using assms(1) by (simp add: same_keys_def)
  finally show ?thesis by (simp add: same_keys_def)
qed

lemma same_keys_update: "same_keys b (b\<lparr> localTransform := m \<rparr>)"
  by (simp add: same_keys_def)

lemma frame_refl: "frame h h"
  by (simp add: frame_def list_all2_refl same_keys_refl)

lemma frame_trans:
  assumes "frame h h1" "frame h1 h2"
  shows "frame h h2"
  unfolding frame_def
proof (intro allI conjI)
  fix p
  have a: "(h1 p)\<lparr> bones := bones (h p) \<rparr> = h p"
    and b: "(h2 p)\<lparr> bones := bones (h1 p) \<rparr> = h1 p"
    using assms by (simp_all add: frame_def)
  have "(h2 p)\<lparr> bones := bones (h p) \<rparr> = ((h2 p)\<lparr> bones := bones (h1 p) \<rparr>)\<lparr> bones := bones (h p) \<rparr>"
    by simp
  also have "\<dots> = (h1 p)\<lparr> bones := bones (h p) \<rparr>" using b by simp
  also have "\<dots> = h p" using a by simp
  finally show "(h2 p)\<lparr> bones := bones (h p) \<rparr> = h p" .
  have "list_all2 same_keys (bones (h p)) (bones (h1 p))" using assms(1) by (simp add: frame_def)
  moreover have "list_all2 same_keys (bones (h1 p)) (bones (h2 p))"
    using assms(2) by (simp add: frame_def)
  ultimately show "list_all2 same_keys (bones (h p)) (bones (h2 p))"
    by (rule list_all2_trans[rotated]) (rule same_keys_trans)
qed

lemma frame_fields:
  assumes "frame h h'"
  shows "GetDuration (h' p) = GetDuration (h p)"
    and "GetTicksPerSecond (h' p) = GetTicksPerSecond (h p)"
    and "GetBoneIDMap (h' p) = GetBoneIDMap (h p)"
    and "GetRootNode (h' p) = GetRootNode (h p)"
    and "GetBoneCount (h' p) = GetBoneCount (h p)"
proof -
  have e: "(h' p)\<lparr> bones := bones (h p) \<rparr> = h p" using assms by (simp add: frame_def)
  have "Animation.duration ((h' p)\<lparr> bones := bones (h p) \<rparr>) = Animation.duration (h' p)"
       "Animation.ticksPerSecond ((h' p)\<lparr> bones := bones (h p) \<rparr>) = Animation.ticksPerSecond (h' p)"
       "Animation.boneInfoMap ((h' p)\<lparr> bones := bones (h p) \<rparr>) = Animation.boneInfoMap (h' p)"
       "rootNode ((h' p)\<lparr> bones := bones (h p) \<rparr>) = rootNode (h' p)"
       "boneCount ((h' p)\<lparr> bones := bones (h p) \<rparr>) = boneCount (h' p)"
    by simp_all
  then show "GetDuration (h' p) = GetDuration (h p)"
    and "GetTicksPerSecond (h' p) = GetTicksPerSecond (h p)"
    and "GetBoneIDMap (h' p) = GetBoneIDMap (h p)"
    and "GetRootNode (h' p) = GetRootNode (h p)"
    and "GetBoneCount (h' p) = GetBoneCount (h p)"
    unfolding e by (simp_all add: GetDuration_def GetTicksPerSecond_def GetBoneIDMap_def
        GetRootNode_def GetBoneCount_def)
qed

lemma find_if_name_Some:
  "find_if_name bs nm i = Some (k, b) \<Longrightarrow> i \<le> k \<and> k - i < length bs \<and> bs ! (k - i) = b"
proof (induction bs arbitrary: i)
  case Nil
  then show ?case by simp
next
  case (Cons a bs)
  show ?case
  proof (cases "GetBoneName a = nm")
    case True
    then show ?thesis using Cons.prems by simp
  next
    case False
    then have "find_if_name bs nm (Suc i) = Some (k, b)" using Cons.prems by simp
    from Cons.IH[OF this] show ?thesis by (auto simp: Suc_diff_le)
  qed
qed

lemma FindBone_Some:
  "FindBone a nm = Some (k, b) \<Longrightarrow> k < length (bones a) \<and> bones a ! k = b"
  using find_if_name_Some[of "bones a" nm 0 k b] by (simp add: FindBone_def)

lemma Update_same_keys: "Update g b t = Inr b1 \<Longrightarrow> same_keys b b1"
  by (auto simp: Update_def same_keys_def split: sum.splits)

lemma node_local_frame:
  assumes "node_local g h p node t = Inr (m, h1)"
  shows "frame h h1"
proof (cases "FindBone (h p) (AssimpNodeData.name node)")
  case None
  then show ?thesis using assms by (simp add: node_local_def frame_refl)
next
  case (Some kb)
  obtain k bone where kb: "kb = (k, bone)" by (cases kb)
  from assms Some kb obtain bone1 where u: "Update g bone t = Inr bone1"
    and h1: "h1 = h(p := (h p)\<lparr> bones := (bones (h p))[k := bone1] \<rparr>)"
    by (auto simp: node_local_def split: sum.splits)
  from FindBone_Some[OF Some[unfolded kb]] have k: "k < length (bones (h p))" "bones (h p) ! k = bone"
    by auto
  have "list_all2 same_keys (bones (h p)) ((bones (h p))[k := bone1])"
    using k Update_same_keys[OF u]
    by (auto simp: list_all2_conv_all_nth nth_list_update same_keys_refl)
  then show ?thesis
    unfolding h1 frame_def by (auto simp: list_all2_refl same_keys_refl)
qed

lemma frame_w_refl: "frame_w w w"
  by (simp add: frame_w_def frame_refl)

lemma frame_w_trans: "frame_w w w1 \<Longrightarrow> frame_w w1 w2 \<Longrightarrow> frame_w w w2"
  unfolding frame_w_def
  by (metis (no_types, lifting) frame_trans Animator.surjective Animator.update_convs(1))

lemma CalculateBoneTransform_frame:
  "CalculateBoneTransform g w node P = Inr w' \<Longrightarrow> frame_w w w'"
  "CalculateBoneTransform_children g w node G i = Inr w' \<Longrightarrow> frame_w w w'"
proof (induction g w node P and g w node G i arbitrary: w' and w'
    rule: CalculateBoneTransform_CalculateBoneTransform_children.induct)
  case (1 g this h node parentTransform)
  from "1.prems" obtain p where p: "currentAnimation this = Some p"
    by (auto simp: CalculateBoneTransform.simps split: option.splits)
  from "1.prems" p obtain m h1 where nl:
    "node_local g h p node (Animator.currentTime this) = Inr (m, h1)"
    by (auto simp: CalculateBoneTransform.simps split: sum.splits)
  let ?it = "map_of (GetBoneIDMap (h1 p)) (AssimpNodeData.name node)"
  let ?m1 = "(case ?it of None \<Rightarrow> m
            | Some info \<Rightarrow>
                if 0 \<le> BoneInfo.id info \<and>
                   BoneInfo.id info < int (length (finalBoneMatrices this))
                then case boneOverrides this (BoneInfo.id info) of None \<Rightarrow> m
                     | Some overrideTransform \<Rightarrow> mat_mul g overrideTransform m
                else m)"
  let ?G = "mat_mul g parentTransform ?m1"
  let ?this1 = "(case ?it of None \<Rightarrow> this
            | Some info \<Rightarrow>
                if 0 \<le> BoneInfo.id info \<and>
                   BoneInfo.id info < int (length (finalBoneMatrices this))
                then this\<lparr>finalBoneMatrices := (finalBoneMatrices this)
                        [nat (BoneInfo.id info) := mat_mul g ?G (offset info)]\<rparr>
                else this)"
  have ch: "CalculateBoneTransform_children g (?this1, h1) node ?G 0 = Inr w'"
    using "1.prems" p nl by (simp add: CalculateBoneTransform.simps Let_def)
  have "frame_w (?this1, h1) w'"
    by (rule "1.IH"[OF p nl refl refl refl refl refl ch])
  moreover have "frame_w (this, h) (?this1, h1)"
    using node_local_frame[OF nl] by (auto simp: frame_w_def split: option.splits)
  ultimately show ?case by (rule frame_w_trans[rotated])
next
  case (2 g w node globalTransformation i)
  show ?case
  proof (cases "i < childrenCount node")
    case True
    from "2.prems" True obtain child where c: "vec_at (children node) i = Inr child"
      by (auto simp: CalculateBoneTransform_children.simps split: sum.splits)
    from "2.prems" True c obtain w1 where
      w1: "CalculateBoneTransform g w child globalTransformation = Inr w1"
      by (auto simp: CalculateBoneTransform_children.simps split: sum.splits)
    have rest: "CalculateBoneTransform_children g w1 node globalTransformation (i + 1) = Inr w'"
      using "2.prems" True c w1 by (simp add: CalculateBoneTransform_children.simps)
    show ?thesis
      using "2.IH"(1)[OF True c w1] "2.IH"(2)[OF True c w1 rest] by (rule frame_w_trans)
  next
    case False
    then show ?thesis using "2.prems"
      by (simp add: CalculateBoneTransform_children.simps frame_w_refl)
  qed
qed

lemma CalculateLayerBoneTransform_frame:
  "CalculateLayerBoneTransform g this h node P layer lm = Inr (lm', h') \<Longrightarrow>
     frame h h' \<and> length lm' = length lm"
  "CalculateLayerBoneTransform_children g this h node G layer lm i = Inr (lm', h') \<Longrightarrow>
     frame h h' \<and> length lm' = length lm"
proof (induction g this h node P layer lm and g this h node G layer lm i arbitrary: lm' h' and lm' h'
    rule: CalculateLayerBoneTransform_CalculateLayerBoneTransform_children.induct)
  case (1 g this h node parentTransform layer layerMatrices)
  from "1.prems" obtain p where p: "animation (layer_entry this layer) = Some p"
    by (auto simp: CalculateLayerBoneTransform.simps Let_def split: option.splits)
  from "1.prems" p obtain m h1 where nl:
    "node_local g h p node (LayerInfo.currentTime (layer_entry this layer)) = Inr (m, h1)"
    by (auto simp: CalculateLayerBoneTransform.simps Let_def split: sum.splits)
  let ?G = "mat_mul g parentTransform m"
  let ?it = "map_of (GetBoneIDMap (h1 p)) (AssimpNodeData.name node)"
  let ?lm1 = "(case ?it of None \<Rightarrow> layerMatrices
            | Some boneInfo \<Rightarrow>
                if GetBoneLayer (AssimpNodeData.name node) = layer \<and>
                   0 \<le> BoneInfo.id boneInfo \<and>
                   BoneInfo.id boneInfo < int (length layerMatrices)
                then layerMatrices
                     [nat (BoneInfo.id boneInfo) := mat_mul g ?G (offset boneInfo)]
                else layerMatrices)"
  have ch: "CalculateLayerBoneTransform_children g this h1 node ?G layer ?lm1 0 = Inr (lm', h')"
    using "1.prems" p nl by (simp add: CalculateLayerBoneTransform.simps Let_def)
  have "frame h1 h' \<and> length lm' = length ?lm1"
    by (rule "1.IH"[OF refl p nl refl refl refl refl ch])
  moreover have "length ?lm1 = length layerMatrices"
    by (simp split: option.splits)
  ultimately show ?case using node_local_frame[OF nl] frame_trans by fastforce
next
  case (2 g this h node globalTransformation layer layerMatrices i)
  show ?case
  proof (cases "i < childrenCount node")
    case True
    from "2.prems" True obtain child where c: "vec_at (children node) i = Inr child"
      by (auto simp: CalculateLayerBoneTransform_children.simps split: sum.splits)
    from "2.prems" True c obtain lm1 h1 where
      w1: "CalculateLayerBoneTransform g this h child globalTransformation layer layerMatrices
             = Inr (lm1, h1)"
      by (auto simp: CalculateLayerBoneTransform_children.simps split: sum.splits)
    have rest: "CalculateLayerBoneTransform_children g this h1 node globalTransformation layer
                  lm1 (i + 1) = Inr (lm', h')"
      using "2.prems" True c w1 by (simp add: CalculateLayerBoneTransform_children.simps)
    show ?thesis
      using "2.IH"(1)[OF True c w1] "2.IH"(2)[OF True c w1 refl rest] frame_trans by fastforce
  next
    case False
    then show ?thesis using "2.prems"
      by (simp add: CalculateLayerBoneTransform_children.simps frame_refl)
  qed
qed

lemma apply_layer_bones_frame:
  "apply_layer_bones layer lm m fbm = Inr fbm' \<Longrightarrow>
     length fbm' = length fbm \<and>
     (\<forall>i < length fbm.
        (\<forall>e \<in> set m. id (snd e) = int i \<longrightarrow> GetBoneLayer (fst e) \<noteq> layer) \<longrightarrow>
        fbm' ! i = fbm ! i)"
proof (induction layer lm m fbm rule: apply_layer_bones.induct)
  case (1 layer layerMatrices fbm)
  then show ?case by simp
next
  case (2 layer layerMatrices boneName boneInfo rest fbm)
  show ?case
  proof (cases "GetBoneLayer boneName = layer \<and> 0 \<le> id boneInfo \<and> id boneInfo < int (length fbm)")
    case True
    from "2.prems" True obtain m where m: "vec_at layerMatrices (id boneInfo) = Inr m"
      by (auto split: sum.splits)
    have rest: "apply_layer_bones layer layerMatrices rest (fbm[nat (id boneInfo) := m]) = Inr fbm'"
      using "2.prems" True m by simp
    note IH = "2.IH"(1)[OF True m rest]
    show ?thesis
    proof (intro conjI allI impI)
      show "length fbm' = length fbm" using IH by simp
    next
      fix i assume i: "i < length fbm"
        and cl: "\<forall>e \<in> set ((boneName, boneInfo) # rest).
                   id (snd e) = int i \<longrightarrow> GetBoneLayer (fst e) \<noteq> layer"
      from cl True have ne: "nat (id boneInfo) \<noteq> i" by auto
      have "fbm' ! i = (fbm[nat (id boneInfo) := m]) ! i" using IH i cl by simp
      then show "fbm' ! i = fbm ! i" using ne by simp
    qed
  next
    case False
    then have rest: "apply_layer_bones layer layerMatrices rest fbm = Inr fbm'"
      using "2.prems" by auto
    show ?thesis using "2.IH"(2)[OF False rest] by simp
  qed
qed

lemma tick_layers_keys:
  "tick_layers h dt layer_keys ls l = map_option (tick_layer h dt) (ls l)"
  by (cases l) (auto simp: layer_keys_def split: option.splits)

lemma apply_layer_bones_frame':
  "apply_layer_bones layer lm m fbm = Inr fbm' \<Longrightarrow> i < length fbm \<Longrightarrow>
     \<not> layer_claims layer m i \<Longrightarrow> fbm' ! i = fbm ! i"
  using apply_layer_bones_frame[of layer lm m fbm fbm']
  by (auto simp: layer_claims_def list_ex_iff)

lemma apply_layers_frame:
  "apply_layers g ks (this, h) = Inr (this', h') \<Longrightarrow>
     frame_w (this, h) (this', h') \<and>
     (\<forall>i < length (finalBoneMatrices this).
        (\<forall>l info p. l \<in> set ks \<and> layers this l = Some info \<and> active info \<and>
            animation info = Some p \<longrightarrow> \<not> layer_claims l (GetBoneIDMap (h p)) i) \<longrightarrow>
        finalBoneMatrices this' ! i = finalBoneMatrices this ! i)"
proof (induction ks arbitrary: this h)
  case Nil
  then show ?case by (simp add: frame_w_refl)
next
  case (Cons layer rest)
  let ?skip = "apply_layers g rest (this, h) = Inr (this', h')"
  have skip_case: ?case if sk: ?skip
    using Cons.IH[OF sk] by auto
  show ?case
  proof (cases "layers this layer")
    case None
    then have ?skip using Cons.prems by simp
    then show ?thesis by (rule skip_case)
  next
    case (Some info)
    show ?thesis
    proof (cases "active info \<and> animation info \<noteq> None")
      case False
      then have ?skip using Cons.prems Some by (auto split: option.splits)
      then show ?thesis by (rule skip_case)
    next
      case True
      then obtain p where p: "animation info = Some p" and act: "active info" by auto
      let ?lm = "replicate (length (finalBoneMatrices this)) (mat4_1 g)"
      from Cons.prems Some p act obtain lm1 h1 where
        walk: "CalculateLayerBoneTransform g this h (GetRootNode (h p)) (mat4_1 g) layer ?lm
                 = Inr (lm1, h1)"
        by (auto simp: Let_def split: sum.splits)
      from Cons.prems Some p act walk obtain fbm1 where
        ov: "apply_layer_bones layer lm1 (GetBoneIDMap (h1 p)) (finalBoneMatrices this) = Inr fbm1"
        by (auto simp: Let_def split: sum.splits)
      have rest: "apply_layers g rest (this\<lparr> finalBoneMatrices := fbm1 \<rparr>, h1) = Inr (this', h')"
        using Cons.prems Some p act walk ov by (simp add: Let_def)
      note IH = Cons.IH[OF rest]
      have fr: "frame h h1" using CalculateLayerBoneTransform_frame(1)[OF walk] by simp
      have len1: "length fbm1 = length (finalBoneMatrices this)"
        using apply_layer_bones_frame[OF ov] by simp
      have fw1: "frame_w (this, h) (this\<lparr> finalBoneMatrices := fbm1 \<rparr>, h1)"
        using fr len1 by (simp add: frame_w_def)
      have maps: "GetBoneIDMap (h1 q) = GetBoneIDMap (h q)" for q
        using frame_fields(3)[OF fr] .
      show ?thesis
      proof (intro conjI allI impI)
        show "frame_w (this, h) (this', h')" using fw1 IH by (blast intro: frame_w_trans)
      next
        fix i assume i: "i < length (finalBoneMatrices this)"
          and cl: "\<forall>l info p. l \<in> set (layer # rest) \<and> layers this l = Some info \<and> active info \<and>
                     animation info = Some p \<longrightarrow> \<not> layer_claims l (GetBoneIDMap (h p)) i"
        have "\<not> layer_claims layer (GetBoneIDMap (h1 p)) i"
          using cl Some act p maps by auto
        then have a: "fbm1 ! i = finalBoneMatrices this ! i"
          using apply_layer_bones_frame'[OF ov i] by simp
        have "\<forall>l info p. l \<in> set rest \<and> layers (this\<lparr> finalBoneMatrices := fbm1 \<rparr>) l = Some info \<and>
                 active info \<and> animation info = Some p \<longrightarrow>
                 \<not> layer_claims l (GetBoneIDMap (h1 p)) i"
          using cl maps by auto
        moreover have "i < length (finalBoneMatrices (this\<lparr> finalBoneMatrices := fbm1 \<rparr>))"
          using i len1 by simp
        ultimately have "finalBoneMatrices this' ! i =
            finalBoneMatrices (this\<lparr> finalBoneMatrices := fbm1 \<rparr>) ! i"
          using IH by blast
        then have "finalBoneMatrices this' ! i = fbm1 ! i" by simp
        then show "finalBoneMatrices this' ! i = finalBoneMatrices this ! i" using a by simp
      qed
    qed
  qed
qed

lemma UpdateAnimation_primary_fields:
  assumes "UpdateAnimation_primary g (this, h) dt = Inr (this', h')"
  shows "frame h h'"
    and "this' = this\<lparr> deltaTime := dt,
            currentTime := (case currentAnimation this of
                None \<Rightarrow> Animator.currentTime this
              | Some p \<Rightarrow> c_fmod (fadd (Animator.currentTime this) (fmul (GetTicksPerSecond (h p)) dt))
                           (GetDuration (h p))),
            layers := tick_layers h dt layer_keys (layers this),
            finalBoneMatrices := finalBoneMatrices this' \<rparr>"
    and "length (finalBoneMatrices this') = length (finalBoneMatrices this)"
proof -
  let ?this4 = "this\<lparr> deltaTime := dt,
            currentTime := (case currentAnimation this of
                None \<Rightarrow> Animator.currentTime this
              | Some p \<Rightarrow> c_fmod (fadd (Animator.currentTime this) (fmul (GetTicksPerSecond (h p)) dt))
                           (GetDuration (h p))),
            layers := tick_layers h dt layer_keys (layers this),
            finalBoneMatrices := replicate (length (finalBoneMatrices this)) (mat4_1 g) \<rparr>"
  have fw: "frame_w (?this4, h) (this', h')"
  proof (cases "currentAnimation this")
    case None
    then have "(this', h') = (?this4, h)"
      using assms by (cases this) (auto simp: UpdateAnimation_primary_def Let_def)
    then show ?thesis by (simp add: frame_w_refl)
  next
    case (Some p)
    then have "CalculateBoneTransform g (?this4, h) (GetRootNode (h p)) (mat4_1 g) = Inr (this', h')"
      using assms by (simp add: UpdateAnimation_primary_def Let_def)
    then show ?thesis by (rule CalculateBoneTransform_frame(1))
  qed
  show "frame h h'" using fw by (simp add: frame_w_def)
  show "length (finalBoneMatrices this') = length (finalBoneMatrices this)"
    using fw by (simp add: frame_w_def)
  have "this' = ?this4\<lparr> finalBoneMatrices := finalBoneMatrices this' \<rparr>"
    using fw by (simp add: frame_w_def)
  then show "this' = this\<lparr> deltaTime := dt,
            currentTime := (case currentAnimation this of
                None \<Rightarrow> Animator.currentTime this
              | Some p \<Rightarrow> c_fmod (fadd (Animator.currentTime this) (fmul (GetTicksPerSecond (h p)) dt))
                           (GetDuration (h p))),
            layers := tick_layers h dt layer_keys (layers this),
            finalBoneMatrices := finalBoneMatrices this' \<rparr>"
    by simp
qed

lemma UpdateAnimation_fields:
  assumes "UpdateAnimation g (this, h) dt = Inr (this', h')"
  shows "frame h h'"
    and "currentAnimation this' = currentAnimation this"
    and "Animator.currentTime this' =
           (case currentAnimation this of
                None \<Rightarrow> Animator.currentTime this
              | Some p \<Rightarrow> c_fmod (fadd (Animator.currentTime this) (fmul (GetTicksPerSecond (h p)) dt))
                           (GetDuration (h p)))"
    and "layers this' = tick_layers h dt layer_keys (layers this)"
    and "boneOverrides this' = boneOverrides this"
    and "deltaTime this' = dt"
    and "length (finalBoneMatrices this') = length (finalBoneMatrices this)"
proof -
  from assms obtain this1 h1 where
    prim: "UpdateAnimation_primary g (this, h) dt = Inr (this1, h1)"
    and lay: "apply_layers g layer_keys (this1, h1) = Inr (this', h')"
    by (auto simp: UpdateAnimation_def split: sum.splits)
  note P = UpdateAnimation_primary_fields[OF prim]
  have fw: "frame_w (this1, h1) (this', h')" using apply_layers_frame[OF lay] by simp
  then have eq: "this' = this1\<lparr> finalBoneMatrices := finalBoneMatrices this' \<rparr>"
    and len: "length (finalBoneMatrices this') = length (finalBoneMatrices this1)"
    and fr: "frame h1 h'"
    by (simp_all add: frame_w_def)
  show "frame h h'" using P(1) fr by (rule frame_trans)
  have f1: "currentAnimation this1 = currentAnimation this"
    "Animator.currentTime this1 = (case currentAnimation this of
                None \<Rightarrow> Animator.currentTime this
              | Some p \<Rightarrow> c_fmod (fadd (Animator.currentTime this) (fmul (GetTicksPerSecond (h p)) dt))
                           (GetDuration (h p)))"
    "layers this1 = tick_layers h dt layer_keys (layers this)"
    "boneOverrides this1 = boneOverrides this"
    "deltaTime this1 = dt"
    by (subst P(2), simp)+
  have f2: "currentAnimation this' = currentAnimation this1"
    "Animator.currentTime this' = Animator.currentTime this1"
    "layers this' = layers this1"
    "boneOverrides this' = boneOverrides this1"
    "deltaTime this' = deltaTime this1"
    by (subst eq, simp)+
  show "currentAnimation this' = currentAnimation this" using f1 f2 by simp
  show "Animator.currentTime this' =
           (case currentAnimation this of
                None \<Rightarrow> Animator.currentTime this
              | Some p \<Rightarrow> c_fmod (fadd (Animator.currentTime this) (fmul (GetTicksPerSecond (h p)) dt))
                           (GetDuration (h p)))" using f1 f2 by simp
  show "layers this' = tick_layers h dt layer_keys (layers this)" using f1 f2 by simp
  show "boneOverrides this' = boneOverrides this" using f1 f2 by simp
  show "deltaTime this' = dt" using f1 f2 by simp
  show "length (finalBoneMatrices this') = length (finalBoneMatrices this)" using len P(3) by simp
qed


section \<open>A tick returns\<close>

lemma channel_ok_index:
  assumes "channel_ok ts n t" "n \<noteq> 1"
  shows "\<exists>k. GetIndex_loop ts n t 0 = Inr k \<and> 0 \<le> k \<and> k + 1 < int (length ts)"
proof -
  from assms obtain s where s: "s \<in> set (tl ts)" "t < s" and n: "n = int (length ts)"
    by (auto simp: channel_ok_def)
  from s(1) obtain j where j: "j < length (tl ts)" "tl ts ! j = s" by (auto simp: in_set_conv_nth)
  then have "ts ! Suc j = s" "Suc j < length ts" by (auto simp: nth_tl)
  then have "\<exists>j. 0 < j \<and> j < n \<and> t < ts ! nat j"
    using s(2) n by (intro exI[of _ "int j + 1"]) (auto simp: nat_add_distrib)
  from GetIndex_loop_found[OF n _ this] show ?thesis using n by auto
qed

lemma InterpolatePosition_ok:
  assumes "channel_ok (map KeyPosition.timeStamp (positions b)) (numPositions b) t"
  shows "\<exists>m. InterpolatePosition g b t = Inr m"
proof (cases "numPositions b = 1")
  case True
  then show ?thesis using assms
    by (auto simp: InterpolatePosition_def channel_ok_def vec_at_def)
next
  case False
  from channel_ok_index[OF assms False] obtain k where
    k: "GetPositionIndex b t = Inr k" "0 \<le> k" "k + 1 < int (length (positions b))"
    by (auto simp: GetPositionIndex_def)
  then show ?thesis using False
    by (simp add: InterpolatePosition_def vec_at_def Let_def)
qed

lemma InterpolateRotation_ok:
  assumes "channel_ok (map KeyRotation.timeStamp (rotations b)) (numRotations b) t"
  shows "\<exists>m. InterpolateRotation g b t = Inr m"
proof (cases "numRotations b = 1")
  case True
  then show ?thesis using assms
    by (auto simp: InterpolateRotation_def channel_ok_def vec_at_def)
next
  case False
  from channel_ok_index[OF assms False] obtain k where
    k: "GetRotationIndex b t = Inr k" "0 \<le> k" "k + 1 < int (length (rotations b))"
    by (auto simp: GetRotationIndex_def)
  then show ?thesis using False
    by (simp add: InterpolateRotation_def vec_at_def Let_def)
qed

lemma InterpolateScaling_ok:
  assumes "channel_ok (map KeyScale.timeStamp (scales b)) (numScalings b) t"
  shows "\<exists>m. InterpolateScaling g b t = Inr m"
proof (cases "numScalings b = 1")
  case True
  then show ?thesis using assms
    by (auto simp: InterpolateScaling_def channel_ok_def vec_at_def)
next
  case False
  from channel_ok_index[OF assms False] obtain k where
    k: "GetScaleIndex b t = Inr k" "0 \<le> k" "k + 1 < int (length (scales b))"
    by (auto simp: GetScaleIndex_def)
  then show ?thesis using False
    by (simp add: InterpolateScaling_def vec_at_def Let_def)
qed

lemma Update_ok:
  assumes "bone_ok b t"
  shows "\<exists>m. Update g b t = Inr (b\<lparr> localTransform := m \<rparr>)"
proof -
  from assms obtain T R S where
    "InterpolatePosition g b t = Inr T" "InterpolateRotation g b t = Inr R"
    "InterpolateScaling g b t = Inr S"
    using InterpolatePosition_ok InterpolateRotation_ok InterpolateScaling_ok
    unfolding bone_ok_def by metis
  then have "Update g b t = Inr (b\<lparr> localTransform := mat_mul g (mat_mul g T R) S \<rparr>)"
    by (simp add: Update_def)
  then show ?thesis by blast
qed

lemma bone_ok_same_keys: "same_keys b b' \<Longrightarrow> bone_ok b' t = bone_ok b t"
proof -
  assume "same_keys b b'"
  then have e: "b = b'\<lparr> localTransform := localTransform b \<rparr>" by (simp add: same_keys_def)
  show ?thesis by (subst e) (simp add: bone_ok_def)
qed

lemma frame_bones_ok:
  assumes "frame h h'" "\<forall>b \<in> set (bones (h p)). bone_ok b t"
  shows "\<forall>b \<in> set (bones (h' p)). bone_ok b t"
proof
  fix b' assume "b' \<in> set (bones (h' p))"
  then obtain i where i: "i < length (bones (h' p))" "b' = bones (h' p) ! i"
    by (auto simp: in_set_conv_nth)
  have l: "list_all2 same_keys (bones (h p)) (bones (h' p))"
    using assms(1) by (simp add: frame_def)
  have "length (bones (h p)) = length (bones (h' p))" using l by (rule list_all2_lengthD)
  then have "bones (h p) ! i \<in> set (bones (h p))" using i by simp
  moreover have "same_keys (bones (h p) ! i) b'" using l i by (simp add: list_all2_nthD2)
  ultimately show "bone_ok b' t" using assms(2) bone_ok_same_keys by blast
qed

lemma clip_ok_pres:
  assumes "frame h h'" "clip_ok (h p) t"
  shows "clip_ok (h' p) t"
proof -
  have "rootNode (h' p) = rootNode (h p)"
    using frame_fields(4)[OF assms(1)] by (simp add: GetRootNode_def)
  moreover have "\<forall>b \<in> set (bones (h p)). bone_ok b t"
    using assms(2) by (simp add: clip_ok_def)
  then have "\<forall>b \<in> set (bones (h' p)). bone_ok b t"
    by (rule frame_bones_ok[OF assms(1)])
  ultimately show ?thesis using assms(2) by (simp add: clip_ok_def)
qed

lemma node_local_ok:
  assumes "\<forall>b \<in> set (bones (h p)). bone_ok b t"
  shows "\<exists>m h1. node_local g h p node t = Inr (m, h1)"
proof (cases "FindBone (h p) (AssimpNodeData.name node)")
  case None
  then show ?thesis by (simp add: node_local_def)
next
  case (Some kb)
  obtain k bone where kb: "kb = (k, bone)" by (cases kb)
  from FindBone_Some[OF Some[unfolded kb]] have "bone \<in> set (bones (h p))" by auto
  then obtain m where u: "Update g bone t = Inr (bone\<lparr> localTransform := m \<rparr>)"
    using assms Update_ok by blast
  then show ?thesis using Some kb by (auto simp: node_local_def)
qed

lemma tree_ok_child:
  "tree_ok node \<Longrightarrow> 0 \<le> i \<Longrightarrow> i < childrenCount node \<Longrightarrow>
     \<exists>c. vec_at (children node) i = Inr c \<and> tree_ok c"
  by (cases node) (auto simp: vec_at_def)

lemma CalculateBoneTransform_ok:
  "currentAnimation (fst w) = Some p \<Longrightarrow>
     \<forall>b \<in> set (bones (snd w p)). bone_ok b (Animator.currentTime (fst w)) \<Longrightarrow>
     tree_ok node \<Longrightarrow>
     \<exists>w'. CalculateBoneTransform g w node P = Inr w'"
  "currentAnimation (fst w) = Some p \<Longrightarrow>
     \<forall>b \<in> set (bones (snd w p)). bone_ok b (Animator.currentTime (fst w)) \<Longrightarrow>
     tree_ok node \<Longrightarrow> 0 \<le> i \<Longrightarrow>
     \<exists>w'. CalculateBoneTransform_children g w node G i = Inr w'"
proof (induction g w node P and g w node G i
    rule: CalculateBoneTransform_CalculateBoneTransform_children.induct)
  case (1 g this h node parentTransform)
  have p: "currentAnimation this = Some p" using "1.prems"(1) by simp
  have ok: "\<forall>b \<in> set (bones (h p)). bone_ok b (Animator.currentTime this)"
    using "1.prems"(2) by simp
  from node_local_ok[where h=h and p=p, OF ok] obtain m h1 where
    nl: "node_local g h p node (Animator.currentTime this) = Inr (m, h1)"
    by blast
  have fr: "frame h h1" using nl by (rule node_local_frame)
  let ?it = "map_of (GetBoneIDMap (h1 p)) (AssimpNodeData.name node)"
  let ?m1 = "(case ?it of None \<Rightarrow> m
            | Some info \<Rightarrow>
                if 0 \<le> BoneInfo.id info \<and>
                   BoneInfo.id info < int (length (finalBoneMatrices this))
                then case boneOverrides this (BoneInfo.id info) of None \<Rightarrow> m
                     | Some overrideTransform \<Rightarrow> mat_mul g overrideTransform m
                else m)"
  let ?G = "mat_mul g parentTransform ?m1"
  let ?this1 = "(case ?it of None \<Rightarrow> this
            | Some info \<Rightarrow>
                if 0 \<le> BoneInfo.id info \<and>
                   BoneInfo.id info < int (length (finalBoneMatrices this))
                then this\<lparr>finalBoneMatrices := (finalBoneMatrices this)
                        [nat (BoneInfo.id info) := mat_mul g ?G (offset info)]\<rparr>
                else this)"
  have eq: "CalculateBoneTransform g (this, h) node parentTransform =
            CalculateBoneTransform_children g (?this1, h1) node ?G 0"
    using p nl by (simp add: CalculateBoneTransform.simps Let_def)
  have p1: "currentAnimation (fst (?this1, h1)) = Some p"
    using p by (simp split: option.splits)
  have t1: "Animator.currentTime ?this1 = Animator.currentTime this"
    by (simp split: option.splits)
  have ok1: "\<forall>b \<in> set (bones (snd (?this1, h1) p)). bone_ok b (Animator.currentTime (fst (?this1, h1)))"
    using frame_bones_ok[OF fr ok] t1 by simp
  from "1.IH"[OF p nl refl refl refl refl refl p1 ok1 "1.prems"(3)]
  show ?case using eq by simp
next
  case (2 g w node globalTransformation i)
  show ?case
  proof (cases "i < childrenCount node")
    case True
    from tree_ok_child[OF "2.prems"(3,4) True] obtain child where
      c: "vec_at (children node) i = Inr child" and tc: "tree_ok child" by blast
    from "2.IH"(1)[OF True c "2.prems"(1,2) tc] obtain w1 where
      w1: "CalculateBoneTransform g w child globalTransformation = Inr w1" by blast
    have fw: "frame_w w w1" using CalculateBoneTransform_frame(1)[OF w1] .
    then have e: "fst w1 = (fst w)\<lparr> finalBoneMatrices := finalBoneMatrices (fst w1) \<rparr>"
      and fr: "frame (snd w) (snd w1)"
      by (simp_all add: frame_w_def)
    have p1: "currentAnimation (fst w1) = Some p"
      by (subst e) (simp add: "2.prems"(1))
    have t1: "Animator.currentTime (fst w1) = Animator.currentTime (fst w)"
      by (subst e) simp
    have ok1: "\<forall>b \<in> set (bones (snd w1 p)). bone_ok b (Animator.currentTime (fst w1))"
      using frame_bones_ok[OF fr "2.prems"(2)] t1 by simp
    have i1: "0 \<le> i + 1" using "2.prems"(4) by simp
    from "2.IH"(2)[OF True c w1 p1 ok1 "2.prems"(3) i1] obtain w' where
      "CalculateBoneTransform_children g w1 node globalTransformation (i + 1) = Inr w'" by blast
    then show ?thesis using True c w1
      by (subst CalculateBoneTransform_children.simps) simp
  next
    case False
    then show ?thesis
      by (simp add: CalculateBoneTransform_children.simps)
  qed
qed

lemma CalculateLayerBoneTransform_ok:
  "animation (layer_entry this layer) = Some p \<Longrightarrow>
     \<forall>b \<in> set (bones (h p)). bone_ok b (LayerInfo.currentTime (layer_entry this layer)) \<Longrightarrow>
     tree_ok node \<Longrightarrow>
     \<exists>r. CalculateLayerBoneTransform g this h node P layer lm = Inr r"
  "animation (layer_entry this layer) = Some p \<Longrightarrow>
     \<forall>b \<in> set (bones (h p)). bone_ok b (LayerInfo.currentTime (layer_entry this layer)) \<Longrightarrow>
     tree_ok node \<Longrightarrow> 0 \<le> i \<Longrightarrow>
     \<exists>r. CalculateLayerBoneTransform_children g this h node G layer lm i = Inr r"
proof (induction g this h node P layer lm and g this h node G layer lm i
    rule: CalculateLayerBoneTransform_CalculateLayerBoneTransform_children.induct)
  case (1 g this h node parentTransform layer layerMatrices)
  note p = "1.prems"(1)
  from node_local_ok[where h=h and p=p, OF "1.prems"(2)] obtain m h1 where
    nl: "node_local g h p node (LayerInfo.currentTime (layer_entry this layer)) = Inr (m, h1)"
    by blast
  have fr: "frame h h1" using nl by (rule node_local_frame)
  let ?G = "mat_mul g parentTransform m"
  let ?it = "map_of (GetBoneIDMap (h1 p)) (AssimpNodeData.name node)"
  let ?lm1 = "(case ?it of None \<Rightarrow> layerMatrices
            | Some boneInfo \<Rightarrow>
                if GetBoneLayer (AssimpNodeData.name node) = layer \<and>
                   0 \<le> BoneInfo.id boneInfo \<and>
                   BoneInfo.id boneInfo < int (length layerMatrices)
                then layerMatrices
                     [nat (BoneInfo.id boneInfo) := mat_mul g ?G (offset boneInfo)]
                else layerMatrices)"
  have eq: "CalculateLayerBoneTransform g this h node parentTransform layer layerMatrices =
            CalculateLayerBoneTransform_children g this h1 node ?G layer ?lm1 0"
    using p nl by (simp add: CalculateLayerBoneTransform.simps Let_def)
  have ok1: "\<forall>b \<in> set (bones (h1 p)). bone_ok b (LayerInfo.currentTime (layer_entry this layer))"
    using frame_bones_ok[OF fr "1.prems"(2)] .
  from "1.IH"[OF refl p nl refl refl refl refl p ok1 "1.prems"(3)]
  show ?case using eq by simp
next
  case (2 g this h node globalTransformation layer layerMatrices i)
  show ?case
  proof (cases "i < childrenCount node")
    case True
    from tree_ok_child[OF "2.prems"(3,4) True] obtain child where
      c: "vec_at (children node) i = Inr child" and tc: "tree_ok child" by blast
    from "2.IH"(1)[OF True c "2.prems"(1,2) tc] obtain lm1 h1 where
      w1: "CalculateLayerBoneTransform g this h child globalTransformation layer layerMatrices
             = Inr (lm1, h1)"
      by fastforce
    have fr: "frame h h1" using CalculateLayerBoneTransform_frame(1)[OF w1] by simp
    have ok1: "\<forall>b \<in> set (bones (h1 p)). bone_ok b (LayerInfo.currentTime (layer_entry this layer))"
      using frame_bones_ok[OF fr "2.prems"(2)] .
    have i1: "0 \<le> i + 1" using "2.prems"(4) by simp
    from "2.IH"(2)[OF True c w1 refl "2.prems"(1) ok1 "2.prems"(3) i1] obtain r where
      "CalculateLayerBoneTransform_children g this h1 node globalTransformation layer lm1 (i + 1)
         = Inr r"
      by blast
    then show ?thesis using True c w1
      by (subst CalculateLayerBoneTransform_children.simps) simp
  next
    case False
    then show ?thesis
      by (simp add: CalculateLayerBoneTransform_children.simps)
  qed
qed

lemma apply_layer_bones_ok:
  "length lm = length fbm \<Longrightarrow> \<exists>fbm'. apply_layer_bones layer lm m fbm = Inr fbm'"
proof (induction layer lm m fbm rule: apply_layer_bones.induct)
  case (1 layer layerMatrices fbm)
  then show ?case by simp
next
  case (2 layer layerMatrices boneName boneInfo rest fbm)
  show ?case
  proof (cases "GetBoneLayer boneName = layer \<and> 0 \<le> id boneInfo \<and> id boneInfo < int (length fbm)")
    case True
    then have rd: "vec_at layerMatrices (id boneInfo) = Inr (layerMatrices ! nat (id boneInfo))"
      using "2.prems" by (simp add: vec_at_def)
    from "2.IH"(1)[OF True rd] "2.prems" show ?thesis using True rd by simp
  next
    case False
    from "2.IH"(2)[OF False "2.prems"] show ?thesis using False by auto
  qed
qed

lemma layer_ok_pres:
  assumes "frame h h'" "layer_ok h info"
  shows "layer_ok h' info"
  using assms clip_ok_pres unfolding layer_ok_def by (auto split: option.splits)

lemma apply_layers_ok:
  "(\<forall>l \<in> set ks. case layers this l of None \<Rightarrow> True | Some info \<Rightarrow> layer_ok h info) \<Longrightarrow>
     \<exists>w'. apply_layers g ks (this, h) = Inr w'"
proof (induction ks arbitrary: this h)
  case Nil
  then show ?case by simp
next
  case (Cons layer rest)
  have restok: "\<forall>l \<in> set rest. case layers this l of None \<Rightarrow> True | Some info \<Rightarrow> layer_ok h info"
    using Cons.prems by simp
  show ?case
  proof (cases "layers this layer")
    case None
    then show ?thesis using Cons.IH[OF restok] by simp
  next
    case (Some info)
    show ?thesis
    proof (cases "active info \<and> animation info \<noteq> None")
      case False
      then show ?thesis using Cons.IH[OF restok] Some by (auto split: option.splits)
    next
      case True
      then obtain p where p: "animation info = Some p" and act: "active info" by auto
      have le: "layer_entry this layer = info" using Some by (simp add: layer_entry_def)
      have "layer_ok h info" using Cons.prems Some by simp
      then have ok: "clip_ok (h p) (LayerInfo.currentTime info)"
        using p act by (simp add: layer_ok_def)
      let ?lm = "replicate (length (finalBoneMatrices this)) (mat4_1 g)"
      have "\<exists>r. CalculateLayerBoneTransform g this h (GetRootNode (h p)) (mat4_1 g) layer ?lm
                = Inr r"
        using ok p le
        by (intro CalculateLayerBoneTransform_ok(1)[where p = p])
           (simp_all add: clip_ok_def GetRootNode_def)
      then obtain lm1 h1 where
        walk: "CalculateLayerBoneTransform g this h (GetRootNode (h p)) (mat4_1 g) layer ?lm
                 = Inr (lm1, h1)" by fastforce
      have fr: "frame h h1" and len: "length lm1 = length (finalBoneMatrices this)"
        using CalculateLayerBoneTransform_frame(1)[OF walk] by simp_all
      from apply_layer_bones_ok[OF len] obtain fbm1 where
        ov: "apply_layer_bones layer lm1 (GetBoneIDMap (h1 p)) (finalBoneMatrices this) = Inr fbm1"
        by blast
      have "\<forall>l \<in> set rest. case layers (this\<lparr> finalBoneMatrices := fbm1 \<rparr>) l of
               None \<Rightarrow> True | Some info \<Rightarrow> layer_ok h1 info"
        using restok layer_ok_pres[OF fr] by (auto split: option.splits)
      from Cons.IH[OF this] obtain w' where
        "apply_layers g rest (this\<lparr> finalBoneMatrices := fbm1 \<rparr>, h1) = Inr w'" by blast
      then show ?thesis using Some p act walk ov by (simp add: Let_def)
    qed
  qed
qed

lemma UpdateAnimation_primary_ok:
  assumes "update_ok (this, h) dt"
  shows "\<exists>w1. UpdateAnimation_primary g (this, h) dt = Inr w1"
proof (cases "currentAnimation this")
  case None
  then show ?thesis by (simp add: UpdateAnimation_primary_def Let_def)
next
  case (Some p)
  let ?t = "c_fmod (fadd (Animator.currentTime this) (fmul (GetTicksPerSecond (h p)) dt)) (GetDuration (h p))"
  let ?this4 = "this\<lparr> deltaTime := dt, currentTime := ?t,
            layers := tick_layers h dt layer_keys (layers this),
            finalBoneMatrices := replicate (length (finalBoneMatrices this)) (mat4_1 g) \<rparr>"
  have ok: "clip_ok (h p) ?t" using assms Some by (simp add: update_ok_def)
  have "\<exists>w'. CalculateBoneTransform g (?this4, h) (GetRootNode (h p)) (mat4_1 g) = Inr w'"
    using ok Some
    by (intro CalculateBoneTransform_ok(1)[where p = p]) (simp_all add: clip_ok_def GetRootNode_def)
  then show ?thesis using Some
    by (simp add: UpdateAnimation_primary_def Let_def)
qed

lemma UpdateAnimation_ok:
  assumes "update_ok w dt"
  shows "\<exists>w'. UpdateAnimation g w dt = Inr w'"
proof -
  obtain this h where w: "w = (this, h)" by (cases w)
  from UpdateAnimation_primary_ok[OF assms[unfolded w]] obtain this1 h1 where
    prim: "UpdateAnimation_primary g (this, h) dt = Inr (this1, h1)"
    by fastforce
  note P = UpdateAnimation_primary_fields[OF prim]
  have l1: "layers this1 = tick_layers h dt layer_keys (layers this)"
    by (subst P(2)) simp
  have "\<forall>l \<in> set layer_keys. case layers this1 l of None \<Rightarrow> True | Some info \<Rightarrow> layer_ok h1 info"
  proof
    fix l assume l: "l \<in> set layer_keys"
    show "case layers this1 l of None \<Rightarrow> True | Some info \<Rightarrow> layer_ok h1 info"
    proof (cases "layers this l")
      case None
      then show ?thesis by (simp add: l1 tick_layers_keys)
    next
      case (Some info)
      then have "layer_ok h (tick_layer h dt info)"
        using assms l unfolding w update_ok_def by (auto split: option.splits)
      then have "layer_ok h1 (tick_layer h dt info)" by (rule layer_ok_pres[OF P(1)])
      then show ?thesis using Some by (simp add: l1 tick_layers_keys)
    qed
  qed
  from apply_layers_ok[OF this] obtain w' where "apply_layers g layer_keys (this1, h1) = Inr w'"
    by blast
  then show ?thesis using prim by (simp add: UpdateAnimation_def w)
qed


section \<open>Layer times\<close>

lemma UpdateAnimation_layer:
  assumes "UpdateAnimation g (this, h) dt = Inr (this', h')"
  shows "layers this' layer = map_option (tick_layer h dt) (layers this layer)"
  using UpdateAnimation_fields(4)[OF assms] by (simp add: tick_layers_keys)

lemma one_shot_step:
  assumes "UpdateAnimation g (this, h) dt = Inr (this', h')"
    and "layers this layer = Some info" "active info" "animation info = Some p"
  shows "(\<not> looping info \<and>
            GetDuration (h p)
              \<le> fadd (LayerInfo.currentTime info) (fmul (GetTicksPerSecond (h p)) dt) \<longrightarrow>
          layers this' layer =
            Some (info\<lparr> LayerInfo.currentTime := 0, active := False, animation := None \<rparr>)) \<and>
         (\<not> looping info \<and>
            fadd (LayerInfo.currentTime info) (fmul (GetTicksPerSecond (h p)) dt)
              < GetDuration (h p) \<longrightarrow>
          layers this' layer =
            Some (info\<lparr> LayerInfo.currentTime :=
                         fadd (LayerInfo.currentTime info)
                           (fmul (GetTicksPerSecond (h p)) dt) \<rparr>)) \<and>
         (looping info \<longrightarrow>
          layers this' layer =
            Some (info\<lparr> LayerInfo.currentTime :=
                         c_fmod (fadd (LayerInfo.currentTime info)
                                   (fmul (GetTicksPerSecond (h p)) dt))
                           (GetDuration (h p)) \<rparr>))"
  using assms(2-4) unfolding UpdateAnimation_layer[OF assms(1)]
  by (auto simp: tick_layer_def Let_def)

lemma accumulate_snoc:
  "accumulate tps t (dts @ [dt]) = fadd (accumulate tps t dts) (fmul tps dt)"
  by (induction dts arbitrary: t) simp_all

lemma one_shot_run:
  assumes "UpdateAnimation_seq g (this, h) dts = Inr (this', h')"
    and "layers this layer = Some info" "active info" "animation info = Some p" "\<not> looping info"
    and "\<forall>k. 1 \<le> k \<and> k \<le> length dts \<longrightarrow>
           accumulate (GetTicksPerSecond (h p)) (LayerInfo.currentTime info) (take k dts)
             < GetDuration (h p)"
  shows "layers this' layer =
           Some (info\<lparr> LayerInfo.currentTime :=
                        accumulate (GetTicksPerSecond (h p)) (LayerInfo.currentTime info) dts \<rparr>) \<and>
         frame h h'"
  using assms
proof (induction dts arbitrary: this h info)
  case Nil
  then show ?case by (simp add: frame_refl)
next
  case (Cons dt dts)
  from Cons.prems(1) obtain this1 h1 where
    u: "UpdateAnimation g (this, h) dt = Inr (this1, h1)"
    and r: "UpdateAnimation_seq g (this1, h1) dts = Inr (this', h')"
    by (auto split: sum.splits)
  let ?t1 = "fadd (LayerInfo.currentTime info) (fmul (GetTicksPerSecond (h p)) dt)"
  have "?t1 < GetDuration (h p)" using Cons.prems(6)[rule_format, of 1] by simp
  then have l1: "layers this1 layer = Some (info\<lparr> LayerInfo.currentTime := ?t1 \<rparr>)"
    using one_shot_step[OF u Cons.prems(2,3,4)] Cons.prems(5) by simp
  have fr: "frame h h1" using UpdateAnimation_fields(1)[OF u] .
  have f: "GetTicksPerSecond (h1 p) = GetTicksPerSecond (h p)" "GetDuration (h1 p) = GetDuration (h p)"
    using frame_fields[OF fr] by simp_all
  have b: "\<forall>k. 1 \<le> k \<and> k \<le> length dts \<longrightarrow>
           accumulate (GetTicksPerSecond (h1 p))
             (LayerInfo.currentTime (info\<lparr> LayerInfo.currentTime := ?t1 \<rparr>)) (take k dts)
             < GetDuration (h1 p)"
  proof (intro allI impI)
    fix k assume "1 \<le> k \<and> k \<le> length dts"
    then have "accumulate (GetTicksPerSecond (h p)) (LayerInfo.currentTime info)
                 (take (Suc k) (dt # dts)) < GetDuration (h p)"
      using Cons.prems(6)[rule_format, of "Suc k"] by simp
    then show "accumulate (GetTicksPerSecond (h1 p))
             (LayerInfo.currentTime (info\<lparr> LayerInfo.currentTime := ?t1 \<rparr>)) (take k dts)
             < GetDuration (h1 p)"
      by (simp add: f)
  qed
  from Cons.IH[OF r l1 _ _ _ b] Cons.prems(3,4,5)
  have "layers this' layer =
           Some (info\<lparr> LayerInfo.currentTime :=
                        accumulate (GetTicksPerSecond (h1 p)) ?t1 dts \<rparr>)"
    and "frame h1 h'" by simp_all
  then show ?case using fr frame_trans by (auto simp: f)
qed

text \<open>
  Claim C5. An active secondary layer with a clip \<open>p\<close> of duration \<open>D\<close>, in a tick that
  returns. The layer's time is advanced in the program's arithmetic, to
  \<open>fadd currentTime (fmul ticksPerSecond dt)\<close>, the sum and the product each rounded to
  binary32; \<open>ticks_finite\<close> says that neither overflows. When the layer does not loop and
  the advanced time reaches or exceeds \<open>D\<close>, the layer's entry after the tick has \<open>active\<close>
  false, no clip and the time 0; when it stays below \<open>D\<close> the entry only has the time
  advanced. When the layer loops, the entry after the tick differs from the entry before
  at most in the time, so the layer keeps its clip and its flag, and for \<open>D \<noteq> 0\<close> the time
  is the advanced time wrapped by \<open>fmod\<close> against \<open>D\<close>. Over a sequence of ticks \<open>dts\<close>
  whose accumulated times all stay below \<open>D\<close>, followed by a tick \<open>dt\<close> with which the
  accumulated time reaches \<open>D\<close>, the layer is still playing before the last tick and idle
  after it, so the last tick is the first one that ends the clip.
\<close>

theorem C5_one_shot_ends:
  assumes "layers this layer = Some info" "active info" "animation info = Some p"
  shows
    "(UpdateAnimation g (this, h) dt = Inr (this', h') \<and> \<not> looping info \<and>
        ticks_finite (GetTicksPerSecond (h p)) (LayerInfo.currentTime info) [dt] \<and>
        GetDuration (h p)
          \<le> fadd (LayerInfo.currentTime info) (fmul (GetTicksPerSecond (h p)) dt) \<longrightarrow>
      layers this' layer =
        Some (info\<lparr> LayerInfo.currentTime := 0, active := False, animation := None \<rparr>)) \<and>
     (UpdateAnimation g (this, h) dt = Inr (this', h') \<and> \<not> looping info \<and>
        ticks_finite (GetTicksPerSecond (h p)) (LayerInfo.currentTime info) [dt] \<and>
        fadd (LayerInfo.currentTime info) (fmul (GetTicksPerSecond (h p)) dt)
          < GetDuration (h p) \<longrightarrow>
      layers this' layer =
        Some (info\<lparr> LayerInfo.currentTime :=
                     fadd (LayerInfo.currentTime info) (fmul (GetTicksPerSecond (h p)) dt) \<rparr>)) \<and>
     (UpdateAnimation g (this, h) dt = Inr (this', h') \<and> looping info \<longrightarrow>
      (\<exists>t. layers this' layer = Some (info\<lparr> LayerInfo.currentTime := t \<rparr>)) \<and>
      (ticks_finite (GetTicksPerSecond (h p)) (LayerInfo.currentTime info) [dt] \<and>
       GetDuration (h p) \<noteq> 0 \<longrightarrow>
       layers this' layer =
         Some (info\<lparr> LayerInfo.currentTime :=
                      c_fmod (fadd (LayerInfo.currentTime info)
                                (fmul (GetTicksPerSecond (h p)) dt))
                        (GetDuration (h p)) \<rparr>))) \<and>
     (UpdateAnimation_seq g (this, h) dts = Inr (this_a, h_a) \<and>
      UpdateAnimation g (this_a, h_a) dt = Inr (this_b, h_b) \<and> \<not> looping info \<and>
      ticks_finite (GetTicksPerSecond (h p)) (LayerInfo.currentTime info) (dts @ [dt]) \<and>
      (\<forall>k. 1 \<le> k \<and> k \<le> length dts \<longrightarrow>
           accumulate (GetTicksPerSecond (h p)) (LayerInfo.currentTime info) (take k dts)
             < GetDuration (h p)) \<and>
      GetDuration (h p)
        \<le> accumulate (GetTicksPerSecond (h p)) (LayerInfo.currentTime info) (dts @ [dt]) \<longrightarrow>
      layers this_a layer =
        Some (info\<lparr> LayerInfo.currentTime :=
                     accumulate (GetTicksPerSecond (h p)) (LayerInfo.currentTime info) dts \<rparr>) \<and>
      layers this_b layer =
        Some (info\<lparr> LayerInfo.currentTime := 0, active := False, animation := None \<rparr>))"
proof (intro conjI impI)
  assume a: "UpdateAnimation g (this, h) dt = Inr (this', h') \<and> \<not> looping info \<and>
        ticks_finite (GetTicksPerSecond (h p)) (LayerInfo.currentTime info) [dt] \<and>
        GetDuration (h p)
          \<le> fadd (LayerInfo.currentTime info) (fmul (GetTicksPerSecond (h p)) dt)"
  then show "layers this' layer =
        Some (info\<lparr> LayerInfo.currentTime := 0, active := False, animation := None \<rparr>)"
    using one_shot_step[OF _ assms, of g h dt this' h'] by simp
next
  assume a: "UpdateAnimation g (this, h) dt = Inr (this', h') \<and> \<not> looping info \<and>
        ticks_finite (GetTicksPerSecond (h p)) (LayerInfo.currentTime info) [dt] \<and>
        fadd (LayerInfo.currentTime info) (fmul (GetTicksPerSecond (h p)) dt)
          < GetDuration (h p)"
  then show "layers this' layer =
        Some (info\<lparr> LayerInfo.currentTime :=
                     fadd (LayerInfo.currentTime info) (fmul (GetTicksPerSecond (h p)) dt) \<rparr>)"
    using one_shot_step[OF _ assms, of g h dt this' h'] by simp
next
  assume a: "UpdateAnimation g (this, h) dt = Inr (this', h') \<and> looping info"
  then have "layers this' layer =
        Some (info\<lparr> LayerInfo.currentTime :=
                     c_fmod (fadd (LayerInfo.currentTime info)
                               (fmul (GetTicksPerSecond (h p)) dt))
                       (GetDuration (h p)) \<rparr>)"
    using one_shot_step[OF _ assms, of g h dt this' h'] by simp
  then show "\<exists>t. layers this' layer = Some (info\<lparr> LayerInfo.currentTime := t \<rparr>)"
    by blast
next
  assume a: "UpdateAnimation g (this, h) dt = Inr (this', h') \<and> looping info"
  then show "layers this' layer =
        Some (info\<lparr> LayerInfo.currentTime :=
                     c_fmod (fadd (LayerInfo.currentTime info)
                               (fmul (GetTicksPerSecond (h p)) dt))
                       (GetDuration (h p)) \<rparr>)"
    using one_shot_step[OF _ assms, of g h dt this' h'] by simp
next
  assume a: "UpdateAnimation_seq g (this, h) dts = Inr (this_a, h_a) \<and>
      UpdateAnimation g (this_a, h_a) dt = Inr (this_b, h_b) \<and> \<not> looping info \<and>
      ticks_finite (GetTicksPerSecond (h p)) (LayerInfo.currentTime info) (dts @ [dt]) \<and>
      (\<forall>k. 1 \<le> k \<and> k \<le> length dts \<longrightarrow>
           accumulate (GetTicksPerSecond (h p)) (LayerInfo.currentTime info) (take k dts)
             < GetDuration (h p)) \<and>
      GetDuration (h p)
        \<le> accumulate (GetTicksPerSecond (h p)) (LayerInfo.currentTime info) (dts @ [dt])"
  then have run: "UpdateAnimation_seq g (this, h) dts = Inr (this_a, h_a)"
    and u: "UpdateAnimation g (this_a, h_a) dt = Inr (this_b, h_b)" and nl: "\<not> looping info"
    and below: "\<forall>k. 1 \<le> k \<and> k \<le> length dts \<longrightarrow>
           accumulate (GetTicksPerSecond (h p)) (LayerInfo.currentTime info) (take k dts)
             < GetDuration (h p)"
    and reach: "GetDuration (h p)
        \<le> accumulate (GetTicksPerSecond (h p)) (LayerInfo.currentTime info) (dts @ [dt])"
    by simp_all
  let ?i1 = "info\<lparr> LayerInfo.currentTime :=
                     accumulate (GetTicksPerSecond (h p)) (LayerInfo.currentTime info) dts \<rparr>"
  from one_shot_run[OF run assms nl below]
  have l1: "layers this_a layer = Some ?i1" and fr: "frame h h_a" by simp_all
  have f: "GetTicksPerSecond (h_a p) = GetTicksPerSecond (h p)" "GetDuration (h_a p) = GetDuration (h p)"
    using frame_fields[OF fr] by simp_all
  have "GetDuration (h_a p)
          \<le> fadd (LayerInfo.currentTime ?i1) (fmul (GetTicksPerSecond (h_a p)) dt)"
    using reach by (simp add: f accumulate_snoc)
  then have "layers this_b layer =
      Some (?i1\<lparr> LayerInfo.currentTime := 0, active := False, animation := None \<rparr>)"
    using one_shot_step[OF u l1, of p] assms nl by simp
  then show "layers this_a layer = Some ?i1"
    and "layers this_b layer =
        Some (info\<lparr> LayerInfo.currentTime := 0, active := False, animation := None \<rparr>)"
    using l1 by simp_all
qed

lemma tick_layer_frame: "frame h h' \<Longrightarrow> tick_layer h' dt info = tick_layer h dt info"
  using frame_fields(1,2)[of h h'] by (simp add: tick_layer_def Let_def split: option.splits)

lemma tick_layers_frame:
  "frame h h' \<Longrightarrow> tick_layers h' dt ks ls = tick_layers h dt ks ls"
  by (induction ks arbitrary: ls) (simp_all add: tick_layer_frame split: option.splits)

lemma update_ok_frame:
  assumes "frame h h'" "update_ok (a, h) dt"
  shows "update_ok (a, h') dt"
  using assms(2) clip_ok_pres[OF assms(1)] layer_ok_pres[OF assms(1)]
  unfolding update_ok_def
  by (auto simp: tick_layer_frame[OF assms(1)] frame_fields(1,2)[OF assms(1)] split: option.splits)

lemma update_ok_fields:
  "currentAnimation a = currentAnimation b \<Longrightarrow> Animator.currentTime a = Animator.currentTime b \<Longrightarrow>
   layers a = layers b \<Longrightarrow> update_ok (a, h) dt = update_ok (b, h) dt"
  by (simp add: update_ok_def split: option.splits)

lemma clocks_after_fields:
  "currentAnimation (clocks_after h dt a) = currentAnimation a"
  "Animator.currentTime (clocks_after h dt a) =
     (case currentAnimation a of
        None \<Rightarrow> Animator.currentTime a
      | Some p \<Rightarrow> c_fmod (fadd (Animator.currentTime a) (fmul (GetTicksPerSecond (h p)) dt))
                   (GetDuration (h p)))"
  "layers (clocks_after h dt a) = tick_layers h dt layer_keys (layers a)"
  by (simp_all add: clocks_after_def)

text \<open>
  The condition for the ticks to come depends on the clocks and on the key times of the
  clips only, so it can be checked before the ticks that precede them.
\<close>

lemma runs_ok_cong:
  assumes "frame h h'" "currentAnimation a = currentAnimation b"
    "Animator.currentTime a = Animator.currentTime b" "layers a = layers b"
    and "runs_ok h a dts"
  shows "runs_ok h' b dts"
  using assms
proof (induction dts arbitrary: a b)
  case Nil
  then show ?case by simp
next
  case (Cons dt dts)
  have u: "update_ok (a, h) dt" and r: "runs_ok h (clocks_after h dt a) dts"
    using Cons.prems(5) by simp_all
  have "update_ok (b, h) dt"
    using u update_ok_fields[OF Cons.prems(2,3,4), of h dt] by blast
  then have u': "update_ok (b, h') dt" using update_ok_frame[OF Cons.prems(1)] by blast
  have f: "GetTicksPerSecond (h' p) = GetTicksPerSecond (h p)"
    "GetDuration (h' p) = GetDuration (h p)" for p
    using frame_fields(1,2)[OF Cons.prems(1)] by simp_all
  have "runs_ok h' (clocks_after h' dt b) dts"
  proof (rule Cons.IH[OF Cons.prems(1) _ _ _ r])
    show "currentAnimation (clocks_after h dt a) = currentAnimation (clocks_after h' dt b)"
      using Cons.prems(2) by (simp add: clocks_after_fields)
    show "Animator.currentTime (clocks_after h dt a) = Animator.currentTime (clocks_after h' dt b)"
      using Cons.prems(2,3) by (simp add: clocks_after_fields f split: option.splits)
    show "layers (clocks_after h dt a) = layers (clocks_after h' dt b)"
      using Cons.prems(4) by (simp add: clocks_after_fields tick_layers_frame[OF Cons.prems(1)])
  qed
  then show ?case using u' by simp
qed

lemma UpdateAnimation_next_runs:
  assumes "UpdateAnimation g (this, h) dt = Inr (this', h')"
    and "runs_ok h (clocks_after h dt this) dts"
  shows "runs_ok h' this' dts"
proof -
  note F = UpdateAnimation_fields[OF assms(1)]
  show ?thesis
    by (rule runs_ok_cong[OF F(1) _ _ _ assms(2)]) (simp_all add: clocks_after_fields F)
qed

lemma UpdateAnimation_next_ok:
  assumes "UpdateAnimation g (this, h) dt = Inr (this', h')"
    and "update_ok (clocks_after h dt this, h) dt'"
  shows "update_ok (this', h') dt'"
  using UpdateAnimation_next_runs[OF assms(1), of "[dt']"] assms(2) by simp

text \<open>A sequence of ticks returns when the condition holds along it.\<close>

lemma UpdateAnimation_seq_ok:
  "runs_ok h this dts \<Longrightarrow> \<exists>this' h'. UpdateAnimation_seq g (this, h) dts = Inr (this', h')"
proof (induction dts arbitrary: this h)
  case Nil
  then show ?case by simp
next
  case (Cons dt dts)
  have "update_ok (this, h) dt" using Cons.prems by simp
  then obtain w1 where "UpdateAnimation g (this, h) dt = Inr w1"
    using UpdateAnimation_ok by blast
  then obtain this1 h1 where u: "UpdateAnimation g (this, h) dt = Inr (this1, h1)"
    by (cases w1) simp
  have "runs_ok h1 this1 dts"
    using UpdateAnimation_next_runs[OF u] Cons.prems by simp
  from Cons.IH[OF this] show ?case using u by simp
qed

lemma start_animator_eq:
  "start_animator =
     \<lparr> finalBoneMatrices = [(1, 0), (1, 0), (1, 0), (1, 0)],
       boneOverrides = (\<lambda>i. None), layers = (\<lambda>l. None),
       currentAnimation = Some 1, currentTime = 0, deltaTime = 0 \<rparr>"
  by (simp add: start_animator_def new_Animator_def cow_clips_def GetBoneCount_def walk_clip_def
      resize_def glm1_def eval_nat_numeral)

lemmas cow_eval =
  update_ok_def layer_ok_def clip_ok_def bone_ok_def channel_ok_def tick_layer_def
  clocks_after_def cow_clips_def walk_clip_def look_clip_def layer_keys_def
  GetTicksPerSecond_def GetDuration_def PlayAnimationOnLayer_def layer_entry_def
  new_LayerInfo_def Let_def float_25 fmul_25_f08 fmul_25_f008 fadd_20 fadd_2 fmod_small
  finite_small

lemma head_ok:
  "update_ok (head_animator, cow_clips) f08" "update_ok (head_animator, cow_clips) f008"
  "runs_ok cow_clips head_animator [f008, f008, f008, f008, f008]"
  by (simp_all add: head_animator_def start_animator_eq cow_eval)

lemma loop_ok: "update_ok (loop_animator, cow_clips) f08"
  by (simp add: loop_animator_def start_animator_eq cow_eval)

lemma head_facts:
  "layers head_animator HEAD =
     Some \<lparr> animation = Some 2, currentTime = 0, active = True, looping = False \<rparr>"
  "layers loop_animator HEAD =
     Some \<lparr> animation = Some 2, currentTime = 0, active = True, looping = True \<rparr>"
  "GetDuration (cow_clips 2) = 10" "GetTicksPerSecond (cow_clips 2) = 25"
  by (simp_all add: head_animator_def loop_animator_def start_animator_eq cow_eval)

lemma head_accumulate:
  "accumulate 25 0 [f008] = 2" "accumulate 25 0 [f008, f008] = 4"
  "accumulate 25 0 [f008, f008, f008] = 6" "accumulate 25 0 [f008, f008, f008, f008] = 8"
  "accumulate 25 0 [f008, f008, f008, f008, f008] = 10"
  "ticks_finite 25 0 [f008, f008, f008, f008, f008]"
  "ticks_finite 25 0 [f008]" "ticks_finite 25 0 [f08]"
  by (simp_all add: fmul_25_f008 fmul_25_f08 fadd_2 fadd_20 finite_small)

theorem C5_one_shot_ends_witness:
  "layers head_animator HEAD =
     Some \<lparr> animation = Some 2, currentTime = 0, active = True, looping = False \<rparr> \<and>
   layers loop_animator HEAD =
     Some \<lparr> animation = Some 2, currentTime = 0, active = True, looping = True \<rparr> \<and>
   GetDuration (cow_clips 2) = 10 \<and> GetTicksPerSecond (cow_clips 2) = 25 \<and>
   fmul 25 f08 = 20 \<and> fmul 25 f008 = 2 \<and>
   (\<exists>this' h'. UpdateAnimation glm1 (head_animator, cow_clips) f08 = Inr (this', h') \<and>
      layers this' HEAD =
        Some \<lparr> animation = None, currentTime = 0, active = False, looping = False \<rparr>) \<and>
   (\<exists>this' h'. UpdateAnimation glm1 (head_animator, cow_clips) f008 = Inr (this', h') \<and>
      layers this' HEAD =
        Some \<lparr> animation = Some 2, currentTime = 2, active = True, looping = False \<rparr>) \<and>
   (\<exists>this' h'. UpdateAnimation glm1 (loop_animator, cow_clips) f08 = Inr (this', h') \<and>
      layers this' HEAD =
        Some \<lparr> animation = Some 2, currentTime = 0, active = True, looping = True \<rparr>) \<and>
   (\<exists>this_a h_a this_b h_b.
      UpdateAnimation_seq glm1 (head_animator, cow_clips) [f008, f008, f008, f008]
        = Inr (this_a, h_a) \<and>
      UpdateAnimation glm1 (this_a, h_a) f008 = Inr (this_b, h_b) \<and>
      layers this_a HEAD =
        Some \<lparr> animation = Some 2, currentTime = 8, active = True, looping = False \<rparr> \<and>
      layers this_b HEAD =
        Some \<lparr> animation = None, currentTime = 0, active = False, looping = False \<rparr>)"
proof -
  let ?i = "\<lparr> animation = Some 2, currentTime = 0, active = True, looping = False \<rparr>"
  let ?j = "\<lparr> animation = Some 2, currentTime = 0, active = True, looping = True \<rparr>"
  note T = C5_one_shot_ends [where g = glm1 and h = cow_clips and layer = HEAD and p = 2]
  obtain a1 h1 where u1: "UpdateAnimation glm1 (head_animator, cow_clips) f08 = Inr (a1, h1)"
    using UpdateAnimation_ok[OF head_ok(1)] by fastforce
  have r1: "layers a1 HEAD =
      Some \<lparr> animation = None, currentTime = 0, active = False, looping = False \<rparr>"
    using T[where this = head_animator and info = ?i and dt = f08 and this' = a1 and h' = h1]
      u1 head_facts
    by (simp add: fmul_25_f08 fadd_20 finite_small)
  obtain a2 h2 where u2: "UpdateAnimation glm1 (head_animator, cow_clips) f008 = Inr (a2, h2)"
    using UpdateAnimation_ok[OF head_ok(2)] by fastforce
  have r2: "layers a2 HEAD =
      Some \<lparr> animation = Some 2, currentTime = 2, active = True, looping = False \<rparr>"
    using T[where this = head_animator and info = ?i and dt = f008 and this' = a2 and h' = h2]
      u2 head_facts
    by (simp add: fmul_25_f008 fadd_2 finite_small)
  obtain a3 h3 where u3: "UpdateAnimation glm1 (loop_animator, cow_clips) f08 = Inr (a3, h3)"
    using UpdateAnimation_ok[OF loop_ok] by fastforce
  have r3: "layers a3 HEAD =
      Some \<lparr> animation = Some 2, currentTime = 0, active = True, looping = True \<rparr>"
    using T[where this = loop_animator and info = ?j and dt = f08 and this' = a3 and h' = h3]
      u3 head_facts
    by (simp add: fmul_25_f08 fadd_20 finite_small c_fmod_def trunc_def)
  have r4ok: "runs_ok cow_clips head_animator [f008, f008, f008, f008]"
    using head_ok(2) head_ok(3) by simp
  obtain a4 h4 where
    s: "UpdateAnimation_seq glm1 (head_animator, cow_clips) [f008, f008, f008, f008] = Inr (a4, h4)"
    using UpdateAnimation_seq_ok[OF r4ok] by blast
  obtain a5 h5 where
    s5: "UpdateAnimation_seq glm1 (head_animator, cow_clips) [f008, f008, f008, f008, f008]
           = Inr (a5, h5)"
    using UpdateAnimation_seq_ok[OF head_ok(3)] by blast
  have u5: "UpdateAnimation glm1 (a4, h4) f008 = Inr (a5, h5)"
    using s s5 by (auto split: sum.splits)
  have below: "\<forall>k. 1 \<le> k \<and> k \<le> length [f008, f008, f008, f008] \<longrightarrow>
      accumulate 25 0 (take k [f008, f008, f008, f008]) < 10"
  proof (intro allI impI)
    fix k :: nat
    assume "1 \<le> k \<and> k \<le> length [f008, f008, f008, f008]"
    then have "k = 1 \<or> k = 2 \<or> k = 3 \<or> k = 4" by auto
    then show "accumulate 25 0 (take k [f008, f008, f008, f008]) < 10"
      by (auto simp: fmul_25_f008 fadd_2 eval_nat_numeral)
  qed
  have r4: "layers a4 HEAD =
      Some \<lparr> animation = Some 2, currentTime = 8, active = True, looping = False \<rparr> \<and>
    layers a5 HEAD =
      Some \<lparr> animation = None, currentTime = 0, active = False, looping = False \<rparr>"
    using T[where this = head_animator and info = ?i and dts = "[f008, f008, f008, f008]"
        and this_a = a4 and h_a = h4 and dt = f008 and this_b = a5 and h_b = h5]
      s u5 head_facts below head_accumulate
    by simp
  show ?thesis
    using head_facts u1 r1 u2 r2 u3 r3 s u5 r4 fmul_25_f08 fmul_25_f008 by blast
qed


section \<open>Primary time and layer isolation\<close>

text \<open>
  Claim C8. A tick with a primary clip \<open>p\<close> that returns leaves the primary clip in
  place and the clip's duration and tick rate unchanged. The primary time is advanced in
  the program's arithmetic, by the product \<open>ticksPerSecond * dt\<close> rounded to binary32 and
  the sum rounded again, and then wrapped by \<open>fmod\<close> against the duration; this value is
  stated for a duration other than 0 and when neither the product nor the sum overflows.
  For a clip of duration 40 at 25 ticks per second, starting at the time 0, two ticks
  with the \<^verbatim>\<open>float\<close> 0.8 (\<open>f08\<close>, the number \<open>13421773 / 16777216\<close>) give the time 20 and
  then 0: the product is rounded to 20, and \<open>fmod\<close> of 40 against 40 is 0.
\<close>

theorem C8_primary_time_wraps:
  "(currentAnimation this = Some p \<and> UpdateAnimation g (this, h) dt = Inr (this', h') \<longrightarrow>
      currentAnimation this' = Some p \<and>
      GetTicksPerSecond (h' p) = GetTicksPerSecond (h p) \<and>
      GetDuration (h' p) = GetDuration (h p) \<and>
      (ticks_finite (GetTicksPerSecond (h p)) (Animator.currentTime this) [dt] \<and>
       GetDuration (h p) \<noteq> 0 \<longrightarrow>
         Animator.currentTime this' =
           c_fmod (fadd (Animator.currentTime this) (fmul (GetTicksPerSecond (h p)) dt))
             (GetDuration (h p)))) \<and>
   (currentAnimation this = Some p \<and> GetDuration (h p) = 40 \<and> GetTicksPerSecond (h p) = 25 \<and>
    Animator.currentTime this = 0 \<and>
    UpdateAnimation g (this, h) f08 = Inr (this_a, h_a) \<and>
    UpdateAnimation g (this_a, h_a) f08 = Inr (this_b, h_b) \<longrightarrow>
      fmul 25 f08 = 20 \<and> ticks_finite 25 0 [f08, f08] \<and>
      Animator.currentTime this_a = 20 \<and> Animator.currentTime this_b = 0)"
proof (intro conjI impI)
  assume a: "currentAnimation this = Some p \<and> UpdateAnimation g (this, h) dt = Inr (this', h')"
  then have u: "UpdateAnimation g (this, h) dt = Inr (this', h')" by simp
  note F = UpdateAnimation_fields[OF u]
  show "Animator.currentTime this' =
        c_fmod (fadd (Animator.currentTime this) (fmul (GetTicksPerSecond (h p)) dt))
          (GetDuration (h p))"
    using F(3) a by simp
  show "currentAnimation this' = Some p" using F(2) a by simp
  show "GetTicksPerSecond (h' p) = GetTicksPerSecond (h p)" using frame_fields(2)[OF F(1)] .
  show "GetDuration (h' p) = GetDuration (h p)" using frame_fields(1)[OF F(1)] .
next
  assume a: "currentAnimation this = Some p \<and> GetDuration (h p) = 40 \<and> GetTicksPerSecond (h p) = 25 \<and>
    Animator.currentTime this = 0 \<and>
    UpdateAnimation g (this, h) f08 = Inr (this_a, h_a) \<and>
    UpdateAnimation g (this_a, h_a) f08 = Inr (this_b, h_b)"
  then have u1: "UpdateAnimation g (this, h) f08 = Inr (this_a, h_a)"
    and u2: "UpdateAnimation g (this_a, h_a) f08 = Inr (this_b, h_b)" by simp_all
  note F1 = UpdateAnimation_fields[OF u1]
  note F2 = UpdateAnimation_fields[OF u2]
  have tps: "GetTicksPerSecond (h p) = 25" using a by simp
  show "fmul 25 f08 = 20" by (rule fmul_25_f08)
  show "ticks_finite 25 0 [f08, f08]"
    by (simp add: fmul_25_f08 fadd_20 finite_small)
  have t1: "Animator.currentTime this_a = c_fmod (fadd 0 (fmul 25 f08)) 40"
    using F1(3) a tps by simp
  then show ta: "Animator.currentTime this_a = 20"
    by (simp add: fmul_25_f08 fadd_20 fmod_small)
  have "GetTicksPerSecond (h_a p) = 25" "GetDuration (h_a p) = 40"
    using frame_fields(1,2)[OF F1(1)] tps a by simp_all
  moreover have "currentAnimation this_a = Some p" using F1(2) a by simp
  ultimately have "Animator.currentTime this_b = c_fmod (fadd 20 (fmul 25 f08)) 40"
    using F2(3) ta by simp
  then show "Animator.currentTime this_b = 0"
    by (simp add: fmul_25_f08 fadd_20 fmod_small)
qed

lemma start_ok: "runs_ok cow_clips start_animator [f08, f08]"
  "update_ok (start_animator, cow_clips) f03"
  by (simp_all add: start_animator_eq cow_eval f03_eval)

theorem C8_primary_time_wraps_witness:
  "currentAnimation start_animator = Some 1 \<and> GetDuration (cow_clips 1) = 40 \<and>
   GetTicksPerSecond (cow_clips 1) = 25 \<and> Animator.currentTime start_animator = 0 \<and>
   f08 = 13421773 / 16777216 \<and>
   (\<exists>this_a h_a this_b h_b.
      UpdateAnimation glm1 (start_animator, cow_clips) f08 = Inr (this_a, h_a) \<and>
      UpdateAnimation glm1 (this_a, h_a) f08 = Inr (this_b, h_b) \<and>
      Animator.currentTime this_a = c_fmod (fadd 0 (fmul 25 f08)) 40 \<and>
      Animator.currentTime this_a = 20 \<and> Animator.currentTime this_b = 0) \<and>
   f03 = 5033165 / 16777216 \<and>
   (\<exists>this' h'.
      UpdateAnimation glm1 (start_animator, cow_clips) f03 = Inr (this', h') \<and>
      Animator.currentTime this' = 15728641 / 2097152)"
proof -
  have f: "currentAnimation start_animator = Some 1" "GetDuration (cow_clips 1) = 40"
    "GetTicksPerSecond (cow_clips 1) = 25" "Animator.currentTime start_animator = 0"
    by (simp_all add: start_animator_eq cow_eval)
  have "update_ok (start_animator, cow_clips) f08" using start_ok(1) by simp
  then obtain a1 h1 where u1: "UpdateAnimation glm1 (start_animator, cow_clips) f08 = Inr (a1, h1)"
    using UpdateAnimation_ok by fastforce
  have "update_ok (a1, h1) f08"
    by (rule UpdateAnimation_next_ok[OF u1]) (use start_ok(1) in simp)
  then obtain a2 h2 where u2: "UpdateAnimation glm1 (a1, h1) f08 = Inr (a2, h2)"
    using UpdateAnimation_ok by fastforce
  note T = C8_primary_time_wraps [where this = start_animator and p = 1 and g = glm1
      and h = cow_clips and this_a = a1 and h_a = h1 and this_b = a2 and h_b = h2
      and dt = f08 and this' = a1 and h' = h1]
  have fin: "ticks_finite 25 0 [f08]"
    by (simp add: fmul_25_f08 fadd_20 finite_small)
  have "Animator.currentTime a1 = c_fmod (fadd 0 (fmul 25 f08)) 40"
    "Animator.currentTime a1 = 20" "Animator.currentTime a2 = 0"
    using T f u1 u2 fin by (simp_all add: fmul_25_f08 fadd_20 fmod_small finite_small)
  note r8 = this
  obtain a3 h3 where u3: "UpdateAnimation glm1 (start_animator, cow_clips) f03 = Inr (a3, h3)"
    using UpdateAnimation_ok[OF start_ok(2)] by fastforce
  have r3: "Animator.currentTime a3 = 15728641 / 2097152"
    using C8_primary_time_wraps [where this = start_animator and p = 1 and g = glm1
        and h = cow_clips and dt = f03 and this' = a3 and h' = h3] f u3
    by (simp add: f03_eval)
  show ?thesis using f u1 u2 f08_eq f03_eq r8 u3 r3 by blast
qed

lemma layer_isolation:
  assumes "UpdateAnimation_primary g (this, h) dt = Inr (this_a, h_a)"
    and "UpdateAnimation g (this, h) dt = Inr (this_b, h_b)"
    and "i < length (finalBoneMatrices this_a)"
    and "\<forall>l info p. layers this_a l = Some info \<and> active info \<and> animation info = Some p \<longrightarrow>
           \<not> layer_claims l (GetBoneIDMap (h p)) i"
  shows "finalBoneMatrices this_b ! i = finalBoneMatrices this_a ! i"
proof -
  have lay: "apply_layers g layer_keys (this_a, h_a) = Inr (this_b, h_b)"
    using assms(1,2) by (simp add: UpdateAnimation_def)
  note A = apply_layers_frame[OF lay]
  have fr: "frame h h_a" using UpdateAnimation_primary_fields(1)[OF assms(1)] .
  have maps: "GetBoneIDMap (h_a q) = GetBoneIDMap (h q)" for q
    using frame_fields(3)[OF fr] .
  have "\<forall>l info p. l \<in> set layer_keys \<and> layers this_a l = Some info \<and> active info \<and>
            animation info = Some p \<longrightarrow> \<not> layer_claims l (GetBoneIDMap (h_a p)) i"
    using assms(4) maps by auto
  then show "finalBoneMatrices this_b ! i = finalBoneMatrices this_a ! i"
    using A assms(3) by blast
qed

lemma not_claimed:
  assumes "distinct (ids m)" "(nm, bi) \<in> set m" "GetBoneLayer nm \<noteq> layer" "0 \<le> id bi"
  shows "\<not> layer_claims layer m (nat (id bi))"
proof
  assume "layer_claims layer m (nat (id bi))"
  then obtain e where e: "e \<in> set m" "id (snd e) = id bi" "GetBoneLayer (fst e) = layer"
    using assms(4) by (auto simp: layer_claims_def list_ex_iff)
  have "inj_on (\<lambda>e. id (snd e)) (set m)"
    using assms(1) by (simp add: ids_def distinct_map)
  then have "e = (nm, bi)" using e(1,2) assms(2) by (auto simp: inj_on_def)
  then show False using e(3) assms(3) by simp
qed

text \<open>
  Claim C3. \<open>this_a\<close> is the animator after the primary walk of a tick and \<open>this_b\<close> the
  animator after the whole tick. The layer passes keep the number of final matrices, and
  every index that no active layer claims (no entry of that layer's bone table has this
  id and a name classified into the layer) holds after the tick the matrix of the
  primary walk. In particular, with one active layer and a bone table whose ids are
  distinct, the id of every bone whose name is classified into another layer keeps the
  matrix of the primary walk.
\<close>

theorem C3_layer_isolation:
  assumes "UpdateAnimation_primary g (this, h) dt = Inr (this_a, h_a)"
    and "UpdateAnimation g (this, h) dt = Inr (this_b, h_b)"
  shows
    "length (finalBoneMatrices this_b) = length (finalBoneMatrices this_a) \<and>
     (\<forall>i < length (finalBoneMatrices this_a).
        (\<forall>l info p. layers this_a l = Some info \<and> active info \<and> animation info = Some p \<longrightarrow>
           \<not> layer_claims l (GetBoneIDMap (h p)) i) \<longrightarrow>
        finalBoneMatrices this_b ! i = finalBoneMatrices this_a ! i) \<and>
     (layers this_a layer = Some info \<and> active info \<and> animation info = Some p \<and>
      (\<forall>l. l \<noteq> layer \<longrightarrow> layers this_a l = None) \<and>
      distinct (ids (GetBoneIDMap (h p))) \<and>
      (nm, bi) \<in> set (GetBoneIDMap (h p)) \<and> GetBoneLayer nm \<noteq> layer \<and>
      0 \<le> id bi \<and> id bi < int (length (finalBoneMatrices this_a)) \<longrightarrow>
        finalBoneMatrices this_b ! nat (id bi) = finalBoneMatrices this_a ! nat (id bi))"
proof (intro conjI allI impI)
  have lay: "apply_layers g layer_keys (this_a, h_a) = Inr (this_b, h_b)"
    using assms by (simp add: UpdateAnimation_def)
  show "length (finalBoneMatrices this_b) = length (finalBoneMatrices this_a)"
    using apply_layers_frame[OF lay] by (simp add: frame_w_def)
next
  fix i
  assume "i < length (finalBoneMatrices this_a)"
    and "\<forall>l info p. layers this_a l = Some info \<and> active info \<and> animation info = Some p \<longrightarrow>
           \<not> layer_claims l (GetBoneIDMap (h p)) i"
  then show "finalBoneMatrices this_b ! i = finalBoneMatrices this_a ! i"
    by (rule layer_isolation[OF assms])
next
  assume a: "layers this_a layer = Some info \<and> active info \<and> animation info = Some p \<and>
      (\<forall>l. l \<noteq> layer \<longrightarrow> layers this_a l = None) \<and>
      distinct (ids (GetBoneIDMap (h p))) \<and>
      (nm, bi) \<in> set (GetBoneIDMap (h p)) \<and> GetBoneLayer nm \<noteq> layer \<and>
      0 \<le> id bi \<and> id bi < int (length (finalBoneMatrices this_a))"
  then have nc: "\<not> layer_claims layer (GetBoneIDMap (h p)) (nat (id bi))"
    by (intro not_claimed[where nm = nm]) simp_all
  have "\<forall>l info' p'. layers this_a l = Some info' \<and> active info' \<and> animation info' = Some p' \<longrightarrow>
           \<not> layer_claims l (GetBoneIDMap (h p')) (nat (id bi))"
  proof (intro allI impI)
    fix l info' p'
    assume b: "layers this_a l = Some info' \<and> active info' \<and> animation info' = Some p'"
    then have "l = layer" using a by (cases "l = layer") auto
    then have "p' = p" using a b by simp
    then show "\<not> layer_claims l (GetBoneIDMap (h p')) (nat (id bi))"
      using nc \<open>l = layer\<close> by simp
  qed
  moreover have "nat (id bi) < length (finalBoneMatrices this_a)" using a by linarith
  ultimately show "finalBoneMatrices this_b ! nat (id bi) = finalBoneMatrices this_a ! nat (id bi)"
    using layer_isolation[OF assms] by blast
qed

lemma head_primary_layers:
  assumes "UpdateAnimation_primary glm1 (head_animator, cow_clips) f008 = Inr (a, ha)"
  shows "layers a =
    (\<lambda>l. if l = HEAD
         then Some \<lparr> animation = Some 2, currentTime = 2, active = True, looping = False \<rparr>
         else None)"
proof
  fix l
  have "layers a l = tick_layers cow_clips f008 layer_keys (layers head_animator) l"
    by (subst UpdateAnimation_primary_fields(2)[OF assms]) simp
  also have "\<dots> = map_option (tick_layer cow_clips f008) (layers head_animator l)"
    by (rule tick_layers_keys)
  also have "\<dots> = (if l = HEAD
         then Some \<lparr> animation = Some 2, currentTime = 2, active = True, looping = False \<rparr>
         else None)"
    by (simp add: head_animator_def start_animator_eq cow_eval)
  finally show "layers a l = (if l = HEAD
         then Some \<lparr> animation = Some 2, currentTime = 2, active = True, looping = False \<rparr>
         else None)" .
qed

lemmas layer_eval =
  GetBoneLayer_def IsHeadBone_def IsTailBone_def HEAD_BONE_FILTERS_def TAIL_BONE_FILTERS_def

lemma spine_not_head:
  "\<not> layer_claims HEAD (GetBoneIDMap (cow_clips 2)) 0"
  "GetBoneLayer ''DEF-spine'' = LOCOMOTION" "GetBoneLayer ''DEF-head'' = HEAD"
  "GetBoneLayer ''DEF-tail'' = TAIL"
  by (simp_all add: layer_claims_def GetBoneIDMap_def cow_clips_def look_clip_def walk_clip_def
      layer_eval)

theorem C3_layer_isolation_witness:
  "\<exists>this_a h_a this_b h_b.
     UpdateAnimation_primary glm1 (head_animator, cow_clips) f008 = Inr (this_a, h_a) \<and>
     UpdateAnimation glm1 (head_animator, cow_clips) f008 = Inr (this_b, h_b) \<and>
     layers this_a HEAD =
       Some \<lparr> animation = Some 2, currentTime = 2, active = True, looping = False \<rparr> \<and>
     layers this_a LOCOMOTION = None \<and> layers this_a TAIL = None \<and>
     0 < length (finalBoneMatrices this_a) \<and>
     \<not> layer_claims HEAD (GetBoneIDMap (cow_clips 2)) 0 \<and>
     distinct (ids (GetBoneIDMap (cow_clips 2))) \<and>
     (''DEF-spine'', \<lparr> id = 0, offset = (1, - 2) \<rparr>) \<in> set (GetBoneIDMap (cow_clips 2)) \<and>
     GetBoneLayer ''DEF-spine'' = LOCOMOTION \<and>
     length (finalBoneMatrices this_b) = 4 \<and>
     finalBoneMatrices this_b ! 0 = finalBoneMatrices this_a ! 0"
proof -
  obtain a ha where pr: "UpdateAnimation_primary glm1 (head_animator, cow_clips) f008 = Inr (a, ha)"
    using UpdateAnimation_primary_ok[OF head_ok(2)] by fastforce
  obtain b hb where up: "UpdateAnimation glm1 (head_animator, cow_clips) f008 = Inr (b, hb)"
    using UpdateAnimation_ok[OF head_ok(2)] by fastforce
  note L = head_primary_layers[OF pr]
  have len: "length (finalBoneMatrices a) = 4"
    using UpdateAnimation_primary_fields(3)[OF pr]
    by (simp add: head_animator_def start_animator_eq PlayAnimationOnLayer_def)
  have m: "distinct (ids (GetBoneIDMap (cow_clips 2)))"
    "(''DEF-spine'', \<lparr> id = 0, offset = (1, - 2) \<rparr>) \<in> set (GetBoneIDMap (cow_clips 2))"
    by (simp_all add: ids_def GetBoneIDMap_def cow_clips_def look_clip_def walk_clip_def)
  note T = C3_layer_isolation [OF pr up, where layer = HEAD and p = 2
      and info = "\<lparr> animation = Some 2, currentTime = 2, active = True, looping = False \<rparr>"
      and nm = "''DEF-spine''" and bi = "\<lparr> id = 0, offset = (1, - 2) \<rparr>"]
  have c: "\<forall>l info p. layers a l = Some info \<and> active info \<and> animation info = Some p \<longrightarrow>
           \<not> layer_claims l (GetBoneIDMap (cow_clips p)) 0"
    using spine_not_head(1) by (auto simp: L split: if_splits)
  have r1: "finalBoneMatrices b ! 0 = finalBoneMatrices a ! 0"
    using T c len by simp
  have r2: "length (finalBoneMatrices b) = 4" using T len by simp
  show ?thesis
    using pr up r1 r2 len m spine_not_head by (intro exI[of _ a] exI[of _ ha] exI[of _ b] exI[of _ hb]) (simp add: L)
qed


section \<open>Bone overrides\<close>

lemma names_of_child:
  "vec_at (children node) i = Inr child \<Longrightarrow> set (names_of child) \<subseteq> set (names_of node)"
  by (cases node) (auto simp: vec_at_def split: if_splits)

lemma resolved_child:
  "vec_at (children node) i = Inr child \<Longrightarrow> resolved m n child b \<Longrightarrow> resolved m n node b"
  using names_of_child[of node i child] by (auto simp: resolved_def list_ex_iff)

lemma resolved_here:
  "map_of m (AssimpNodeData.name node) = Some info \<Longrightarrow> 0 \<le> id info \<Longrightarrow> id info < int n \<Longrightarrow>
     resolved m n node (id info)"
  by (cases node) (simp add: resolved_def)

lemma agree_frame_w:
  assumes "frame_w w w1" "agree ov w node"
  shows "agree ov w1 node"
proof -
  have e: "fst w1 = (fst w)\<lparr> finalBoneMatrices := finalBoneMatrices (fst w1) \<rparr>"
    and fr: "frame (snd w) (snd w1)"
    and len: "length (finalBoneMatrices (fst w1)) = length (finalBoneMatrices (fst w))"
    using assms(1) by (simp_all add: frame_w_def)
  have c: "currentAnimation (fst w1) = currentAnimation (fst w)"
    "boneOverrides (fst w1) = boneOverrides (fst w)"
    by (subst e, simp)+
  show ?thesis
    using assms(2) unfolding agree_def c len frame_fields(3)[OF fr] .
qed

lemma overrides_matrices_commute:
  "this\<lparr> boneOverrides := ov, finalBoneMatrices := X \<rparr> =
   this\<lparr> finalBoneMatrices := X, boneOverrides := ov \<rparr>"
  by (rule Animator.equality) simp_all

lemma CalculateBoneTransform_overrides:
  "agree ov w node \<Longrightarrow>
     CalculateBoneTransform g ((fst w)\<lparr> boneOverrides := ov \<rparr>, snd w) node P =
       with_overrides ov (CalculateBoneTransform g w node P)"
  "agree ov w node \<Longrightarrow>
     CalculateBoneTransform_children g ((fst w)\<lparr> boneOverrides := ov \<rparr>, snd w) node G i =
       with_overrides ov (CalculateBoneTransform_children g w node G i)"
proof (induction g w node P and g w node G i
    rule: CalculateBoneTransform_CalculateBoneTransform_children.induct)
  case (1 g this h node parentTransform)
  show ?case
  proof (cases "currentAnimation this")
    case None
    then show ?thesis by (simp add: CalculateBoneTransform.simps with_overrides_def)
  next
    case (Some p)
    show ?thesis
    proof (cases "node_local g h p node (Animator.currentTime this)")
      case (Inl e)
      then show ?thesis using Some by (simp add: CalculateBoneTransform.simps with_overrides_def)
    next
      case (Inr r)
      obtain m h1 where r: "r = (m, h1)" by (cases r)
      note nl = Inr[unfolded r]
      have fr: "frame h h1" using nl by (rule node_local_frame)
      let ?it = "map_of (GetBoneIDMap (h1 p)) (AssimpNodeData.name node)"
      let ?m1 = "(case ?it of None \<Rightarrow> m
            | Some info \<Rightarrow>
                if 0 \<le> BoneInfo.id info \<and>
                   BoneInfo.id info < int (length (finalBoneMatrices this))
                then case boneOverrides this (BoneInfo.id info) of None \<Rightarrow> m
                     | Some overrideTransform \<Rightarrow> mat_mul g overrideTransform m
                else m)"
      let ?G = "mat_mul g parentTransform ?m1"
      let ?this1 = "(case ?it of None \<Rightarrow> this
            | Some info \<Rightarrow>
                if 0 \<le> BoneInfo.id info \<and>
                   BoneInfo.id info < int (length (finalBoneMatrices this))
                then this\<lparr>finalBoneMatrices := (finalBoneMatrices this)
                        [nat (BoneInfo.id info) := mat_mul g ?G (offset info)]\<rparr>
                else this)"
      have eq: "CalculateBoneTransform g (this, h) node parentTransform =
            CalculateBoneTransform_children g (?this1, h1) node ?G 0"
        using Some nl by (simp add: CalculateBoneTransform.simps Let_def)
      have ag: "\<forall>i. resolved (GetBoneIDMap (h1 p)) (length (finalBoneMatrices this)) node i \<longrightarrow>
                  ov i = boneOverrides this i"
        using "1.prems" Some frame_fields(3)[OF fr] by (simp add: agree_def)
      have eq': "CalculateBoneTransform g (this\<lparr> boneOverrides := ov \<rparr>, h) node parentTransform =
            CalculateBoneTransform_children g (?this1\<lparr> boneOverrides := ov \<rparr>, h1) node ?G 0"
      proof (cases ?it)
        case None
        then show ?thesis using Some nl by (simp add: CalculateBoneTransform.simps Let_def)
      next
        case s: (Some info)
        show ?thesis
        proof (cases "0 \<le> id info \<and> id info < int (length (finalBoneMatrices this))")
          case True
          then have "ov (id info) = boneOverrides this (id info)"
            using ag resolved_here[OF s] by blast
          then show ?thesis using s True Some nl
            by (simp add: CalculateBoneTransform.simps Let_def overrides_matrices_commute)
        next
          case False
          then show ?thesis using s Some nl
            by (auto simp: CalculateBoneTransform.simps Let_def)
        qed
      qed
      have fw: "frame_w (this, h) (?this1, h1)"
        using fr by (auto simp: frame_w_def split: option.splits)
      have ag1: "agree ov (?this1, h1) node"
        using agree_frame_w[OF fw "1.prems"] .
      from "1.IH"[OF Some nl refl refl refl refl refl ag1]
      show ?thesis using eq eq' by simp
    qed
  qed
next
  case (2 g w node globalTransformation i)
  let ?w' = "((fst w)\<lparr> boneOverrides := ov \<rparr>, snd w)"
  show ?case
  proof (cases "i < childrenCount node")
    case False
    then show ?thesis
      by (cases w) (simp add: CalculateBoneTransform_children.simps with_overrides_def)
  next
    case True
    show ?thesis
    proof (cases "vec_at (children node) i")
      case (Inl e)
      then show ?thesis using True
        by (simp add: CalculateBoneTransform_children.simps with_overrides_def)
    next
      case (Inr child)
      have agc: "agree ov w child"
        using "2.prems" resolved_child[OF Inr] unfolding agree_def by blast
      note h1 = "2.IH"(1)[OF True Inr agc]
      show ?thesis
      proof (cases "CalculateBoneTransform g w child globalTransformation")
        case (Inl e)
        then show ?thesis using True Inr h1
          by (simp add: CalculateBoneTransform_children.simps with_overrides_def)
      next
        case r: (Inr w1)
        have fw: "frame_w w w1" using CalculateBoneTransform_frame(1)[OF r] .
        have ag1: "agree ov w1 node" using agree_frame_w[OF fw "2.prems"] .
        note h2 = "2.IH"(2)[OF True Inr r ag1]
        have "CalculateBoneTransform g ?w' child globalTransformation =
                Inr ((fst w1)\<lparr> boneOverrides := ov \<rparr>, snd w1)"
          using h1 r by (cases w1) (simp add: with_overrides_def)
        then show ?thesis using True Inr r h2
          by (simp add: CalculateBoneTransform_children.simps)
      qed
    qed
  qed
qed

lemma CalculateLayerBoneTransform_overrides:
  "CalculateLayerBoneTransform g (this\<lparr> boneOverrides := ov \<rparr>) h node P layer lm =
     CalculateLayerBoneTransform g this h node P layer lm"
  "CalculateLayerBoneTransform_children g (this\<lparr> boneOverrides := ov \<rparr>) h node G layer lm i =
     CalculateLayerBoneTransform_children g this h node G layer lm i"
proof (induction g this h node P layer lm and g this h node G layer lm i
    rule: CalculateLayerBoneTransform_CalculateLayerBoneTransform_children.induct)
  case (1 g this h node parentTransform layer layerMatrices)
  have le: "layer_entry (this\<lparr> boneOverrides := ov \<rparr>) layer = layer_entry this layer"
    by (simp add: layer_entry_def)
  show ?case
  proof (cases "animation (layer_entry this layer)")
    case None
    then show ?thesis by (simp add: CalculateLayerBoneTransform.simps le)
  next
    case (Some p)
    show ?thesis
    proof (cases "node_local g h p node (LayerInfo.currentTime (layer_entry this layer))")
      case (Inl e)
      then show ?thesis using Some by (simp add: CalculateLayerBoneTransform.simps le)
    next
      case (Inr r)
      obtain m h1 where r: "r = (m, h1)" by (cases r)
      note nl = Inr[unfolded r]
      from "1.IH"[OF refl Some nl refl refl refl refl]
      show ?thesis using Some nl
        by (simp add: CalculateLayerBoneTransform.simps le Let_def)
    qed
  qed
next
  case (2 g this h node globalTransformation layer layerMatrices i)
  show ?case
  proof (cases "i < childrenCount node")
    case False
    then show ?thesis by (simp add: CalculateLayerBoneTransform_children.simps)
  next
    case True
    show ?thesis
    proof (cases "vec_at (children node) i")
      case (Inl e)
      then show ?thesis using True by (simp add: CalculateLayerBoneTransform_children.simps)
    next
      case (Inr child)
      note h1 = "2.IH"(1)[OF True Inr]
      show ?thesis
      proof (cases "CalculateLayerBoneTransform g this h child globalTransformation layer
                      layerMatrices")
        case (Inl e)
        then show ?thesis using True Inr h1
          by (simp add: CalculateLayerBoneTransform_children.simps)
      next
        case r: (Inr res)
        obtain lm1 h1' where res: "res = (lm1, h1')" by (cases res)
        note h2 = "2.IH"(2)[OF True Inr r[unfolded res] refl]
        show ?thesis using True Inr r res h1 h2
          by (simp add: CalculateLayerBoneTransform_children.simps)
      qed
    qed
  qed
qed

lemma apply_layers_overrides:
  "apply_layers g ks (this\<lparr> boneOverrides := ov \<rparr>, h) =
     with_overrides ov (apply_layers g ks (this, h))"
proof (induction ks arbitrary: this h)
  case Nil
  then show ?case by (simp add: with_overrides_def)
next
  case (Cons layer rest)
  show ?case
  proof (cases "layers this layer")
    case None
    then show ?thesis using Cons.IH by simp
  next
    case (Some info)
    show ?thesis
    proof (cases "active info")
      case False
      then show ?thesis using Some Cons.IH by simp
    next
      case True
      show ?thesis
      proof (cases "animation info")
        case None
        then show ?thesis using Some True Cons.IH by simp
      next
        case p: (Some p)
        let ?lm = "replicate (length (finalBoneMatrices this)) (mat4_1 g)"
        show ?thesis
        proof (cases "CalculateLayerBoneTransform g this h (GetRootNode (h p)) (mat4_1 g) layer ?lm")
          case (Inl e)
          then show ?thesis using Some True p
            by (simp add: CalculateLayerBoneTransform_overrides with_overrides_def)
        next
          case (Inr res)
          obtain lm1 h1 where res: "res = (lm1, h1)" by (cases res)
          show ?thesis
          proof (cases "apply_layer_bones layer lm1 (GetBoneIDMap (h1 p)) (finalBoneMatrices this)")
            case (Inl e)
            then show ?thesis using Some True p Inr res
              by (simp add: CalculateLayerBoneTransform_overrides with_overrides_def)
          next
            case f: (Inr fbm)
            have "apply_layers g rest (this\<lparr> finalBoneMatrices := fbm, boneOverrides := ov \<rparr>, h1) =
                    with_overrides ov (apply_layers g rest (this\<lparr> finalBoneMatrices := fbm \<rparr>, h1))"
              using Cons.IH[of "this\<lparr> finalBoneMatrices := fbm \<rparr>" h1] by simp
            then show ?thesis using Some True p Inr res f
              by (simp add: CalculateLayerBoneTransform_overrides overrides_matrices_commute)
          qed
        qed
      qed
    qed
  qed
qed

lemma with_overrides_bind:
  "(case with_overrides ov r of Inl e \<Rightarrow> Inl e | Inr w1 \<Rightarrow> apply_layers g ks w1) =
   with_overrides ov (case r of Inl e \<Rightarrow> Inl e | Inr w1 \<Rightarrow> apply_layers g ks w1)"
proof (cases r)
  case (Inl e)
  then show ?thesis by (simp add: with_overrides_def)
next
  case (Inr w1)
  obtain t h where "w1 = (t, h)" by (cases w1)
  then show ?thesis using Inr apply_layers_overrides[where g=g and ks=ks and this=t and ov=ov and h=h]
    by (simp add: with_overrides_def)
qed

lemma UpdateAnimation_overrides:
  assumes "\<forall>p. currentAnimation this = Some p \<longrightarrow>
             (\<forall>i. resolved (GetBoneIDMap (h p)) (length (finalBoneMatrices this))
                     (GetRootNode (h p)) i \<longrightarrow> ov i = boneOverrides this i)"
  shows "UpdateAnimation g (this\<lparr> boneOverrides := ov \<rparr>, h) dt =
           with_overrides ov (UpdateAnimation g (this, h) dt)"
proof -
  let ?t = "(case currentAnimation this of
                None \<Rightarrow> Animator.currentTime this
              | Some p \<Rightarrow> c_fmod (fadd (Animator.currentTime this) (fmul (GetTicksPerSecond (h p)) dt))
                           (GetDuration (h p)))"
  let ?this4 = "this\<lparr> deltaTime := dt, currentTime := ?t,
            layers := tick_layers h dt layer_keys (layers this),
            finalBoneMatrices := replicate (length (finalBoneMatrices this)) (mat4_1 g) \<rparr>"
  have prim: "UpdateAnimation_primary g (this\<lparr> boneOverrides := ov \<rparr>, h) dt =
                with_overrides ov (UpdateAnimation_primary g (this, h) dt)"
  proof (cases "currentAnimation this")
    case None
    have a: "UpdateAnimation_primary g (this, h) dt = Inr (?this4, h)"
      using None by (simp add: UpdateAnimation_primary_def Let_def)
    have "UpdateAnimation_primary g (this\<lparr> boneOverrides := ov \<rparr>, h) dt =
            Inr (?this4\<lparr> boneOverrides := ov \<rparr>, h)"
      using None by (simp add: UpdateAnimation_primary_def Let_def)
    then show ?thesis using a by (simp add: with_overrides_def)
  next
    case (Some p)
    have a: "UpdateAnimation_primary g (this, h) dt =
               CalculateBoneTransform g (?this4, h) (GetRootNode (h p)) (mat4_1 g)"
      using Some by (simp add: UpdateAnimation_primary_def Let_def)
    have e: "\<And>a b c d. this\<lparr> boneOverrides := ov, deltaTime := a, currentTime := b,
            layers := c, finalBoneMatrices := d \<rparr>
          = this\<lparr> deltaTime := a, currentTime := b,
            layers := c, finalBoneMatrices := d, boneOverrides := ov \<rparr>"
      by (rule Animator.equality) simp_all
    have b: "UpdateAnimation_primary g (this\<lparr> boneOverrides := ov \<rparr>, h) dt =
               CalculateBoneTransform g (?this4\<lparr> boneOverrides := ov \<rparr>, h) (GetRootNode (h p))
                 (mat4_1 g)"
      using Some by (simp add: UpdateAnimation_primary_def Let_def e)
    have ag: "agree ov (?this4, h) (GetRootNode (h p))"
      using assms Some by (simp add: agree_def)
    show ?thesis
      unfolding a b using CalculateBoneTransform_overrides(1)[OF ag] by simp
  qed
  show ?thesis
    unfolding UpdateAnimation_def prim by (rule with_overrides_bind)
qed

lemma walk_step_with_override:
  assumes "currentAnimation this = Some p"
    and "node_local g h p node (Animator.currentTime this) = Inr (m, h1)"
    and "map_of (GetBoneIDMap (h1 p)) (AssimpNodeData.name node) = Some info"
    and "0 \<le> id info" "id info < int (length (finalBoneMatrices this))"
    and "boneOverrides this (id info) = Some ov"
  shows "CalculateBoneTransform g (this, h) node P =
           CalculateBoneTransform_children g
             (this\<lparr> finalBoneMatrices := (finalBoneMatrices this)
                      [nat (id info) :=
                         mat_mul g (mat_mul g P (mat_mul g ov m)) (offset info)] \<rparr>, h1)
             node (mat_mul g P (mat_mul g ov m)) 0"
  using assms by (simp add: CalculateBoneTransform.simps Let_def)

text \<open>
  Claim C7. In the primary walk, at a node whose name is in the bone table with an id in
  the range of the final matrices for which an override \<open>ov\<close> is registered, the global
  transform passed to the children and multiplied with the offset is
  \<open>parent * (ov * local)\<close>. Registering an override with \<^verbatim>\<open>SetBoneOverride\<close> for an id that
  no node of the primary clip resolves (no node's name has this id, or the id is out of
  the range of the matrices) changes nothing in the result of a tick but the override
  map itself. The layer walk gives the same result for every override map.
\<close>

theorem C7_overrides:
  "(currentAnimation this = Some p \<and>
    node_local g h p node (Animator.currentTime this) = Inr (m, h_a) \<and>
    map_of (GetBoneIDMap (h_a p)) (AssimpNodeData.name node) = Some info \<and>
    0 \<le> id info \<and> id info < int (length (finalBoneMatrices this)) \<and>
    boneOverrides this (id info) = Some ov \<longrightarrow>
      CalculateBoneTransform g (this, h) node P =
        CalculateBoneTransform_children g
          (this\<lparr> finalBoneMatrices := (finalBoneMatrices this)
                   [nat (id info) := mat_mul g (mat_mul g P (mat_mul g ov m)) (offset info)] \<rparr>,
           h_a)
          node (mat_mul g P (mat_mul g ov m)) 0) \<and>
   ((\<forall>q. currentAnimation this = Some q \<longrightarrow>
        \<not> resolved (GetBoneIDMap (h q)) (length (finalBoneMatrices this)) (GetRootNode (h q))
            boneID) \<longrightarrow>
      UpdateAnimation g (SetBoneOverride this boneID X, h) dt =
        with_overrides (boneOverrides (SetBoneOverride this boneID X))
          (UpdateAnimation g (this, h) dt)) \<and>
   CalculateLayerBoneTransform g (this\<lparr> boneOverrides := ov_a \<rparr>) h node P layer lm =
     CalculateLayerBoneTransform g this h node P layer lm"
proof (intro conjI impI)
  assume a: "currentAnimation this = Some p \<and>
    node_local g h p node (Animator.currentTime this) = Inr (m, h_a) \<and>
    map_of (GetBoneIDMap (h_a p)) (AssimpNodeData.name node) = Some info \<and>
    0 \<le> id info \<and> id info < int (length (finalBoneMatrices this)) \<and>
    boneOverrides this (id info) = Some ov"
  then show "CalculateBoneTransform g (this, h) node P =
        CalculateBoneTransform_children g
          (this\<lparr> finalBoneMatrices := (finalBoneMatrices this)
                   [nat (id info) := mat_mul g (mat_mul g P (mat_mul g ov m)) (offset info)] \<rparr>,
           h_a)
          node (mat_mul g P (mat_mul g ov m)) 0"
    using walk_step_with_override[of this p g h node m h_a info ov P] by blast
next
  assume n: "\<forall>q. currentAnimation this = Some q \<longrightarrow>
        \<not> resolved (GetBoneIDMap (h q)) (length (finalBoneMatrices this)) (GetRootNode (h q))
            boneID"
  have "UpdateAnimation g (this\<lparr> boneOverrides := (boneOverrides this)(boneID \<mapsto> X) \<rparr>, h) dt =
          with_overrides ((boneOverrides this)(boneID \<mapsto> X)) (UpdateAnimation g (this, h) dt)"
    by (rule UpdateAnimation_overrides) (use n in auto)
  then show "UpdateAnimation g (SetBoneOverride this boneID X, h) dt =
        with_overrides (boneOverrides (SetBoneOverride this boneID X))
          (UpdateAnimation g (this, h) dt)"
    by (simp add: SetBoneOverride_def)
next
  show "CalculateLayerBoneTransform g (this\<lparr> boneOverrides := ov_a \<rparr>) h node P layer lm =
     CalculateLayerBoneTransform g this h node P layer lm"
    by (rule CalculateLayerBoneTransform_overrides(1))
qed

lemma tail_local:
  "node_local glm1 cow_clips 1 tail_node 20 = Inr ((1, - 1), cow_clips)"
  "map_of (GetBoneIDMap (cow_clips 1)) (AssimpNodeData.name tail_node) =
     Some \<lparr> id = 2, offset = (1, - 1) \<rparr>"
  by (simp_all add: node_local_def FindBone_def GetBoneName_def tail_node_def cow_clips_def
      walk_clip_def GetBoneIDMap_def)

lemma ik_unresolved:
  "\<not> resolved (GetBoneIDMap (cow_clips 1)) 4 (GetRootNode (cow_clips 1)) 3"
  by (simp add: resolved_def GetBoneIDMap_def GetRootNode_def cow_clips_def walk_clip_def)

theorem C7_overrides_witness:
  "CalculateBoneTransform glm1 (SetBoneOverride cow_animator 2 (1, 7), cow_clips) tail_node (1, 2) =
     Inr ((SetBoneOverride cow_animator 2 (1, 7))
            \<lparr> finalBoneMatrices := [(1, 0), (1, 0), (1, 7), (1, 0)] \<rparr>, cow_clips) \<and>
   \<not> resolved (GetBoneIDMap (cow_clips 1)) 4 (GetRootNode (cow_clips 1)) 3 \<and>
   UpdateAnimation glm1 (SetBoneOverride start_animator 3 (1, 7), cow_clips) (4 / 5) =
     with_overrides (boneOverrides (SetBoneOverride start_animator 3 (1, 7)))
       (UpdateAnimation glm1 (start_animator, cow_clips) (4 / 5))"
proof -
  note T1 = C7_overrides [where this = "SetBoneOverride cow_animator 2 (1, 7)" and p = 1
      and g = glm1 and h = cow_clips and node = tail_node and m = "(1, - 1)" and h_a = cow_clips
      and info = "\<lparr> id = 2, offset = (1, - 1) \<rparr>" and ov = "(1, 7)" and P = "(1, 2)"]
  note T2 = C7_overrides [where this = start_animator and g = glm1 and h = cow_clips
      and boneID = 3 and X = "(1, 7)" and dt = "4 / 5"]
  have a: "CalculateBoneTransform glm1 (SetBoneOverride cow_animator 2 (1, 7), cow_clips)
             tail_node (1, 2) =
           Inr ((SetBoneOverride cow_animator 2 (1, 7))
            \<lparr> finalBoneMatrices := [(1, 0), (1, 0), (1, 7), (1, 0)] \<rparr>, cow_clips)"
    using T1 tail_local
    by (simp add: SetBoneOverride_def cow_animator_eq CalculateBoneTransform_children.simps
        tail_node_def glm1_def)
  have b: "UpdateAnimation glm1 (SetBoneOverride start_animator 3 (1, 7), cow_clips) (4 / 5) =
     with_overrides (boneOverrides (SetBoneOverride start_animator 3 (1, 7)))
       (UpdateAnimation glm1 (start_animator, cow_clips) (4 / 5))"
    using T2 ik_unresolved by (simp add: start_animator_eq eval_nat_numeral)
  show ?thesis using a b ik_unresolved by simp
qed

end
